theory Spec2Isabelle
  imports Main "HOL-Library.Multiset"
begin

section \<open>The bulk cache of the Linear provider\<close>

text \<open>
  A shallow embedding of \<^verbatim>\<open>internal/provider/bulk_cache.go\<close>. The file holds one struct,
  \<^verbatim>\<open>BulkCache\<close>, with four lazily populated categories (labels, workflow states,
  templates, teams), one populate routine per category behind a \<^verbatim>\<open>sync.Once\<close>, and five
  lookup methods.

  What the Go code does beyond returning values is explicit here:
  \<^item> the remote API is a world state \<open>'w\<close> that every list call reads and updates;
  \<^item> \<^verbatim>\<open>&label\<close> allocates a cell in a heap of records, and the cache maps hold pointers
    (indices of cells);
  \<^item> a Go result pair \<^verbatim>\<open>(*T, error)\<close> is a pair of options, \<open>None\<close> being \<^verbatim>\<open>nil\<close>;
  \<^item> the page loop \<^verbatim>\<open>for { ... }\<close> has no bound, so it is a partial function with
    \<open>None\<close> for a traversal that never ends;
  \<^item> \<^verbatim>\<open>sync.Once\<close> is its done flag, as seen by one goroutine at a time: the flag is
    set when the function given to \<^verbatim>\<open>Do\<close> has returned;
  \<^item> the order in which \<^verbatim>\<open>range\<close> yields the keys of a map, which Go leaves open, is an
    argument of the one function that ranges over a map.

  The context \<^verbatim>\<open>ctx\<close> is handed on to the list operations as it is. The calls to
  \<^verbatim>\<open>tflog.Debug\<close> write to a logger that the code never reads back; they are left out.
\<close>

subsection \<open>Errors\<close>

text \<open>
  A Go \<^verbatim>\<open>error\<close> is either a value handed back by the remote client, opaque to this code,
  or one built here by \<^verbatim>\<open>fmt.Errorf\<close>, which is known by its message.
\<close>

datatype error = ClientError string | Errorf string

subsection \<open>The records of the remote API\<close>

text \<open>
  The record types are generated code that is not part of the file. The cache reads the
  identifier of every record, the key of a team and the identifier of the team that owns a
  workflow state; all other fields are the payload \<open>'a\<close>.
\<close>

record 'a IssueLabel =
  IssueLabel_Id :: string
  IssueLabel_fields :: 'a

record WorkflowStateTeam =
  WorkflowStateTeam_Id :: string

record 'a WorkflowState =
  WorkflowState_Id :: string
  WorkflowState_Team :: WorkflowStateTeam
  WorkflowState_fields :: 'a

record 'a Template =
  Template_Id :: string
  Template_fields :: 'a

record 'a Team =
  Team_Id :: string
  Team_Key :: string
  Team_fields :: 'a

text \<open>A node of a response embeds the record: \<^verbatim>\<open>node.IssueLabel\<close> and so on.\<close>

record 'a IssueLabelNode =
  IssueLabel :: "'a IssueLabel"

record 'a WorkflowStateNode =
  WorkflowState :: "'a WorkflowState"

record 'a TemplateNode =
  Template :: "'a Template"

record 'a TeamNode =
  Team :: "'a Team"

record PageInfo =
  HasNextPage :: bool
  EndCursor :: string

record 'n Connection =
  Nodes :: "'n list"
  PageInfo :: PageInfo

record 'a listAllLabelsPageResponse =
  IssueLabels :: "'a IssueLabelNode Connection"

record 'a listAllWorkflowStatesPageResponse =
  WorkflowStates :: "'a WorkflowStateNode Connection"

record 'a listAllTemplatesResponse =
  Templates :: "'a TemplateNode list"

record 'a listAllTeamsPageResponse =
  Teams :: "'a TeamNode Connection"

subsection \<open>The client\<close>

text \<open>
  The four list operations are generated functions outside the file; they are the fields
  of the client. Each takes the context, the cursor where there is one (\<open>None\<close> is the
  \<^verbatim>\<open>nil\<close> cursor) and the world, and returns Go's pair of a response and an error
  together with the new world. The response is read only when the error is \<^verbatim>\<open>nil\<close>.
\<close>

record ('c, 'w, 'a) Client =
  listAllLabelsPage ::
    "'c \<Rightarrow> string option \<Rightarrow> 'w \<Rightarrow> ('a listAllLabelsPageResponse \<times> error option) \<times> 'w"
  listAllWorkflowStatesPage ::
    "'c \<Rightarrow> string option \<Rightarrow> 'w \<Rightarrow> ('a listAllWorkflowStatesPageResponse \<times> error option) \<times> 'w"
  listAllTemplates ::
    "'c \<Rightarrow> 'w \<Rightarrow> ('a listAllTemplatesResponse \<times> error option) \<times> 'w"
  listAllTeamsPage ::
    "'c \<Rightarrow> string option \<Rightarrow> 'w \<Rightarrow> ('a listAllTeamsPageResponse \<times> error option) \<times> 'w"

subsection \<open>The heap\<close>

text \<open>
  A pointer is the index of a cell. Go never frees a cell that is still reachable, so
  allocation appends. The backing arrays of the slices that
  \<^verbatim>\<open>GetWorkflowStatesByTeamID\<close> returns live in cells of their own.
\<close>

type_synonym ptr = nat

record 'a heap =
  IssueLabel_cells :: "'a IssueLabel list"
  WorkflowState_cells :: "'a WorkflowState list"
  Template_cells :: "'a Template list"
  Team_cells :: "'a Team list"
  WorkflowState_slices :: "'a WorkflowState list list"

subsection \<open>The cache\<close>

text \<open>A map field is \<open>None\<close> while it is the \<^verbatim>\<open>nil\<close> map.\<close>

record ('c, 'w, 'a) BulkCache =
  client :: "('c, 'w, 'a) Client"
  labelsOnce :: bool
  labels :: "(string \<rightharpoonup> ptr) option"
  labelsErr :: "error option"
  workflowStatesOnce :: bool
  workflowStates :: "(string \<rightharpoonup> ptr) option"
  workflowStatesErr :: "error option"
  templatesOnce :: bool
  templates :: "(string \<rightharpoonup> ptr) option"
  templatesErr :: "error option"
  teamsOnce :: bool
  teamsByKey :: "(string \<rightharpoonup> ptr) option"
  teamsErr :: "error option"

record ('c, 'w, 'a) ProviderData =
  Client :: "('c, 'w, 'a) Client"
  Cache :: "('c, 'w, 'a) BulkCache"

definition newBulkCache :: "('c, 'w, 'a) Client \<Rightarrow> ('c, 'w, 'a) BulkCache" where
  "newBulkCache cl =
     \<lparr>client = cl,
      labelsOnce = False, labels = None, labelsErr = None,
      workflowStatesOnce = False, workflowStates = None, workflowStatesErr = None,
      templatesOnce = False, templates = None, templatesErr = None,
      teamsOnce = False, teamsByKey = None, teamsErr = None\<rparr>"

text \<open>
  Reading a Go map with \<^verbatim>\<open>v, ok := m[k]\<close>: the \<^verbatim>\<open>nil\<close> map has no key.
\<close>

definition map_index :: "(string \<rightharpoonup> ptr) option \<Rightarrow> string \<Rightarrow> ptr option" where
  "map_index m k = (case m of None \<Rightarrow> None | Some f \<Rightarrow> f k)"

subsection \<open>Labels\<close>

text \<open>
  The inner loop of \<^verbatim>\<open>ensureLabels\<close>: every node's label is copied into a fresh cell
  and the map entry of its identifier is set to that cell.
\<close>

fun labels_merge ::
  "'a IssueLabelNode list \<Rightarrow> (string \<rightharpoonup> ptr) \<Rightarrow> 'a IssueLabel list
     \<Rightarrow> (string \<rightharpoonup> ptr) \<times> 'a IssueLabel list" where
  "labels_merge [] m cells = (m, cells)"
| "labels_merge (node # nodes) m cells =
     (let label = IssueLabel node
      in labels_merge nodes (m(IssueLabel_Id label \<mapsto> length cells)) (cells @ [label]))"

text \<open>
  The page loop of \<^verbatim>\<open>ensureLabels\<close>. It returns the contents of the map
  \<^verbatim>\<open>c.labels\<close>, the error to store (\<open>None\<close> when the loop ended by \<^verbatim>\<open>break\<close>), the
  heap and the world.
\<close>

partial_function (option) labels_loop ::
  "('c, 'w, 'a) Client \<Rightarrow> 'c \<Rightarrow> string option \<Rightarrow> (string \<rightharpoonup> ptr) \<Rightarrow> 'a heap \<Rightarrow> 'w
     \<Rightarrow> ((string \<rightharpoonup> ptr) \<times> error option \<times> 'a heap \<times> 'w) option" where
  "labels_loop cl ctx cursor m h w =
     (case listAllLabelsPage cl ctx cursor w of
        ((resp, Some err), w') \<Rightarrow> Some (m, Some err, h, w')
      | ((resp, None), w') \<Rightarrow>
          (case labels_merge (Nodes (IssueLabels resp)) m (IssueLabel_cells h) of
             (m', cells') \<Rightarrow>
               if \<not> HasNextPage (PageInfo (IssueLabels resp))
               then Some (m', None, h\<lparr>IssueLabel_cells := cells'\<rparr>, w')
               else labels_loop cl ctx (Some (EndCursor (PageInfo (IssueLabels resp))))
                      m' (h\<lparr>IssueLabel_cells := cells'\<rparr>) w'))"

definition ensureLabels ::
  "'c \<Rightarrow> ('c, 'w, 'a) BulkCache \<Rightarrow> 'a heap \<Rightarrow> 'w
     \<Rightarrow> (('c, 'w, 'a) BulkCache \<times> 'a heap \<times> 'w) option" where
  "ensureLabels ctx c h w =
     (if labelsOnce c then Some (c, h, w)
      else
        (case labels_loop (client c) ctx None Map.empty h w of
           None \<Rightarrow> None
         | Some (m, None, h', w') \<Rightarrow>
             Some (c\<lparr>labels := Some m, labelsOnce := True\<rparr>, h', w')
         | Some (m, Some err, h', w') \<Rightarrow>
             Some (c\<lparr>labels := Some m, labelsErr := Some err, labelsOnce := True\<rparr>, h', w')))"

definition GetLabel ::
  "'c \<Rightarrow> string \<Rightarrow> ('c, 'w, 'a) BulkCache \<Rightarrow> 'a heap \<Rightarrow> 'w
     \<Rightarrow> ((ptr option \<times> error option) \<times> ('c, 'w, 'a) BulkCache \<times> 'a heap \<times> 'w) option" where
  "GetLabel ctx id' c h w =
     (case ensureLabels ctx c h w of
        None \<Rightarrow> None
      | Some (c', h', w') \<Rightarrow>
          (case labelsErr c' of
             Some err \<Rightarrow> Some ((None, Some err), c', h', w')
           | None \<Rightarrow>
               (case map_index (labels c') id' of
                  None \<Rightarrow> Some ((None, Some (Errorf (''label not found in bulk cache: '' @ id'))), c', h', w')
                | Some label \<Rightarrow> Some ((Some label, None), c', h', w'))))"

subsection \<open>Workflow states\<close>

fun workflowStates_merge ::
  "'a WorkflowStateNode list \<Rightarrow> (string \<rightharpoonup> ptr) \<Rightarrow> 'a WorkflowState list
     \<Rightarrow> (string \<rightharpoonup> ptr) \<times> 'a WorkflowState list" where
  "workflowStates_merge [] m cells = (m, cells)"
| "workflowStates_merge (node # nodes) m cells =
     (let ws = WorkflowState node
      in workflowStates_merge nodes (m(WorkflowState_Id ws \<mapsto> length cells)) (cells @ [ws]))"

partial_function (option) workflowStates_loop ::
  "('c, 'w, 'a) Client \<Rightarrow> 'c \<Rightarrow> string option \<Rightarrow> (string \<rightharpoonup> ptr) \<Rightarrow> 'a heap \<Rightarrow> 'w
     \<Rightarrow> ((string \<rightharpoonup> ptr) \<times> error option \<times> 'a heap \<times> 'w) option" where
  "workflowStates_loop cl ctx cursor m h w =
     (case listAllWorkflowStatesPage cl ctx cursor w of
        ((resp, Some err), w') \<Rightarrow> Some (m, Some err, h, w')
      | ((resp, None), w') \<Rightarrow>
          (case workflowStates_merge (Nodes (WorkflowStates resp)) m (WorkflowState_cells h) of
             (m', cells') \<Rightarrow>
               if \<not> HasNextPage (PageInfo (WorkflowStates resp))
               then Some (m', None, h\<lparr>WorkflowState_cells := cells'\<rparr>, w')
               else workflowStates_loop cl ctx (Some (EndCursor (PageInfo (WorkflowStates resp))))
                      m' (h\<lparr>WorkflowState_cells := cells'\<rparr>) w'))"

definition ensureWorkflowStates ::
  "'c \<Rightarrow> ('c, 'w, 'a) BulkCache \<Rightarrow> 'a heap \<Rightarrow> 'w
     \<Rightarrow> (('c, 'w, 'a) BulkCache \<times> 'a heap \<times> 'w) option" where
  "ensureWorkflowStates ctx c h w =
     (if workflowStatesOnce c then Some (c, h, w)
      else
        (case workflowStates_loop (client c) ctx None Map.empty h w of
           None \<Rightarrow> None
         | Some (m, None, h', w') \<Rightarrow>
             Some (c\<lparr>workflowStates := Some m, workflowStatesOnce := True\<rparr>, h', w')
         | Some (m, Some err, h', w') \<Rightarrow>
             Some (c\<lparr>workflowStates := Some m, workflowStatesErr := Some err,
                     workflowStatesOnce := True\<rparr>, h', w')))"

definition GetWorkflowState ::
  "'c \<Rightarrow> string \<Rightarrow> ('c, 'w, 'a) BulkCache \<Rightarrow> 'a heap \<Rightarrow> 'w
     \<Rightarrow> ((ptr option \<times> error option) \<times> ('c, 'w, 'a) BulkCache \<times> 'a heap \<times> 'w) option" where
  "GetWorkflowState ctx id' c h w =
     (case ensureWorkflowStates ctx c h w of
        None \<Rightarrow> None
      | Some (c', h', w') \<Rightarrow>
          (case workflowStatesErr c' of
             Some err \<Rightarrow> Some ((None, Some err), c', h', w')
           | None \<Rightarrow>
               (case map_index (workflowStates c') id' of
                  None \<Rightarrow>
                    Some ((None, Some (Errorf (''workflow state not found in bulk cache: '' @ id'))),
                          c', h', w')
                | Some ws \<Rightarrow> Some ((Some ws, None), c', h', w'))))"

text \<open>
  The loop of \<^verbatim>\<open>GetWorkflowStatesByTeamID\<close> ranges over the map. Go leaves the order of
  a \<^verbatim>\<open>range\<close> over a map open, so the order in which the runtime yields the keys is the
  argument \<open>order\<close>; a key that the map does not hold is never yielded. Each pointer is
  read (\<^verbatim>\<open>ws.Team.Id\<close>, \<^verbatim>\<open>*ws\<close>); reading a pointer that is no cell of the heap has no
  result.
\<close>

fun workflowStates_scan ::
  "string \<Rightarrow> 'a WorkflowState list \<Rightarrow> (string \<rightharpoonup> ptr) \<Rightarrow> string list
     \<Rightarrow> 'a WorkflowState list \<Rightarrow> 'a WorkflowState list option" where
  "workflowStates_scan teamID cells m [] result = Some result"
| "workflowStates_scan teamID cells m (k # order) result =
     (case m k of
        None \<Rightarrow> workflowStates_scan teamID cells m order result
      | Some ws \<Rightarrow>
          if \<not> ws < length cells then None
          else if WorkflowStateTeam_Id (WorkflowState_Team (cells ! ws)) = teamID
          then workflowStates_scan teamID cells m order (result @ [cells ! ws])
          else workflowStates_scan teamID cells m order result)"

text \<open>
  The result \<^verbatim>\<open>[]WorkflowState\<close> is \<open>None\<close> for the \<^verbatim>\<open>nil\<close> slice, which is what
  \<^verbatim>\<open>var result []WorkflowState\<close> stays when nothing is appended, and otherwise the
  pointer to a fresh backing array that holds the appended values.
\<close>

definition GetWorkflowStatesByTeamID ::
  "'c \<Rightarrow> string list \<Rightarrow> string \<Rightarrow> ('c, 'w, 'a) BulkCache \<Rightarrow> 'a heap \<Rightarrow> 'w
     \<Rightarrow> ((ptr option \<times> error option) \<times> ('c, 'w, 'a) BulkCache \<times> 'a heap \<times> 'w) option" where
  "GetWorkflowStatesByTeamID ctx order teamID c h w =
     (case ensureWorkflowStates ctx c h w of
        None \<Rightarrow> None
      | Some (c', h', w') \<Rightarrow>
          (case workflowStatesErr c' of
             Some err \<Rightarrow> Some ((None, Some err), c', h', w')
           | None \<Rightarrow>
               (case (case workflowStates c' of
                        None \<Rightarrow> Some []
                      | Some m \<Rightarrow> workflowStates_scan teamID (WorkflowState_cells h') m order []) of
                  None \<Rightarrow> None
                | Some result \<Rightarrow>
                    if result = [] then Some ((None, None), c', h', w')
                    else Some ((Some (length (WorkflowState_slices h')), None), c',
                               h'\<lparr>WorkflowState_slices := WorkflowState_slices h' @ [result]\<rparr>, w'))))"

text \<open>The elements of a returned slice, and a caller's store \<^verbatim>\<open>result[i] = v\<close> into it.\<close>

definition slice_elems :: "'a heap \<Rightarrow> ptr option \<Rightarrow> 'a WorkflowState list" where
  "slice_elems h s = (case s of None \<Rightarrow> [] | Some a \<Rightarrow> WorkflowState_slices h ! a)"

definition slice_store :: "'a heap \<Rightarrow> ptr \<Rightarrow> nat \<Rightarrow> 'a WorkflowState \<Rightarrow> 'a heap" where
  "slice_store h a i v =
     h\<lparr>WorkflowState_slices := (WorkflowState_slices h)[a := (WorkflowState_slices h ! a)[i := v]]\<rparr>"

subsection \<open>Templates\<close>

fun templates_merge ::
  "'a TemplateNode list \<Rightarrow> (string \<rightharpoonup> ptr) \<Rightarrow> 'a Template list
     \<Rightarrow> (string \<rightharpoonup> ptr) \<times> 'a Template list" where
  "templates_merge [] m cells = (m, cells)"
| "templates_merge (node # nodes) m cells =
     (let t = Template node
      in templates_merge nodes (m(Template_Id t \<mapsto> length cells)) (cells @ [t]))"

text \<open>Templates come in one call, so \<^verbatim>\<open>ensureTemplates\<close> always returns.\<close>

definition ensureTemplates ::
  "'c \<Rightarrow> ('c, 'w, 'a) BulkCache \<Rightarrow> 'a heap \<Rightarrow> 'w \<Rightarrow> ('c, 'w, 'a) BulkCache \<times> 'a heap \<times> 'w" where
  "ensureTemplates ctx c h w =
     (if templatesOnce c then (c, h, w)
      else
        (case listAllTemplates (client c) ctx w of
           ((resp, Some err), w') \<Rightarrow> (c\<lparr>templatesErr := Some err, templatesOnce := True\<rparr>, h, w')
         | ((resp, None), w') \<Rightarrow>
             (case templates_merge (Templates resp) Map.empty (Template_cells h) of
                (m, cells') \<Rightarrow>
                  (c\<lparr>templates := Some m, templatesOnce := True\<rparr>,
                   h\<lparr>Template_cells := cells'\<rparr>, w'))))"

definition GetTemplate ::
  "'c \<Rightarrow> string \<Rightarrow> ('c, 'w, 'a) BulkCache \<Rightarrow> 'a heap \<Rightarrow> 'w
     \<Rightarrow> (ptr option \<times> error option) \<times> ('c, 'w, 'a) BulkCache \<times> 'a heap \<times> 'w" where
  "GetTemplate ctx id' c h w =
     (case ensureTemplates ctx c h w of
        (c', h', w') \<Rightarrow>
          (case templatesErr c' of
             Some err \<Rightarrow> ((None, Some err), c', h', w')
           | None \<Rightarrow>
               (case map_index (templates c') id' of
                  None \<Rightarrow>
                    ((None, Some (Errorf (''template not found in bulk cache: '' @ id'))), c', h', w')
                | Some t \<Rightarrow> ((Some t, None), c', h', w'))))"

subsection \<open>Teams\<close>

text \<open>The map of the teams is keyed by \<^verbatim>\<open>team.Key\<close>.\<close>

fun teams_merge ::
  "'a TeamNode list \<Rightarrow> (string \<rightharpoonup> ptr) \<Rightarrow> 'a Team list
     \<Rightarrow> (string \<rightharpoonup> ptr) \<times> 'a Team list" where
  "teams_merge [] m cells = (m, cells)"
| "teams_merge (node # nodes) m cells =
     (let team = Team node
      in teams_merge nodes (m(Team_Key team \<mapsto> length cells)) (cells @ [team]))"

partial_function (option) teams_loop ::
  "('c, 'w, 'a) Client \<Rightarrow> 'c \<Rightarrow> string option \<Rightarrow> (string \<rightharpoonup> ptr) \<Rightarrow> 'a heap \<Rightarrow> 'w
     \<Rightarrow> ((string \<rightharpoonup> ptr) \<times> error option \<times> 'a heap \<times> 'w) option" where
  "teams_loop cl ctx cursor m h w =
     (case listAllTeamsPage cl ctx cursor w of
        ((resp, Some err), w') \<Rightarrow> Some (m, Some err, h, w')
      | ((resp, None), w') \<Rightarrow>
          (case teams_merge (Nodes (Teams resp)) m (Team_cells h) of
             (m', cells') \<Rightarrow>
               if \<not> HasNextPage (PageInfo (Teams resp))
               then Some (m', None, h\<lparr>Team_cells := cells'\<rparr>, w')
               else teams_loop cl ctx (Some (EndCursor (PageInfo (Teams resp))))
                      m' (h\<lparr>Team_cells := cells'\<rparr>) w'))"

definition ensureTeams ::
  "'c \<Rightarrow> ('c, 'w, 'a) BulkCache \<Rightarrow> 'a heap \<Rightarrow> 'w
     \<Rightarrow> (('c, 'w, 'a) BulkCache \<times> 'a heap \<times> 'w) option" where
  "ensureTeams ctx c h w =
     (if teamsOnce c then Some (c, h, w)
      else
        (case teams_loop (client c) ctx None Map.empty h w of
           None \<Rightarrow> None
         | Some (m, None, h', w') \<Rightarrow>
             Some (c\<lparr>teamsByKey := Some m, teamsOnce := True\<rparr>, h', w')
         | Some (m, Some err, h', w') \<Rightarrow>
             Some (c\<lparr>teamsByKey := Some m, teamsErr := Some err, teamsOnce := True\<rparr>, h', w')))"

definition GetTeamByKey ::
  "'c \<Rightarrow> string \<Rightarrow> ('c, 'w, 'a) BulkCache \<Rightarrow> 'a heap \<Rightarrow> 'w
     \<Rightarrow> ((ptr option \<times> error option) \<times> ('c, 'w, 'a) BulkCache \<times> 'a heap \<times> 'w) option" where
  "GetTeamByKey ctx key c h w =
     (case ensureTeams ctx c h w of
        None \<Rightarrow> None
      | Some (c', h', w') \<Rightarrow>
          (case teamsErr c' of
             Some err \<Rightarrow> Some ((None, Some err), c', h', w')
           | None \<Rightarrow>
               (case map_index (teamsByKey c') key of
                  None \<Rightarrow>
                    Some ((None, Some (Errorf (''team not found in bulk cache: '' @ key))), c', h', w')
                | Some team \<Rightarrow> Some ((Some team, None), c', h', w'))))"

text \<open>The equations of the page loops are their code equations.\<close>

declare labels_loop.simps [code]
declare workflowStates_loop.simps [code]
declare teams_loop.simps [code]

section \<open>Datasets and traversals\<close>

text \<open>
  The properties of the cache are stated against what the remote hands out. A traversal
  of a paginated category from a cursor in a world follows the remote along a list of
  pages: every page but the last announces a next page and is followed by the request for
  its end cursor, and the traversal ends either after a last page that announces no next
  page (outcome \<open>None\<close>) or with a request that fails (outcome \<open>Some err\<close>, after pages that
  all announce a next page). The result is the outcome and the world after the last
  request; there is none when the remote does not answer in this way.
\<close>

fun labels_traversal ::
  "('c, 'w, 'a) Client \<Rightarrow> 'c \<Rightarrow> string option \<Rightarrow> 'w \<Rightarrow> 'a listAllLabelsPageResponse list
     \<Rightarrow> (error option \<times> 'w) option" where
  "labels_traversal cl ctx cursor w [] =
     (case listAllLabelsPage cl ctx cursor w of
        ((resp, Some err), w') \<Rightarrow> Some (Some err, w')
      | ((resp, None), w') \<Rightarrow> None)"
| "labels_traversal cl ctx cursor w (page # pages) =
     (case listAllLabelsPage cl ctx cursor w of
        ((resp, Some err), w') \<Rightarrow> None
      | ((resp, None), w') \<Rightarrow>
          if resp \<noteq> page then None
          else if HasNextPage (PageInfo (IssueLabels page))
          then labels_traversal cl ctx (Some (EndCursor (PageInfo (IssueLabels page)))) w' pages
          else if pages = [] then Some (None, w') else None)"

fun workflowStates_traversal ::
  "('c, 'w, 'a) Client \<Rightarrow> 'c \<Rightarrow> string option \<Rightarrow> 'w
     \<Rightarrow> 'a listAllWorkflowStatesPageResponse list \<Rightarrow> (error option \<times> 'w) option" where
  "workflowStates_traversal cl ctx cursor w [] =
     (case listAllWorkflowStatesPage cl ctx cursor w of
        ((resp, Some err), w') \<Rightarrow> Some (Some err, w')
      | ((resp, None), w') \<Rightarrow> None)"
| "workflowStates_traversal cl ctx cursor w (page # pages) =
     (case listAllWorkflowStatesPage cl ctx cursor w of
        ((resp, Some err), w') \<Rightarrow> None
      | ((resp, None), w') \<Rightarrow>
          if resp \<noteq> page then None
          else if HasNextPage (PageInfo (WorkflowStates page))
          then workflowStates_traversal cl ctx
                 (Some (EndCursor (PageInfo (WorkflowStates page)))) w' pages
          else if pages = [] then Some (None, w') else None)"

fun teams_traversal ::
  "('c, 'w, 'a) Client \<Rightarrow> 'c \<Rightarrow> string option \<Rightarrow> 'w \<Rightarrow> 'a listAllTeamsPageResponse list
     \<Rightarrow> (error option \<times> 'w) option" where
  "teams_traversal cl ctx cursor w [] =
     (case listAllTeamsPage cl ctx cursor w of
        ((resp, Some err), w') \<Rightarrow> Some (Some err, w')
      | ((resp, None), w') \<Rightarrow> None)"
| "teams_traversal cl ctx cursor w (page # pages) =
     (case listAllTeamsPage cl ctx cursor w of
        ((resp, Some err), w') \<Rightarrow> None
      | ((resp, None), w') \<Rightarrow>
          if resp \<noteq> page then None
          else if HasNextPage (PageInfo (Teams page))
          then teams_traversal cl ctx (Some (EndCursor (PageInfo (Teams page)))) w' pages
          else if pages = [] then Some (None, w') else None)"

text \<open>
  The entries of a dataset are its records in the order of the traversal, each with the
  key under which the cache stores it: the identifier, and for a team its key.
\<close>

definition labels_entries ::
  "'a listAllLabelsPageResponse list \<Rightarrow> (string \<times> 'a IssueLabel) list" where
  "labels_entries pages =
     map (\<lambda>node. (IssueLabel_Id (IssueLabel node), IssueLabel node))
       (concat (map (\<lambda>page. Nodes (IssueLabels page)) pages))"

definition workflowStates_entries ::
  "'a listAllWorkflowStatesPageResponse list \<Rightarrow> (string \<times> 'a WorkflowState) list" where
  "workflowStates_entries pages =
     map (\<lambda>node. (WorkflowState_Id (WorkflowState node), WorkflowState node))
       (concat (map (\<lambda>page. Nodes (WorkflowStates page)) pages))"

definition templates_entries :: "'a listAllTemplatesResponse \<Rightarrow> (string \<times> 'a Template) list" where
  "templates_entries resp =
     map (\<lambda>node. (Template_Id (Template node), Template node)) (Templates resp)"

definition teams_entries :: "'a listAllTeamsPageResponse list \<Rightarrow> (string \<times> 'a Team) list" where
  "teams_entries pages =
     map (\<lambda>node. (Team_Key (Team node), Team node))
       (concat (map (\<lambda>page. Nodes (Teams page)) pages))"

text \<open>
  The record of a dataset that matches a key: where several entries carry the key, the
  last one of the traversal.
\<close>

definition matching :: "(string \<times> 'r) list \<Rightarrow> string \<Rightarrow> 'r option" where
  "matching kvs k = map_of (rev kvs) k"

text \<open>
  The records that a map populated from a dataset holds: the matching record of every key
  of the dataset.
\<close>

definition cached :: "(string \<times> 'r) list \<Rightarrow> 'r list" where
  "cached kvs = map (\<lambda>k. the (matching kvs k)) (remdups (map fst kvs))"

text \<open>
  What the four merge loops have in common: every entry goes into a fresh cell, and the
  map entry of its key is set to that cell.
\<close>

fun store_all ::
  "(string \<times> 'r) list \<Rightarrow> (string \<rightharpoonup> ptr) \<Rightarrow> 'r list \<Rightarrow> (string \<rightharpoonup> ptr) \<times> 'r list" where
  "store_all [] m cells = (m, cells)"
| "store_all ((k, r) # kvs) m cells = store_all kvs (m(k \<mapsto> length cells)) (cells @ [r])"

text \<open>A map of pointers read through the heap, and the pointers of a map being cells.\<close>

definition deref :: "'r list \<Rightarrow> (string \<rightharpoonup> ptr) \<Rightarrow> (string \<rightharpoonup> 'r)" where
  "deref cells m = (\<lambda>k. case m k of None \<Rightarrow> None | Some p \<Rightarrow> Some (cells ! p))"

definition in_heap :: "'r list \<Rightarrow> (string \<rightharpoonup> ptr) \<Rightarrow> bool" where
  "in_heap cells m \<longleftrightarrow> (\<forall>k p. m k = Some p \<longrightarrow> p < length cells)"

text \<open>Go's \<^verbatim>\<open>len\<close> of a map.\<close>

definition map_len :: "(string \<rightharpoonup> ptr) option \<Rightarrow> nat" where
  "map_len m = (case m of None \<Rightarrow> 0 | Some f \<Rightarrow> card (dom f))"

section \<open>Example remotes\<close>

text \<open>
  Remotes for the instances below. Their world is the log of the cursors they were asked
  for; a request for a cursor that is not in the table fails. There is no context, and
  the payload of a record is its name.
\<close>

definition serve ::
  "(string option \<times> 'r) list \<Rightarrow> 'r \<Rightarrow> string option \<Rightarrow> string option list
     \<Rightarrow> ('r \<times> error option) \<times> string option list" where
  "serve table dflt cursor w =
     (case map_of table cursor of
        Some r \<Rightarrow> ((r, None), w @ [cursor])
      | None \<Rightarrow> ((dflt, Some (ClientError ''request failed'')), w @ [cursor]))"

definition labels_page ::
  "(string \<times> string) list \<Rightarrow> bool \<Rightarrow> string \<Rightarrow> string listAllLabelsPageResponse" where
  "labels_page items nxt cur =
     \<lparr>IssueLabels =
        \<lparr>Nodes = map (\<lambda>(i, n). \<lparr>IssueLabel = \<lparr>IssueLabel_Id = i, IssueLabel_fields = n\<rparr>\<rparr>) items,
         PageInfo = \<lparr>HasNextPage = nxt, EndCursor = cur\<rparr>\<rparr>\<rparr>"

definition workflowStates_page ::
  "(string \<times> string \<times> string) list \<Rightarrow> bool \<Rightarrow> string
     \<Rightarrow> string listAllWorkflowStatesPageResponse" where
  "workflowStates_page items nxt cur =
     \<lparr>WorkflowStates =
        \<lparr>Nodes = map (\<lambda>(i, t, n).
                   \<lparr>WorkflowState =
                      \<lparr>WorkflowState_Id = i, WorkflowState_Team = \<lparr>WorkflowStateTeam_Id = t\<rparr>,
                       WorkflowState_fields = n\<rparr>\<rparr>) items,
         PageInfo = \<lparr>HasNextPage = nxt, EndCursor = cur\<rparr>\<rparr>\<rparr>"

definition templates_resp :: "(string \<times> string) list \<Rightarrow> string listAllTemplatesResponse" where
  "templates_resp items =
     \<lparr>Templates = map (\<lambda>(i, n). \<lparr>Template = \<lparr>Template_Id = i, Template_fields = n\<rparr>\<rparr>) items\<rparr>"

definition teams_page ::
  "(string \<times> string \<times> string) list \<Rightarrow> bool \<Rightarrow> string \<Rightarrow> string listAllTeamsPageResponse" where
  "teams_page items nxt cur =
     \<lparr>Teams =
        \<lparr>Nodes = map (\<lambda>(i, k, n). \<lparr>Team = \<lparr>Team_Id = i, Team_Key = k, Team_fields = n\<rparr>\<rparr>) items,
         PageInfo = \<lparr>HasNextPage = nxt, EndCursor = cur\<rparr>\<rparr>\<rparr>"

definition remote ::
  "(string option \<times> string listAllLabelsPageResponse) list
     \<Rightarrow> (string option \<times> string listAllWorkflowStatesPageResponse) list
     \<Rightarrow> string listAllTemplatesResponse \<times> error option
     \<Rightarrow> (string option \<times> string listAllTeamsPageResponse) list
     \<Rightarrow> (unit, string option list, string) Client" where
  "remote ls wss ts tms =
     \<lparr>listAllLabelsPage = (\<lambda>ctx. serve ls (labels_page [] False [])),
      listAllWorkflowStatesPage = (\<lambda>ctx. serve wss (workflowStates_page [] False [])),
      listAllTemplates = (\<lambda>ctx w. (ts, w @ [None])),
      listAllTeamsPage = (\<lambda>ctx. serve tms (teams_page [] False []))\<rparr>"

definition heap0 :: "string heap" where
  "heap0 =
     \<lparr>IssueLabel_cells = [], WorkflowState_cells = [], Template_cells = [], Team_cells = [],
      WorkflowState_slices = []\<rparr>"

text \<open>A remote with three pages of labels, two of workflow states and two of teams.\<close>

definition demo_labels :: "string listAllLabelsPageResponse list" where
  "demo_labels =
     [labels_page [(''l1'', ''bug''), (''l2'', ''feature'')] True ''A'',
      labels_page [(''l3'', ''chore'')] True ''B'',
      labels_page [(''l4'', ''docs'')] False []]"

definition demo_workflowStates :: "string listAllWorkflowStatesPageResponse list" where
  "demo_workflowStates =
     [workflowStates_page [(''s1'', ''T1'', ''todo''), (''s2'', ''T1'', ''done'')] True ''A'',
      workflowStates_page [(''s3'', ''T2'', ''backlog'')] False []]"

definition demo_templates :: "string listAllTemplatesResponse" where
  "demo_templates = templates_resp [(''t1'', ''bug report''), (''t2'', ''feature request'')]"

definition demo_teams :: "string listAllTeamsPageResponse list" where
  "demo_teams =
     [teams_page [(''id1'', ''ENG'', ''engineering'')] True ''A'',
      teams_page [(''id2'', ''OPS'', ''operations'')] False []]"

definition demo_client :: "(unit, string option list, string) Client" where
  "demo_client =
     remote (zip [None, Some ''A'', Some ''B''] demo_labels)
       (zip [None, Some ''A''] demo_workflowStates)
       (demo_templates, None)
       (zip [None, Some ''A''] demo_teams)"

text \<open>The same remote when every request after the first page fails, and the only request
  for the templates.\<close>

definition failing_client :: "(unit, string option list, string) Client" where
  "failing_client =
     remote (zip [None] demo_labels) (zip [None] demo_workflowStates)
       (templates_resp [], Some (ClientError ''request failed''))
       (zip [None] demo_teams)"

text \<open>A remote without any record.\<close>

definition empty_client :: "(unit, string option list, string) Client" where
  "empty_client =
     remote [(None, labels_page [] False [])] [(None, workflowStates_page [] False [])]
       (templates_resp [], None) [(None, teams_page [] False [])]"

text \<open>A remote that hands out the same key on two pages.\<close>

definition twice_labels :: "string listAllLabelsPageResponse list" where
  "twice_labels =
     [labels_page [(''a'', ''first'')] True ''A'', labels_page [(''a'', ''second'')] False []]"

definition twice_workflowStates :: "string listAllWorkflowStatesPageResponse list" where
  "twice_workflowStates =
     [workflowStates_page [(''a'', ''T1'', ''first'')] True ''A'',
      workflowStates_page [(''a'', ''T2'', ''second'')] False []]"

definition twice_teams :: "string listAllTeamsPageResponse list" where
  "twice_teams =
     [teams_page [(''id1'', ''ENG'', ''first'')] True ''A'',
      teams_page [(''id2'', ''ENG'', ''second'')] False []]"

definition twice_client :: "(unit, string option list, string) Client" where
  "twice_client =
     remote (zip [None, Some ''A''] twice_labels) (zip [None, Some ''A''] twice_workflowStates)
       (templates_resp [], None) (zip [None, Some ''A''] twice_teams)"

text \<open>A remote whose first page of labels holds one identifier twice.\<close>

definition dup_labels :: "string listAllLabelsPageResponse list" where
  "dup_labels =
     [labels_page [(''a'', ''first''), (''a'', ''second'')] True ''A'',
      labels_page [(''b'', ''third'')] False []]"

definition dup_client :: "(unit, string option list, string) Client" where
  "dup_client = remote (zip [None, Some ''A''] dup_labels) [] (templates_resp [], None) []"

text \<open>A cache with every category in a terminal state: labels and templates populated
  without records, workflow states and teams failed.\<close>

definition settled_cache :: "(unit, string option list, string) BulkCache" where
  "settled_cache =
     \<lparr>client = empty_client,
      labelsOnce = True, labels = Some Map.empty, labelsErr = None,
      workflowStatesOnce = True, workflowStates = Some Map.empty,
      workflowStatesErr = Some (ClientError ''request failed''),
      templatesOnce = True, templates = Some Map.empty, templatesErr = None,
      teamsOnce = True, teamsByKey = Some Map.empty,
      teamsErr = Some (ClientError ''request failed'')\<rparr>"

text \<open>The cache and the heap after the teams of the last remote were fetched.\<close>

definition twice_teams_cache :: "(unit, string option list, string) BulkCache" where
  "twice_teams_cache =
     (newBulkCache twice_client)\<lparr>teamsByKey := Some [''ENG'' \<mapsto> 1], teamsOnce := True\<rparr>"

definition twice_teams_heap :: "string heap" where
  "twice_teams_heap =
     heap0\<lparr>Team_cells :=
        [\<lparr>Team_Id = ''id1'', Team_Key = ''ENG'', Team_fields = ''first''\<rparr>,
         \<lparr>Team_Id = ''id2'', Team_Key = ''ENG'', Team_fields = ''second''\<rparr>]\<rparr>"

text \<open>The cache and the heap after the labels of the last remote were fetched.\<close>

definition dup_labels_cache :: "(unit, string option list, string) BulkCache" where
  "dup_labels_cache =
     (newBulkCache dup_client)\<lparr>labels := Some [''a'' \<mapsto> 1, ''b'' \<mapsto> 2], labelsOnce := True\<rparr>"

definition dup_labels_heap :: "string heap" where
  "dup_labels_heap =
     heap0\<lparr>IssueLabel_cells :=
        [\<lparr>IssueLabel_Id = ''a'', IssueLabel_fields = ''first''\<rparr>,
         \<lparr>IssueLabel_Id = ''a'', IssueLabel_fields = ''second''\<rparr>,
         \<lparr>IssueLabel_Id = ''b'', IssueLabel_fields = ''third''\<rparr>]\<rparr>"

text \<open>The test of the scan, \<^verbatim>\<open>ws.Team.Id == teamID\<close>, on a record.\<close>

definition owned_by :: "string \<Rightarrow> 'a WorkflowState \<Rightarrow> bool" where
  "owned_by teamID ws \<longleftrightarrow> WorkflowStateTeam_Id (WorkflowState_Team ws) = teamID"

text \<open>The cache and the heap after the workflow states of \<open>demo_client\<close> were fetched, and
  the heap after a scan for the team \<^verbatim>\<open>T1\<close> returned its slice.\<close>

definition demo_workflowStates_cache :: "(unit, string option list, string) BulkCache" where
  "demo_workflowStates_cache =
     (newBulkCache demo_client)
       \<lparr>workflowStates := Some [''s1'' \<mapsto> 0, ''s2'' \<mapsto> 1, ''s3'' \<mapsto> 2],
        workflowStatesOnce := True\<rparr>"

definition demo_workflowStates_heap :: "string heap" where
  "demo_workflowStates_heap =
     heap0\<lparr>WorkflowState_cells :=
        [\<lparr>WorkflowState_Id = ''s1'', WorkflowState_Team = \<lparr>WorkflowStateTeam_Id = ''T1''\<rparr>,
          WorkflowState_fields = ''todo''\<rparr>,
         \<lparr>WorkflowState_Id = ''s2'', WorkflowState_Team = \<lparr>WorkflowStateTeam_Id = ''T1''\<rparr>,
          WorkflowState_fields = ''done''\<rparr>,
         \<lparr>WorkflowState_Id = ''s3'', WorkflowState_Team = \<lparr>WorkflowStateTeam_Id = ''T2''\<rparr>,
          WorkflowState_fields = ''backlog''\<rparr>]\<rparr>"

definition demo_scanned_heap :: "string heap" where
  "demo_scanned_heap =
     demo_workflowStates_heap\<lparr>WorkflowState_slices :=
        [[\<lparr>WorkflowState_Id = ''s1'', WorkflowState_Team = \<lparr>WorkflowStateTeam_Id = ''T1''\<rparr>,
           WorkflowState_fields = ''todo''\<rparr>,
          \<lparr>WorkflowState_Id = ''s2'', WorkflowState_Team = \<lparr>WorkflowStateTeam_Id = ''T1''\<rparr>,
           WorkflowState_fields = ''done''\<rparr>]]\<rparr>"

text \<open>
  The invariant of a cache and its heap: a category that is not populated has the \<^verbatim>\<open>nil\<close>
  map and the \<^verbatim>\<open>nil\<close> error, and every pointer of a map is a cell of the heap.
\<close>

definition cache_ok :: "('c, 'w, 'a) BulkCache \<Rightarrow> 'a heap \<Rightarrow> bool" where
  "cache_ok c h \<longleftrightarrow>
     (\<not> labelsOnce c \<longrightarrow> labels c = None \<and> labelsErr c = None) \<and>
     (\<forall>m. labels c = Some m \<longrightarrow> in_heap (IssueLabel_cells h) m) \<and>
     (\<not> workflowStatesOnce c \<longrightarrow> workflowStates c = None \<and> workflowStatesErr c = None) \<and>
     (\<forall>m. workflowStates c = Some m \<longrightarrow> in_heap (WorkflowState_cells h) m) \<and>
     (\<not> templatesOnce c \<longrightarrow> templates c = None \<and> templatesErr c = None) \<and>
     (\<forall>m. templates c = Some m \<longrightarrow> in_heap (Template_cells h) m) \<and>
     (\<not> teamsOnce c \<longrightarrow> teamsByKey c = None \<and> teamsErr c = None) \<and>
     (\<forall>m. teamsByKey c = Some m \<longrightarrow> in_heap (Team_cells h) m)"

section \<open>Maps of pointers\<close>

lemma store_all_append:
  "store_all (xs @ ys) m cells =
     (case store_all xs m cells of (m', cells') \<Rightarrow> store_all ys m' cells')"
  by (induction xs arbitrary: m cells) auto

lemma store_all_cells: "snd (store_all kvs m cells) = cells @ map snd kvs"
  by (induction kvs arbitrary: m cells) auto

lemma store_all_dom: "dom (fst (store_all kvs m cells)) = dom m \<union> fst ` set kvs"
  by (induction kvs m cells rule: store_all.induct) (simp_all del: fun_upd_apply)

lemma in_heap_empty: "in_heap cells Map.empty"
  by (simp add: in_heap_def)

lemma in_heap_alloc: "in_heap cells m \<Longrightarrow> in_heap (cells @ [r]) (m(k \<mapsto> length cells))"
  by (auto simp: in_heap_def less_Suc_eq)

lemma deref_empty: "deref cells Map.empty = Map.empty"
  by (simp add: deref_def)

lemma deref_alloc:
  "in_heap cells m \<Longrightarrow> deref (cells @ [r]) (m(k \<mapsto> length cells)) = (deref cells m)(k \<mapsto> r)"
  by (auto simp: in_heap_def deref_def nth_append fun_eq_iff split: option.splits)

lemma deref_Some: "deref cells m k = Some r \<longleftrightarrow> (\<exists>p. m k = Some p \<and> cells ! p = r)"
  by (auto simp: deref_def split: option.splits)

lemma deref_None: "deref cells m k = None \<longleftrightarrow> m k = None"
  by (auto simp: deref_def split: option.splits)

lemma store_all_in_heap:
  "in_heap cells m \<Longrightarrow> in_heap (snd (store_all kvs m cells)) (fst (store_all kvs m cells))"
  by (induction kvs arbitrary: m cells) (auto simp: in_heap_alloc)

lemma store_all_deref:
  "in_heap cells m \<Longrightarrow>
   deref (snd (store_all kvs m cells)) (fst (store_all kvs m cells)) =
     deref cells m ++ map_of (rev kvs)"
proof (induction kvs arbitrary: m cells)
  case Nil
  then show ?case by simp
next
  case (Cons kv kvs)
  obtain k r where kv: "kv = (k, r)" by (cases kv)
  have ih: "in_heap (cells @ [r]) (m(k \<mapsto> length cells))"
    using Cons.prems by (rule in_heap_alloc)
  have "deref (snd (store_all (kv # kvs) m cells)) (fst (store_all (kv # kvs) m cells)) =
        deref (cells @ [r]) (m(k \<mapsto> length cells)) ++ map_of (rev kvs)"
    unfolding kv store_all.simps by (rule Cons.IH[OF ih])
  also have "\<dots> = (deref cells m)(k \<mapsto> r) ++ map_of (rev kvs)"
    by (simp only: deref_alloc[OF Cons.prems])
  also have "\<dots> = deref cells m ++ map_of (rev (kv # kvs))"
    by (simp add: kv map_add_upd_left)
  finally show ?case .
qed

text \<open>A map populated from the empty map holds, read through the heap, the matching
  records of the dataset.\<close>

lemma store_all_empty_deref:
  "deref (cells @ map snd kvs) (fst (store_all kvs Map.empty cells)) = matching kvs"
  using store_all_deref[OF in_heap_empty, where cells = cells and kvs = kvs]
  by (simp add: store_all_cells deref_empty matching_def fun_eq_iff)

lemma store_all_empty_in_heap:
  "in_heap (cells @ map snd kvs) (fst (store_all kvs Map.empty cells))"
  using store_all_in_heap[OF in_heap_empty, where cells = cells and kvs = kvs]
  by (simp add: store_all_cells)

lemma store_all_empty_dom: "dom (fst (store_all kvs Map.empty cells)) = fst ` set kvs"
  by (simp add: store_all_dom)

lemma store_all_pair:
  "store_all kvs m cells = (fst (store_all kvs m cells), cells @ map snd kvs)"
  by (metis prod.collapse store_all_cells)

lemma matching_None: "matching kvs k = None \<longleftrightarrow> k \<notin> fst ` set kvs"
  by (simp add: matching_def map_of_eq_None_iff)

lemma matching_mem: "matching kvs k = Some r \<Longrightarrow> (k, r) \<in> set kvs"
  unfolding matching_def by (drule map_of_SomeD) simp

lemma matching_distinct:
  "distinct (map fst kvs) \<Longrightarrow> (k, r) \<in> set kvs \<Longrightarrow> matching kvs k = Some r"
  unfolding matching_def by (rule map_of_is_SomeI) (simp_all add: rev_map[symmetric])

lemma matching_append:
  "matching (xs @ ys) k = (case matching ys k of None \<Rightarrow> matching xs k | Some r \<Rightarrow> Some r)"
  unfolding matching_def by (simp add: map_add_def)

lemma matching_last:
  "k \<notin> fst ` set ys \<Longrightarrow> matching (xs @ (k, r) # ys) k = Some r"
proof -
  assume "k \<notin> fst ` set ys"
  then have "matching ys k = None" by (simp add: matching_None)
  moreover have "matching [(k, r)] k = Some r" by (simp add: matching_def)
  ultimately have "matching ((k, r) # ys) k = Some r"
    using matching_append[of "[(k, r)]" ys k] by simp
  then show ?thesis by (simp add: matching_append[of xs "(k, r) # ys"])
qed

lemma populated_lookup:
  assumes "matching kvs k = Some r"
  shows "\<exists>p. fst (store_all kvs Map.empty cells) k = Some p \<and>
             p < length (cells @ map snd kvs) \<and> (cells @ map snd kvs) ! p = r"
proof -
  have "deref (cells @ map snd kvs) (fst (store_all kvs Map.empty cells)) k = Some r"
    using assms by (simp add: store_all_empty_deref)
  then obtain p where p: "fst (store_all kvs Map.empty cells) k = Some p"
      "(cells @ map snd kvs) ! p = r"
    by (auto simp: deref_Some)
  with store_all_empty_in_heap[of cells kvs] show ?thesis
    by (auto simp: in_heap_def)
qed

lemma populated_missing:
  assumes "k \<notin> fst ` set kvs"
  shows "fst (store_all kvs Map.empty cells) k = None"
  using assms store_all_empty_dom[of kvs cells] by (auto simp: dom_def)

subsection \<open>The labels category\<close>

lemma labels_merge_store_all:
  "labels_merge nodes m cells =
     store_all (map (\<lambda>node. (IssueLabel_Id (IssueLabel node), IssueLabel node)) nodes) m cells"
  by (induction nodes arbitrary: m cells) (simp_all add: Let_def)

lemma labels_entries_Cons:
  "labels_entries (page # pages) =
     map (\<lambda>node. (IssueLabel_Id (IssueLabel node), IssueLabel node)) (Nodes (IssueLabels page)) @ labels_entries pages"
  by (simp add: labels_entries_def)

lemma labels_loop_traversal:
  "labels_traversal cl ctx cursor w pages = Some (err, w') \<Longrightarrow>
   labels_loop cl ctx cursor m h w =
     (case store_all (labels_entries pages) m (IssueLabel_cells h) of
        (m', cells') \<Rightarrow> Some (m', err, h\<lparr>IssueLabel_cells := cells'\<rparr>, w'))"
proof (induction pages arbitrary: cursor w m h)
  case Nil
  then show ?case
    by (subst labels_loop.simps) (auto simp: labels_entries_def split: prod.splits option.splits)
next
  case (Cons page pages)
  obtain resp e w1 where call: "listAllLabelsPage cl ctx cursor w = ((resp, e), w1)"
    by (metis surj_pair)
  from Cons.prems call have e: "e = None" and resp: "resp = page"
    by (auto split: option.splits if_splits)
  obtain m1 cells1 where m1: "labels_merge (Nodes (IssueLabels page)) m (IssueLabel_cells h) = (m1, cells1)"
    by (metis surj_pair)
  have split: "store_all (labels_entries (page # pages)) m (IssueLabel_cells h) =
      store_all (labels_entries pages) m1 cells1"
    using m1 by (simp add: labels_entries_Cons store_all_append labels_merge_store_all)
  show ?case
  proof (cases "HasNextPage (PageInfo (IssueLabels page))")
    case True
    with Cons.prems call e resp
    have "labels_traversal cl ctx (Some (EndCursor (PageInfo (IssueLabels page)))) w1 pages = Some (err, w')"
      by simp
    from Cons.IH[OF this, of m1 "h\<lparr>IssueLabel_cells := cells1\<rparr>"] True call e resp m1 split
    show ?thesis
      by (subst labels_loop.simps) simp
  next
    case False
    with Cons.prems call e resp have "pages = []" "err = None" "w' = w1"
      by (auto split: if_splits)
    with False call e resp m1 show ?thesis
      by (subst labels_loop.simps) (simp add: labels_entries_def labels_merge_store_all)
  qed
qed

lemma ensureLabels_done: "labelsOnce c \<Longrightarrow> ensureLabels ctx c h w = Some (c, h, w)"
  by (simp add: ensureLabels_def)

lemma ensureLabels_traversal:
  assumes "\<not> labelsOnce c"
    and "labels_traversal (client c) ctx None w pages = Some (err, w')"
  shows "ensureLabels ctx c h w =
     Some (c\<lparr>labels := Some (fst (store_all (labels_entries pages) Map.empty (IssueLabel_cells h))),
              labelsErr := (case err of None \<Rightarrow> labelsErr c | Some e \<Rightarrow> Some e),
              labelsOnce := True\<rparr>,
           h\<lparr>IssueLabel_cells := IssueLabel_cells h @ map snd (labels_entries pages)\<rparr>, w')"
proof -
  have "labels_loop (client c) ctx None Map.empty h w =
      Some (fst (store_all (labels_entries pages) Map.empty (IssueLabel_cells h)), err,
            h\<lparr>IssueLabel_cells := IssueLabel_cells h @ map snd (labels_entries pages)\<rparr>, w')"
    using labels_loop_traversal[OF assms(2), of Map.empty h]
    by (subst (asm) store_all_pair) simp
  then show ?thesis
    using assms(1) by (cases err) (simp_all add: ensureLabels_def)
qed

lemma GetLabel_done:
  "labelsOnce c \<Longrightarrow>
   GetLabel ctx k c h w =
     Some ((case labelsErr c of
              Some err \<Rightarrow> (None, Some err)
            | None \<Rightarrow>
                (case map_index (labels c) k of
                   None \<Rightarrow> (None, Some (Errorf (''label not found in bulk cache: '' @ k)))
                 | Some label \<Rightarrow> (Some label, None))), c, h, w)"
  by (simp add: GetLabel_def ensureLabels_done split: option.splits)

subsection \<open>The workflow states category\<close>

lemma workflowStates_merge_store_all:
  "workflowStates_merge nodes m cells =
     store_all (map (\<lambda>node. (WorkflowState_Id (WorkflowState node), WorkflowState node)) nodes) m cells"
  by (induction nodes arbitrary: m cells) (simp_all add: Let_def)

lemma workflowStates_entries_Cons:
  "workflowStates_entries (page # pages) =
     map (\<lambda>node. (WorkflowState_Id (WorkflowState node), WorkflowState node)) (Nodes (WorkflowStates page)) @ workflowStates_entries pages"
  by (simp add: workflowStates_entries_def)

lemma workflowStates_loop_traversal:
  "workflowStates_traversal cl ctx cursor w pages = Some (err, w') \<Longrightarrow>
   workflowStates_loop cl ctx cursor m h w =
     (case store_all (workflowStates_entries pages) m (WorkflowState_cells h) of
        (m', cells') \<Rightarrow> Some (m', err, h\<lparr>WorkflowState_cells := cells'\<rparr>, w'))"
proof (induction pages arbitrary: cursor w m h)
  case Nil
  then show ?case
    by (subst workflowStates_loop.simps) (auto simp: workflowStates_entries_def split: prod.splits option.splits)
next
  case (Cons page pages)
  obtain resp e w1 where call: "listAllWorkflowStatesPage cl ctx cursor w = ((resp, e), w1)"
    by (metis surj_pair)
  from Cons.prems call have e: "e = None" and resp: "resp = page"
    by (auto split: option.splits if_splits)
  obtain m1 cells1 where m1: "workflowStates_merge (Nodes (WorkflowStates page)) m (WorkflowState_cells h) = (m1, cells1)"
    by (metis surj_pair)
  have split: "store_all (workflowStates_entries (page # pages)) m (WorkflowState_cells h) =
      store_all (workflowStates_entries pages) m1 cells1"
    using m1 by (simp add: workflowStates_entries_Cons store_all_append workflowStates_merge_store_all)
  show ?case
  proof (cases "HasNextPage (PageInfo (WorkflowStates page))")
    case True
    with Cons.prems call e resp
    have "workflowStates_traversal cl ctx (Some (EndCursor (PageInfo (WorkflowStates page)))) w1 pages = Some (err, w')"
      by simp
    from Cons.IH[OF this, of m1 "h\<lparr>WorkflowState_cells := cells1\<rparr>"] True call e resp m1 split
    show ?thesis
      by (subst workflowStates_loop.simps) simp
  next
    case False
    with Cons.prems call e resp have "pages = []" "err = None" "w' = w1"
      by (auto split: if_splits)
    with False call e resp m1 show ?thesis
      by (subst workflowStates_loop.simps) (simp add: workflowStates_entries_def workflowStates_merge_store_all)
  qed
qed

lemma ensureWorkflowStates_done:
  "workflowStatesOnce c \<Longrightarrow> ensureWorkflowStates ctx c h w = Some (c, h, w)"
  by (simp add: ensureWorkflowStates_def)

lemma ensureWorkflowStates_traversal:
  assumes "\<not> workflowStatesOnce c"
    and "workflowStates_traversal (client c) ctx None w pages = Some (err, w')"
  shows "ensureWorkflowStates ctx c h w =
     Some (c\<lparr>workflowStates := Some (fst (store_all (workflowStates_entries pages) Map.empty (WorkflowState_cells h))),
              workflowStatesErr := (case err of None \<Rightarrow> workflowStatesErr c | Some e \<Rightarrow> Some e),
              workflowStatesOnce := True\<rparr>,
           h\<lparr>WorkflowState_cells := WorkflowState_cells h @ map snd (workflowStates_entries pages)\<rparr>, w')"
proof -
  have "workflowStates_loop (client c) ctx None Map.empty h w =
      Some (fst (store_all (workflowStates_entries pages) Map.empty (WorkflowState_cells h)), err,
            h\<lparr>WorkflowState_cells := WorkflowState_cells h @ map snd (workflowStates_entries pages)\<rparr>, w')"
    using workflowStates_loop_traversal[OF assms(2), of Map.empty h]
    by (subst (asm) store_all_pair) simp
  then show ?thesis
    using assms(1) by (cases err) (simp_all add: ensureWorkflowStates_def)
qed

lemma GetWorkflowState_done:
  "workflowStatesOnce c \<Longrightarrow>
   GetWorkflowState ctx k c h w =
     Some ((case workflowStatesErr c of
              Some err \<Rightarrow> (None, Some err)
            | None \<Rightarrow>
                (case map_index (workflowStates c) k of
                   None \<Rightarrow> (None, Some (Errorf (''workflow state not found in bulk cache: '' @ k)))
                 | Some ws \<Rightarrow> (Some ws, None))), c, h, w)"
  by (simp add: GetWorkflowState_def ensureWorkflowStates_done split: option.splits)

subsection \<open>The teams category\<close>

lemma teams_merge_store_all:
  "teams_merge nodes m cells =
     store_all (map (\<lambda>node. (Team_Key (Team node), Team node)) nodes) m cells"
  by (induction nodes arbitrary: m cells) (simp_all add: Let_def)

lemma teams_entries_Cons:
  "teams_entries (page # pages) =
     map (\<lambda>node. (Team_Key (Team node), Team node)) (Nodes (Teams page)) @ teams_entries pages"
  by (simp add: teams_entries_def)

lemma teams_loop_traversal:
  "teams_traversal cl ctx cursor w pages = Some (err, w') \<Longrightarrow>
   teams_loop cl ctx cursor m h w =
     (case store_all (teams_entries pages) m (Team_cells h) of
        (m', cells') \<Rightarrow> Some (m', err, h\<lparr>Team_cells := cells'\<rparr>, w'))"
proof (induction pages arbitrary: cursor w m h)
  case Nil
  then show ?case
    by (subst teams_loop.simps) (auto simp: teams_entries_def split: prod.splits option.splits)
next
  case (Cons page pages)
  obtain resp e w1 where call: "listAllTeamsPage cl ctx cursor w = ((resp, e), w1)"
    by (metis surj_pair)
  from Cons.prems call have e: "e = None" and resp: "resp = page"
    by (auto split: option.splits if_splits)
  obtain m1 cells1 where m1: "teams_merge (Nodes (Teams page)) m (Team_cells h) = (m1, cells1)"
    by (metis surj_pair)
  have split: "store_all (teams_entries (page # pages)) m (Team_cells h) =
      store_all (teams_entries pages) m1 cells1"
    using m1 by (simp add: teams_entries_Cons store_all_append teams_merge_store_all)
  show ?case
  proof (cases "HasNextPage (PageInfo (Teams page))")
    case True
    with Cons.prems call e resp
    have "teams_traversal cl ctx (Some (EndCursor (PageInfo (Teams page)))) w1 pages = Some (err, w')"
      by simp
    from Cons.IH[OF this, of m1 "h\<lparr>Team_cells := cells1\<rparr>"] True call e resp m1 split
    show ?thesis
      by (subst teams_loop.simps) simp
  next
    case False
    with Cons.prems call e resp have "pages = []" "err = None" "w' = w1"
      by (auto split: if_splits)
    with False call e resp m1 show ?thesis
      by (subst teams_loop.simps) (simp add: teams_entries_def teams_merge_store_all)
  qed
qed

lemma ensureTeams_done: "teamsOnce c \<Longrightarrow> ensureTeams ctx c h w = Some (c, h, w)"
  by (simp add: ensureTeams_def)

lemma ensureTeams_traversal:
  assumes "\<not> teamsOnce c"
    and "teams_traversal (client c) ctx None w pages = Some (err, w')"
  shows "ensureTeams ctx c h w =
     Some (c\<lparr>teamsByKey := Some (fst (store_all (teams_entries pages) Map.empty (Team_cells h))),
              teamsErr := (case err of None \<Rightarrow> teamsErr c | Some e \<Rightarrow> Some e),
              teamsOnce := True\<rparr>,
           h\<lparr>Team_cells := Team_cells h @ map snd (teams_entries pages)\<rparr>, w')"
proof -
  have "teams_loop (client c) ctx None Map.empty h w =
      Some (fst (store_all (teams_entries pages) Map.empty (Team_cells h)), err,
            h\<lparr>Team_cells := Team_cells h @ map snd (teams_entries pages)\<rparr>, w')"
    using teams_loop_traversal[OF assms(2), of Map.empty h]
    by (subst (asm) store_all_pair) simp
  then show ?thesis
    using assms(1) by (cases err) (simp_all add: ensureTeams_def)
qed

lemma GetTeamByKey_done:
  "teamsOnce c \<Longrightarrow>
   GetTeamByKey ctx k c h w =
     Some ((case teamsErr c of
              Some err \<Rightarrow> (None, Some err)
            | None \<Rightarrow>
                (case map_index (teamsByKey c) k of
                   None \<Rightarrow> (None, Some (Errorf (''team not found in bulk cache: '' @ k)))
                 | Some team \<Rightarrow> (Some team, None))), c, h, w)"
  by (simp add: GetTeamByKey_def ensureTeams_done split: option.splits)

subsection \<open>The templates category\<close>

lemma templates_merge_store_all:
  "templates_merge nodes m cells =
     store_all (map (\<lambda>node. (Template_Id (Template node), Template node)) nodes) m cells"
  by (induction nodes arbitrary: m cells) (simp_all add: Let_def)

lemma ensureTemplates_done: "templatesOnce c \<Longrightarrow> ensureTemplates ctx c h w = (c, h, w)"
  by (simp add: ensureTemplates_def)

lemma ensureTemplates_fetched:
  assumes "\<not> templatesOnce c"
    and "listAllTemplates (client c) ctx w = ((resp, None), w')"
  shows "ensureTemplates ctx c h w =
     (c\<lparr>templates := Some (fst (store_all (templates_entries resp) Map.empty (Template_cells h))),
        templatesOnce := True\<rparr>,
      h\<lparr>Template_cells := Template_cells h @ map snd (templates_entries resp)\<rparr>, w')"
proof -
  have "templates_merge (Templates resp) Map.empty (Template_cells h) =
      (fst (store_all (templates_entries resp) Map.empty (Template_cells h)),
       Template_cells h @ map snd (templates_entries resp))"
    unfolding templates_merge_store_all templates_entries_def by (rule store_all_pair)
  with assms show ?thesis
    by (simp add: ensureTemplates_def)
qed

lemma ensureTemplates_failed:
  assumes "\<not> templatesOnce c"
    and "listAllTemplates (client c) ctx w = ((resp, Some err), w')"
  shows "ensureTemplates ctx c h w = (c\<lparr>templatesErr := Some err, templatesOnce := True\<rparr>, h, w')"
  using assms by (simp add: ensureTemplates_def)

lemma GetTemplate_done:
  "templatesOnce c \<Longrightarrow>
   GetTemplate ctx k c h w =
     ((case templatesErr c of
         Some err \<Rightarrow> (None, Some err)
       | None \<Rightarrow>
           (case map_index (templates c) k of
              None \<Rightarrow> (None, Some (Errorf (''template not found in bulk cache: '' @ k)))
            | Some t \<Rightarrow> (Some t, None))), c, h, w)"
  by (simp add: GetTemplate_def ensureTemplates_done split: option.splits)

section \<open>The example remotes at work\<close>

lemma demo_labels_traversal:
  "labels_traversal demo_client () None [] demo_labels = Some (None, [None, Some ''A'', Some ''B''])"
  by (simp add: demo_client_def remote_def demo_labels_def serve_def labels_page_def)

lemma demo_workflowStates_traversal:
  "workflowStates_traversal demo_client () None [] demo_workflowStates =
     Some (None, [None, Some ''A''])"
  by (simp add: demo_client_def remote_def demo_workflowStates_def serve_def
        workflowStates_page_def)

lemma demo_templates_call:
  "listAllTemplates demo_client () [] = ((demo_templates, None), [None])"
  by (simp add: demo_client_def remote_def)

lemma demo_teams_traversal:
  "teams_traversal demo_client () None [] demo_teams = Some (None, [None, Some ''A''])"
  by (simp add: demo_client_def remote_def demo_teams_def serve_def teams_page_def)

lemma demo_labels_entries:
  "labels_entries demo_labels =
     [(''l1'', \<lparr>IssueLabel_Id = ''l1'', IssueLabel_fields = ''bug''\<rparr>),
      (''l2'', \<lparr>IssueLabel_Id = ''l2'', IssueLabel_fields = ''feature''\<rparr>),
      (''l3'', \<lparr>IssueLabel_Id = ''l3'', IssueLabel_fields = ''chore''\<rparr>),
      (''l4'', \<lparr>IssueLabel_Id = ''l4'', IssueLabel_fields = ''docs''\<rparr>)]"
  by (simp add: labels_entries_def demo_labels_def labels_page_def)

lemma demo_workflowStates_entries:
  "workflowStates_entries demo_workflowStates =
     [(''s1'', \<lparr>WorkflowState_Id = ''s1'', WorkflowState_Team = \<lparr>WorkflowStateTeam_Id = ''T1''\<rparr>,
               WorkflowState_fields = ''todo''\<rparr>),
      (''s2'', \<lparr>WorkflowState_Id = ''s2'', WorkflowState_Team = \<lparr>WorkflowStateTeam_Id = ''T1''\<rparr>,
               WorkflowState_fields = ''done''\<rparr>),
      (''s3'', \<lparr>WorkflowState_Id = ''s3'', WorkflowState_Team = \<lparr>WorkflowStateTeam_Id = ''T2''\<rparr>,
               WorkflowState_fields = ''backlog''\<rparr>)]"
  by (simp add: workflowStates_entries_def demo_workflowStates_def workflowStates_page_def)

lemma demo_templates_entries:
  "templates_entries demo_templates =
     [(''t1'', \<lparr>Template_Id = ''t1'', Template_fields = ''bug report''\<rparr>),
      (''t2'', \<lparr>Template_Id = ''t2'', Template_fields = ''feature request''\<rparr>)]"
  by (simp add: templates_entries_def demo_templates_def templates_resp_def)

lemma demo_teams_entries:
  "teams_entries demo_teams =
     [(''ENG'', \<lparr>Team_Id = ''id1'', Team_Key = ''ENG'', Team_fields = ''engineering''\<rparr>),
      (''OPS'', \<lparr>Team_Id = ''id2'', Team_Key = ''OPS'', Team_fields = ''operations''\<rparr>)]"
  by (simp add: teams_entries_def demo_teams_def teams_page_def)

lemma newBulkCache_fresh:
  "client (newBulkCache cl) = cl"
  "\<not> labelsOnce (newBulkCache cl)" "labelsErr (newBulkCache cl) = None"
  "\<not> workflowStatesOnce (newBulkCache cl)" "workflowStatesErr (newBulkCache cl) = None"
  "\<not> templatesOnce (newBulkCache cl)" "templatesErr (newBulkCache cl) = None"
  "\<not> teamsOnce (newBulkCache cl)" "teamsErr (newBulkCache cl) = None"
  by (simp_all add: newBulkCache_def)

section \<open>Lookups after a successful population\<close>

lemma GetLabel_populated:
  assumes "\<not> labelsOnce c" and "labelsErr c = None"
    and "labels_traversal (client c) ctx None w pages = Some (None, w')"
  shows "\<exists>c' h'. ensureLabels ctx c h w = Some (c', h', w') \<and>
     (\<forall>k r. matching (labels_entries pages) k = Some r \<longrightarrow>
        (\<exists>p. GetLabel ctx' k c' h' w' = Some ((Some p, None), c', h', w') \<and>
             p < length (IssueLabel_cells h') \<and> IssueLabel_cells h' ! p = r)) \<and>
     (\<forall>k. k \<notin> fst ` set (labels_entries pages) \<longrightarrow>
        GetLabel ctx' k c' h' w' = Some ((None, Some (Errorf (''label not found in bulk cache: '' @ k))), c', h', w'))"
proof -
  let ?kvs = "labels_entries pages"
  let ?m = "fst (store_all ?kvs Map.empty (IssueLabel_cells h))"
  let ?c = "c\<lparr>labels := Some ?m, labelsErr := None, labelsOnce := True\<rparr>"
  let ?h = "h\<lparr>IssueLabel_cells := IssueLabel_cells h @ map snd ?kvs\<rparr>"
  have ens: "ensureLabels ctx c h w = Some (?c, ?h, w')"
    using ensureLabels_traversal[OF assms(1,3), of h] assms(2) by simp
  have found: "\<exists>p. GetLabel ctx' k ?c ?h w' = Some ((Some p, None), ?c, ?h, w') \<and>
             p < length (IssueLabel_cells ?h) \<and> IssueLabel_cells ?h ! p = r"
    if "matching ?kvs k = Some r" for k r
    using populated_lookup[OF that, of "IssueLabel_cells h"]
    by (auto simp: GetLabel_done map_index_def)
  have missing: "GetLabel ctx' k ?c ?h w' =
          Some ((None, Some (Errorf (''label not found in bulk cache: '' @ k))), ?c, ?h, w')"
    if "k \<notin> fst ` set ?kvs" for k
    using populated_missing[OF that, of "IssueLabel_cells h"]
    by (simp add: GetLabel_done map_index_def)
  from ens found missing show ?thesis by blast
qed

lemma GetWorkflowState_populated:
  assumes "\<not> workflowStatesOnce c" and "workflowStatesErr c = None"
    and "workflowStates_traversal (client c) ctx None w pages = Some (None, w')"
  shows "\<exists>c' h'. ensureWorkflowStates ctx c h w = Some (c', h', w') \<and>
     (\<forall>k r. matching (workflowStates_entries pages) k = Some r \<longrightarrow>
        (\<exists>p. GetWorkflowState ctx' k c' h' w' = Some ((Some p, None), c', h', w') \<and>
             p < length (WorkflowState_cells h') \<and> WorkflowState_cells h' ! p = r)) \<and>
     (\<forall>k. k \<notin> fst ` set (workflowStates_entries pages) \<longrightarrow>
        GetWorkflowState ctx' k c' h' w' = Some ((None, Some (Errorf (''workflow state not found in bulk cache: '' @ k))), c', h', w'))"
proof -
  let ?kvs = "workflowStates_entries pages"
  let ?m = "fst (store_all ?kvs Map.empty (WorkflowState_cells h))"
  let ?c = "c\<lparr>workflowStates := Some ?m, workflowStatesErr := None, workflowStatesOnce := True\<rparr>"
  let ?h = "h\<lparr>WorkflowState_cells := WorkflowState_cells h @ map snd ?kvs\<rparr>"
  have ens: "ensureWorkflowStates ctx c h w = Some (?c, ?h, w')"
    using ensureWorkflowStates_traversal[OF assms(1,3), of h] assms(2) by simp
  have found: "\<exists>p. GetWorkflowState ctx' k ?c ?h w' = Some ((Some p, None), ?c, ?h, w') \<and>
             p < length (WorkflowState_cells ?h) \<and> WorkflowState_cells ?h ! p = r"
    if "matching ?kvs k = Some r" for k r
    using populated_lookup[OF that, of "WorkflowState_cells h"]
    by (auto simp: GetWorkflowState_done map_index_def)
  have missing: "GetWorkflowState ctx' k ?c ?h w' =
          Some ((None, Some (Errorf (''workflow state not found in bulk cache: '' @ k))), ?c, ?h, w')"
    if "k \<notin> fst ` set ?kvs" for k
    using populated_missing[OF that, of "WorkflowState_cells h"]
    by (simp add: GetWorkflowState_done map_index_def)
  from ens found missing show ?thesis by blast
qed

lemma GetTeamByKey_populated:
  assumes "\<not> teamsOnce c" and "teamsErr c = None"
    and "teams_traversal (client c) ctx None w pages = Some (None, w')"
  shows "\<exists>c' h'. ensureTeams ctx c h w = Some (c', h', w') \<and>
     (\<forall>k r. matching (teams_entries pages) k = Some r \<longrightarrow>
        (\<exists>p. GetTeamByKey ctx' k c' h' w' = Some ((Some p, None), c', h', w') \<and>
             p < length (Team_cells h') \<and> Team_cells h' ! p = r)) \<and>
     (\<forall>k. k \<notin> fst ` set (teams_entries pages) \<longrightarrow>
        GetTeamByKey ctx' k c' h' w' = Some ((None, Some (Errorf (''team not found in bulk cache: '' @ k))), c', h', w'))"
proof -
  let ?kvs = "teams_entries pages"
  let ?m = "fst (store_all ?kvs Map.empty (Team_cells h))"
  let ?c = "c\<lparr>teamsByKey := Some ?m, teamsErr := None, teamsOnce := True\<rparr>"
  let ?h = "h\<lparr>Team_cells := Team_cells h @ map snd ?kvs\<rparr>"
  have ens: "ensureTeams ctx c h w = Some (?c, ?h, w')"
    using ensureTeams_traversal[OF assms(1,3), of h] assms(2) by simp
  have found: "\<exists>p. GetTeamByKey ctx' k ?c ?h w' = Some ((Some p, None), ?c, ?h, w') \<and>
             p < length (Team_cells ?h) \<and> Team_cells ?h ! p = r"
    if "matching ?kvs k = Some r" for k r
    using populated_lookup[OF that, of "Team_cells h"]
    by (auto simp: GetTeamByKey_done map_index_def)
  have missing: "GetTeamByKey ctx' k ?c ?h w' =
          Some ((None, Some (Errorf (''team not found in bulk cache: '' @ k))), ?c, ?h, w')"
    if "k \<notin> fst ` set ?kvs" for k
    using populated_missing[OF that, of "Team_cells h"]
    by (simp add: GetTeamByKey_done map_index_def)
  from ens found missing show ?thesis by blast
qed

lemma GetTemplate_populated:
  assumes "\<not> templatesOnce c" and "templatesErr c = None"
    and "listAllTemplates (client c) ctx w = ((resp, None), w')"
  shows "\<exists>c' h'. ensureTemplates ctx c h w = (c', h', w') \<and>
     (\<forall>k r. matching (templates_entries resp) k = Some r \<longrightarrow>
        (\<exists>p. GetTemplate ctx' k c' h' w' = ((Some p, None), c', h', w') \<and>
             p < length (Template_cells h') \<and> Template_cells h' ! p = r)) \<and>
     (\<forall>k. k \<notin> fst ` set (templates_entries resp) \<longrightarrow>
        GetTemplate ctx' k c' h' w' =
          ((None, Some (Errorf (''template not found in bulk cache: '' @ k))), c', h', w'))"
proof -
  let ?kvs = "templates_entries resp"
  let ?m = "fst (store_all ?kvs Map.empty (Template_cells h))"
  let ?c = "c\<lparr>templates := Some ?m, templatesOnce := True\<rparr>"
  let ?h = "h\<lparr>Template_cells := Template_cells h @ map snd ?kvs\<rparr>"
  have ens: "ensureTemplates ctx c h w = (?c, ?h, w')"
    using ensureTemplates_fetched[OF assms(1,3), of h] by simp
  have found: "\<exists>p. GetTemplate ctx' k ?c ?h w' = ((Some p, None), ?c, ?h, w') \<and>
             p < length (Template_cells ?h) \<and> Template_cells ?h ! p = r"
    if "matching ?kvs k = Some r" for k r
    using populated_lookup[OF that, of "Template_cells h"] assms(2)
    by (auto simp: GetTemplate_done map_index_def)
  have missing: "GetTemplate ctx' k ?c ?h w' =
          ((None, Some (Errorf (''template not found in bulk cache: '' @ k))), ?c, ?h, w')"
    if "k \<notin> fst ` set ?kvs" for k
    using populated_missing[OF that, of "Template_cells h"] assms(2)
    by (simp add: GetTemplate_done map_index_def)
  from ens found missing show ?thesis by blast
qed

text \<open>
  Claim C1. After the populate routine of a category has completed without an error, on
  the dataset that the remote handed out, the lookup by identifier (\<^verbatim>\<open>GetLabel\<close>,
  \<^verbatim>\<open>GetWorkflowState\<close>, \<^verbatim>\<open>GetTemplate\<close>) returns for every identifier of the dataset a
  pointer to a cell that holds the matching record and no error, and for every other
  identifier no pointer and the not-found error; the same holds for \<^verbatim>\<open>GetTeamByKey\<close>
  over the keys of the teams. The populate routine does return on such a dataset.
\<close>

theorem lookup_after_population:
  "(\<not> labelsOnce c \<longrightarrow> labelsErr c = None \<longrightarrow>
    labels_traversal (client c) ctx None w lpages = Some (None, wl) \<longrightarrow>
    (\<exists>c' h'. ensureLabels ctx c h w = Some (c', h', wl) \<and>
       (\<forall>k r. matching (labels_entries lpages) k = Some r \<longrightarrow>
          (\<exists>p. GetLabel ctx' k c' h' wl = Some ((Some p, None), c', h', wl) \<and>
               p < length (IssueLabel_cells h') \<and> IssueLabel_cells h' ! p = r)) \<and>
       (\<forall>k. k \<notin> fst ` set (labels_entries lpages) \<longrightarrow>
          GetLabel ctx' k c' h' wl =
            Some ((None, Some (Errorf (''label not found in bulk cache: '' @ k))), c', h', wl)))) \<and>
   (\<not> workflowStatesOnce c \<longrightarrow> workflowStatesErr c = None \<longrightarrow>
    workflowStates_traversal (client c) ctx None w spages = Some (None, ws) \<longrightarrow>
    (\<exists>c' h'. ensureWorkflowStates ctx c h w = Some (c', h', ws) \<and>
       (\<forall>k r. matching (workflowStates_entries spages) k = Some r \<longrightarrow>
          (\<exists>p. GetWorkflowState ctx' k c' h' ws = Some ((Some p, None), c', h', ws) \<and>
               p < length (WorkflowState_cells h') \<and> WorkflowState_cells h' ! p = r)) \<and>
       (\<forall>k. k \<notin> fst ` set (workflowStates_entries spages) \<longrightarrow>
          GetWorkflowState ctx' k c' h' ws =
            Some ((None, Some (Errorf (''workflow state not found in bulk cache: '' @ k))),
                  c', h', ws)))) \<and>
   (\<not> templatesOnce c \<longrightarrow> templatesErr c = None \<longrightarrow>
    listAllTemplates (client c) ctx w = ((resp, None), wt) \<longrightarrow>
    (\<exists>c' h'. ensureTemplates ctx c h w = (c', h', wt) \<and>
       (\<forall>k r. matching (templates_entries resp) k = Some r \<longrightarrow>
          (\<exists>p. GetTemplate ctx' k c' h' wt = ((Some p, None), c', h', wt) \<and>
               p < length (Template_cells h') \<and> Template_cells h' ! p = r)) \<and>
       (\<forall>k. k \<notin> fst ` set (templates_entries resp) \<longrightarrow>
          GetTemplate ctx' k c' h' wt =
            ((None, Some (Errorf (''template not found in bulk cache: '' @ k))), c', h', wt)))) \<and>
   (\<not> teamsOnce c \<longrightarrow> teamsErr c = None \<longrightarrow>
    teams_traversal (client c) ctx None w tpages = Some (None, wm) \<longrightarrow>
    (\<exists>c' h'. ensureTeams ctx c h w = Some (c', h', wm) \<and>
       (\<forall>k r. matching (teams_entries tpages) k = Some r \<longrightarrow>
          (\<exists>p. GetTeamByKey ctx' k c' h' wm = Some ((Some p, None), c', h', wm) \<and>
               p < length (Team_cells h') \<and> Team_cells h' ! p = r)) \<and>
       (\<forall>k. k \<notin> fst ` set (teams_entries tpages) \<longrightarrow>
          GetTeamByKey ctx' k c' h' wm =
            Some ((None, Some (Errorf (''team not found in bulk cache: '' @ k))), c', h', wm))))"
  by (intro conjI impI GetLabel_populated GetWorkflowState_populated GetTemplate_populated
        GetTeamByKey_populated)

lemma instance_found_missing:
  assumes "\<exists>c' h'. A c' h' \<and>
      (\<forall>k r. M k = Some r \<longrightarrow> (\<exists>p. F k c' h' p \<and> B h' p \<and> C h' p = r)) \<and>
      (\<forall>k. k \<notin> S \<longrightarrow> N k c' h')"
    and "M k1 = Some r1" and "k2 \<notin> S"
  shows "\<exists>c' h'. A c' h' \<and> (\<exists>p. F k1 c' h' p \<and> C h' p = r1) \<and> N k2 c' h'"
  using assms by blast

theorem lookup_after_population_witness:
  "(\<exists>c' h'. ensureLabels () (newBulkCache demo_client) heap0 [] =
       Some (c', h', [None, Some ''A'', Some ''B'']) \<and>
     (\<exists>p. GetLabel () ''l3'' c' h' [None, Some ''A'', Some ''B''] =
          Some ((Some p, None), c', h', [None, Some ''A'', Some ''B'']) \<and>
        IssueLabel_cells h' ! p = \<lparr>IssueLabel_Id = ''l3'', IssueLabel_fields = ''chore''\<rparr>) \<and>
     GetLabel () ''l9'' c' h' [None, Some ''A'', Some ''B''] =
       Some ((None, Some (Errorf ''label not found in bulk cache: l9'')), c', h',
             [None, Some ''A'', Some ''B''])) \<and>
   (\<exists>c' h'. ensureWorkflowStates () (newBulkCache demo_client) heap0 [] =
       Some (c', h', [None, Some ''A'']) \<and>
     (\<exists>p. GetWorkflowState () ''s2'' c' h' [None, Some ''A''] =
          Some ((Some p, None), c', h', [None, Some ''A'']) \<and>
        WorkflowState_cells h' ! p =
          \<lparr>WorkflowState_Id = ''s2'', WorkflowState_Team = \<lparr>WorkflowStateTeam_Id = ''T1''\<rparr>,
           WorkflowState_fields = ''done''\<rparr>) \<and>
     GetWorkflowState () ''T1'' c' h' [None, Some ''A''] =
       Some ((None, Some (Errorf ''workflow state not found in bulk cache: T1'')), c', h',
             [None, Some ''A''])) \<and>
   (\<exists>c' h'. ensureTemplates () (newBulkCache demo_client) heap0 [] = (c', h', [None]) \<and>
     (\<exists>p. GetTemplate () ''t1'' c' h' [None] = ((Some p, None), c', h', [None]) \<and>
        Template_cells h' ! p = \<lparr>Template_Id = ''t1'', Template_fields = ''bug report''\<rparr>) \<and>
     GetTemplate () ''t9'' c' h' [None] =
       ((None, Some (Errorf ''template not found in bulk cache: t9'')), c', h', [None])) \<and>
   (\<exists>c' h'. ensureTeams () (newBulkCache demo_client) heap0 [] =
       Some (c', h', [None, Some ''A'']) \<and>
     (\<exists>p. GetTeamByKey () ''OPS'' c' h' [None, Some ''A''] =
          Some ((Some p, None), c', h', [None, Some ''A'']) \<and>
        Team_cells h' ! p =
          \<lparr>Team_Id = ''id2'', Team_Key = ''OPS'', Team_fields = ''operations''\<rparr>) \<and>
     GetTeamByKey () ''id2'' c' h' [None, Some ''A''] =
       Some ((None, Some (Errorf ''team not found in bulk cache: id2'')), c', h',
             [None, Some ''A'']))"
proof -
  note inst = lookup_after_population[where c = "newBulkCache demo_client" and ctx = "()"
      and w = "[]" and h = heap0 and ctx' = "()"
      and lpages = demo_labels and wl = "[None, Some ''A'', Some ''B'']"
      and spages = demo_workflowStates and ws = "[None, Some ''A'']"
      and resp = demo_templates and wt = "[None]"
      and tpages = demo_teams and wm = "[None, Some ''A'']",
      unfolded newBulkCache_fresh(1)]
  have l: "matching (labels_entries demo_labels) ''l3'' =
        Some \<lparr>IssueLabel_Id = ''l3'', IssueLabel_fields = ''chore''\<rparr>"
      "''l9'' \<notin> fst ` set (labels_entries demo_labels)"
    by (simp_all add: demo_labels_entries matching_def)
  have s: "matching (workflowStates_entries demo_workflowStates) ''s2'' =
        Some \<lparr>WorkflowState_Id = ''s2'', WorkflowState_Team = \<lparr>WorkflowStateTeam_Id = ''T1''\<rparr>,
              WorkflowState_fields = ''done''\<rparr>"
      "''T1'' \<notin> fst ` set (workflowStates_entries demo_workflowStates)"
    by (simp_all add: demo_workflowStates_entries matching_def)
  have t: "matching (templates_entries demo_templates) ''t1'' =
        Some \<lparr>Template_Id = ''t1'', Template_fields = ''bug report''\<rparr>"
      "''t9'' \<notin> fst ` set (templates_entries demo_templates)"
    by (simp_all add: demo_templates_entries matching_def)
  have m: "matching (teams_entries demo_teams) ''OPS'' =
        Some \<lparr>Team_Id = ''id2'', Team_Key = ''OPS'', Team_fields = ''operations''\<rparr>"
      "''id2'' \<notin> fst ` set (teams_entries demo_teams)"
    by (simp_all add: demo_teams_entries matching_def)
  have L: "\<exists>c' h'. ensureLabels () (newBulkCache demo_client) heap0 [] =
       Some (c', h', [None, Some ''A'', Some ''B'']) \<and>
     (\<exists>p. GetLabel () ''l3'' c' h' [None, Some ''A'', Some ''B''] =
          Some ((Some p, None), c', h', [None, Some ''A'', Some ''B'']) \<and>
        IssueLabel_cells h' ! p = \<lparr>IssueLabel_Id = ''l3'', IssueLabel_fields = ''chore''\<rparr>) \<and>
     GetLabel () ''l9'' c' h' [None, Some ''A'', Some ''B''] =
       Some ((None, Some (Errorf ''label not found in bulk cache: l9'')), c', h',
             [None, Some ''A'', Some ''B''])"
    using instance_found_missing[OF inst[THEN conjunct1, rule_format,
          OF newBulkCache_fresh(2,3) demo_labels_traversal] l]
    by simp
  have S: "\<exists>c' h'. ensureWorkflowStates () (newBulkCache demo_client) heap0 [] =
       Some (c', h', [None, Some ''A'']) \<and>
     (\<exists>p. GetWorkflowState () ''s2'' c' h' [None, Some ''A''] =
          Some ((Some p, None), c', h', [None, Some ''A'']) \<and>
        WorkflowState_cells h' ! p =
          \<lparr>WorkflowState_Id = ''s2'', WorkflowState_Team = \<lparr>WorkflowStateTeam_Id = ''T1''\<rparr>,
           WorkflowState_fields = ''done''\<rparr>) \<and>
     GetWorkflowState () ''T1'' c' h' [None, Some ''A''] =
       Some ((None, Some (Errorf ''workflow state not found in bulk cache: T1'')), c', h',
             [None, Some ''A''])"
    using instance_found_missing[OF inst[THEN conjunct2, THEN conjunct1, rule_format,
          OF newBulkCache_fresh(4,5) demo_workflowStates_traversal] s]
    by simp
  have T: "\<exists>c' h'. ensureTemplates () (newBulkCache demo_client) heap0 [] = (c', h', [None]) \<and>
     (\<exists>p. GetTemplate () ''t1'' c' h' [None] = ((Some p, None), c', h', [None]) \<and>
        Template_cells h' ! p = \<lparr>Template_Id = ''t1'', Template_fields = ''bug report''\<rparr>) \<and>
     GetTemplate () ''t9'' c' h' [None] =
       ((None, Some (Errorf ''template not found in bulk cache: t9'')), c', h', [None])"
    using instance_found_missing[OF inst[THEN conjunct2, THEN conjunct2, THEN conjunct1,
          rule_format, OF newBulkCache_fresh(6,7) demo_templates_call] t]
    by simp
  have M: "\<exists>c' h'. ensureTeams () (newBulkCache demo_client) heap0 [] =
       Some (c', h', [None, Some ''A'']) \<and>
     (\<exists>p. GetTeamByKey () ''OPS'' c' h' [None, Some ''A''] =
          Some ((Some p, None), c', h', [None, Some ''A'']) \<and>
        Team_cells h' ! p =
          \<lparr>Team_Id = ''id2'', Team_Key = ''OPS'', Team_fields = ''operations''\<rparr>) \<and>
     GetTeamByKey () ''id2'' c' h' [None, Some ''A''] =
       Some ((None, Some (Errorf ''team not found in bulk cache: id2'')), c', h',
             [None, Some ''A''])"
    using instance_found_missing[OF inst[THEN conjunct2, THEN conjunct2, THEN conjunct2,
          rule_format, OF newBulkCache_fresh(8,9) demo_teams_traversal] m]
    by simp
  from L S T M show ?thesis by (intro conjI)
qed

section \<open>Lookups after a failed population\<close>

lemma ensureLabels_failed:
  assumes "\<not> labelsOnce c"
    and "labels_traversal (client c) ctx None w pages = Some (Some err, w')"
  shows "\<exists>c' h' m. ensureLabels ctx c h w = Some (c', h', w') \<and>
     labelsOnce c' \<and> labelsErr c' = Some err \<and>
     labels c' = Some m \<and> dom m = fst ` set (labels_entries pages) \<and>
     (\<forall>ctx' k. GetLabel ctx' k c' h' w' = Some ((None, Some err), c', h', w'))"
proof -
  let ?m = "fst (store_all (labels_entries pages) Map.empty (IssueLabel_cells h))"
  let ?c = "c\<lparr>labels := Some ?m, labelsErr := Some err, labelsOnce := True\<rparr>"
  let ?h = "h\<lparr>IssueLabel_cells := IssueLabel_cells h @ map snd (labels_entries pages)\<rparr>"
  have "ensureLabels ctx c h w = Some (?c, ?h, w')"
    using ensureLabels_traversal[OF assms, of h] by simp
  moreover have "labelsOnce ?c" "labelsErr ?c = Some err" "labels ?c = Some ?m"
    by simp_all
  moreover have "dom ?m = fst ` set (labels_entries pages)"
    by (rule store_all_empty_dom)
  moreover have "GetLabel ctx' k ?c ?h w' = Some ((None, Some err), ?c, ?h, w')" for ctx' k
    by (simp add: GetLabel_done)
  ultimately show ?thesis by blast
qed

lemma ensureWorkflowStates_failed:
  assumes "\<not> workflowStatesOnce c"
    and "workflowStates_traversal (client c) ctx None w pages = Some (Some err, w')"
  shows "\<exists>c' h' m. ensureWorkflowStates ctx c h w = Some (c', h', w') \<and>
     workflowStatesOnce c' \<and> workflowStatesErr c' = Some err \<and>
     workflowStates c' = Some m \<and> dom m = fst ` set (workflowStates_entries pages) \<and>
     (\<forall>ctx' k. GetWorkflowState ctx' k c' h' w' = Some ((None, Some err), c', h', w'))"
proof -
  let ?m = "fst (store_all (workflowStates_entries pages) Map.empty (WorkflowState_cells h))"
  let ?c = "c\<lparr>workflowStates := Some ?m, workflowStatesErr := Some err, workflowStatesOnce := True\<rparr>"
  let ?h = "h\<lparr>WorkflowState_cells := WorkflowState_cells h @ map snd (workflowStates_entries pages)\<rparr>"
  have "ensureWorkflowStates ctx c h w = Some (?c, ?h, w')"
    using ensureWorkflowStates_traversal[OF assms, of h] by simp
  moreover have "workflowStatesOnce ?c" "workflowStatesErr ?c = Some err" "workflowStates ?c = Some ?m"
    by simp_all
  moreover have "dom ?m = fst ` set (workflowStates_entries pages)"
    by (rule store_all_empty_dom)
  moreover have "GetWorkflowState ctx' k ?c ?h w' = Some ((None, Some err), ?c, ?h, w')" for ctx' k
    by (simp add: GetWorkflowState_done)
  ultimately show ?thesis by blast
qed

lemma ensureTeams_failed:
  assumes "\<not> teamsOnce c"
    and "teams_traversal (client c) ctx None w pages = Some (Some err, w')"
  shows "\<exists>c' h' m. ensureTeams ctx c h w = Some (c', h', w') \<and>
     teamsOnce c' \<and> teamsErr c' = Some err \<and>
     teamsByKey c' = Some m \<and> dom m = fst ` set (teams_entries pages) \<and>
     (\<forall>ctx' k. GetTeamByKey ctx' k c' h' w' = Some ((None, Some err), c', h', w'))"
proof -
  let ?m = "fst (store_all (teams_entries pages) Map.empty (Team_cells h))"
  let ?c = "c\<lparr>teamsByKey := Some ?m, teamsErr := Some err, teamsOnce := True\<rparr>"
  let ?h = "h\<lparr>Team_cells := Team_cells h @ map snd (teams_entries pages)\<rparr>"
  have "ensureTeams ctx c h w = Some (?c, ?h, w')"
    using ensureTeams_traversal[OF assms, of h] by simp
  moreover have "teamsOnce ?c" "teamsErr ?c = Some err" "teamsByKey ?c = Some ?m"
    by simp_all
  moreover have "dom ?m = fst ` set (teams_entries pages)"
    by (rule store_all_empty_dom)
  moreover have "GetTeamByKey ctx' k ?c ?h w' = Some ((None, Some err), ?c, ?h, w')" for ctx' k
    by (simp add: GetTeamByKey_done)
  ultimately show ?thesis by blast
qed

lemma GetWorkflowStatesByTeamID_failed:
  "workflowStatesOnce c \<Longrightarrow> workflowStatesErr c = Some err \<Longrightarrow>
   GetWorkflowStatesByTeamID ctx order teamID c h w = Some ((None, Some err), c, h, w)"
  by (simp add: GetWorkflowStatesByTeamID_def ensureWorkflowStates_done)

lemma ensureTemplates_sticky:
  assumes "\<not> templatesOnce c"
    and "listAllTemplates (client c) ctx w = ((resp, Some err), w')"
  shows "\<exists>c'. ensureTemplates ctx c h w = (c', h, w') \<and>
     templatesOnce c' \<and> templatesErr c' = Some err \<and> templates c' = templates c \<and>
     (\<forall>ctx' k. GetTemplate ctx' k c' h w' = ((None, Some err), c', h, w'))"
proof -
  let ?c = "c\<lparr>templatesErr := Some err, templatesOnce := True\<rparr>"
  have "ensureTemplates ctx c h w = (?c, h, w')"
    by (rule ensureTemplates_failed[OF assms])
  moreover have "GetTemplate ctx' k ?c h w' = ((None, Some err), ?c, h, w')" for ctx' k
    by (simp add: GetTemplate_done)
  ultimately show ?thesis by simp
qed

text \<open>
  Claim C2. If a page request of the populate routine of a category fails, after any
  number of pages that were fetched and merged, the routine returns at once: the failed
  request is the last one that reaches the remote. The error is then in the error slot
  of the category, and every lookup against the category, for whichever identifier or key,
  returns no item and that error, and leaves the cache, the heap and the world as they
  are, so the slot is written once and nothing is fetched again. The entries merged
  before the failure are still in the map, yet no lookup returns one of them.
\<close>

theorem sticky_failure:
  "(\<not> labelsOnce c \<longrightarrow>
    labels_traversal (client c) ctx None w lpages = Some (Some err, wl) \<longrightarrow>
    (\<exists>c' h' m. ensureLabels ctx c h w = Some (c', h', wl) \<and>
       labelsOnce c' \<and> labelsErr c' = Some err \<and>
       labels c' = Some m \<and> dom m = fst ` set (labels_entries lpages) \<and>
       (\<forall>ctx' k. GetLabel ctx' k c' h' wl = Some ((None, Some err), c', h', wl)))) \<and>
   (\<not> workflowStatesOnce c \<longrightarrow>
    workflowStates_traversal (client c) ctx None w spages = Some (Some err, ws) \<longrightarrow>
    (\<exists>c' h' m. ensureWorkflowStates ctx c h w = Some (c', h', ws) \<and>
       workflowStatesOnce c' \<and> workflowStatesErr c' = Some err \<and>
       workflowStates c' = Some m \<and> dom m = fst ` set (workflowStates_entries spages) \<and>
       (\<forall>ctx' k. GetWorkflowState ctx' k c' h' ws = Some ((None, Some err), c', h', ws)) \<and>
       (\<forall>ctx' order teamID. GetWorkflowStatesByTeamID ctx' order teamID c' h' ws =
          Some ((None, Some err), c', h', ws)))) \<and>
   (\<not> templatesOnce c \<longrightarrow>
    listAllTemplates (client c) ctx w = ((resp, Some err), wt) \<longrightarrow>
    (\<exists>c'. ensureTemplates ctx c h w = (c', h, wt) \<and>
       templatesOnce c' \<and> templatesErr c' = Some err \<and> templates c' = templates c \<and>
       (\<forall>ctx' k. GetTemplate ctx' k c' h wt = ((None, Some err), c', h, wt)))) \<and>
   (\<not> teamsOnce c \<longrightarrow>
    teams_traversal (client c) ctx None w tpages = Some (Some err, wm) \<longrightarrow>
    (\<exists>c' h' m. ensureTeams ctx c h w = Some (c', h', wm) \<and>
       teamsOnce c' \<and> teamsErr c' = Some err \<and>
       teamsByKey c' = Some m \<and> dom m = fst ` set (teams_entries tpages) \<and>
       (\<forall>ctx' k. GetTeamByKey ctx' k c' h' wm = Some ((None, Some err), c', h', wm))))"
proof (intro conjI impI)
  assume a: "\<not> workflowStatesOnce c"
    "workflowStates_traversal (client c) ctx None w spages = Some (Some err, ws)"
  from ensureWorkflowStates_failed[OF a, of h] obtain c' h' m where
    r: "ensureWorkflowStates ctx c h w = Some (c', h', ws)"
      "workflowStatesOnce c'" "workflowStatesErr c' = Some err"
      "workflowStates c' = Some m" "dom m = fst ` set (workflowStates_entries spages)"
      "\<forall>ctx' k. GetWorkflowState ctx' k c' h' ws = Some ((None, Some err), c', h', ws)"
    by blast
  from r(2,3) have "\<forall>ctx' order teamID. GetWorkflowStatesByTeamID ctx' order teamID c' h' ws =
          Some ((None, Some err), c', h', ws)"
    by (simp add: GetWorkflowStatesByTeamID_failed)
  with r show "\<exists>c' h' m. ensureWorkflowStates ctx c h w = Some (c', h', ws) \<and>
       workflowStatesOnce c' \<and> workflowStatesErr c' = Some err \<and>
       workflowStates c' = Some m \<and> dom m = fst ` set (workflowStates_entries spages) \<and>
       (\<forall>ctx' k. GetWorkflowState ctx' k c' h' ws = Some ((None, Some err), c', h', ws)) \<and>
       (\<forall>ctx' order teamID. GetWorkflowStatesByTeamID ctx' order teamID c' h' ws =
          Some ((None, Some err), c', h', ws))"
    by blast
next
  assume "\<not> labelsOnce c" "labels_traversal (client c) ctx None w lpages = Some (Some err, wl)"
  then show "\<exists>c' h' m. ensureLabels ctx c h w = Some (c', h', wl) \<and>
       labelsOnce c' \<and> labelsErr c' = Some err \<and>
       labels c' = Some m \<and> dom m = fst ` set (labels_entries lpages) \<and>
       (\<forall>ctx' k. GetLabel ctx' k c' h' wl = Some ((None, Some err), c', h', wl))"
    by (rule ensureLabels_failed)
next
  assume "\<not> templatesOnce c" "listAllTemplates (client c) ctx w = ((resp, Some err), wt)"
  then show "\<exists>c'. ensureTemplates ctx c h w = (c', h, wt) \<and>
       templatesOnce c' \<and> templatesErr c' = Some err \<and> templates c' = templates c \<and>
       (\<forall>ctx' k. GetTemplate ctx' k c' h wt = ((None, Some err), c', h, wt))"
    by (rule ensureTemplates_sticky)
next
  assume "\<not> teamsOnce c" "teams_traversal (client c) ctx None w tpages = Some (Some err, wm)"
  then show "\<exists>c' h' m. ensureTeams ctx c h w = Some (c', h', wm) \<and>
       teamsOnce c' \<and> teamsErr c' = Some err \<and>
       teamsByKey c' = Some m \<and> dom m = fst ` set (teams_entries tpages) \<and>
       (\<forall>ctx' k. GetTeamByKey ctx' k c' h' wm = Some ((None, Some err), c', h', wm))"
    by (rule ensureTeams_failed)
qed


lemma failing_labels_traversal:
  "labels_traversal failing_client () None [] (take 1 demo_labels) =
     Some (Some (ClientError ''request failed''), [None, Some ''A''])"
  by (simp add: failing_client_def remote_def demo_labels_def serve_def labels_page_def)

lemma failing_workflowStates_traversal:
  "workflowStates_traversal failing_client () None [] (take 1 demo_workflowStates) =
     Some (Some (ClientError ''request failed''), [None, Some ''A''])"
  by (simp add: failing_client_def remote_def demo_workflowStates_def serve_def
        workflowStates_page_def)

lemma failing_templates_call:
  "listAllTemplates failing_client () [] =
     ((templates_resp [], Some (ClientError ''request failed'')), [None])"
  by (simp add: failing_client_def remote_def)

lemma failing_teams_traversal:
  "teams_traversal failing_client () None [] (take 1 demo_teams) =
     Some (Some (ClientError ''request failed''), [None, Some ''A''])"
  by (simp add: failing_client_def remote_def demo_teams_def serve_def teams_page_def)

lemma instance_failed:
  assumes "\<exists>c' h' m. E c' h' \<and> Q c' \<and> R c' \<and> Mp c' m \<and> dom m = S \<and> (\<forall>ctx' k. G ctx' k c' h')"
    and "S = S'"
  shows "\<exists>c' h' m. E c' h' \<and> R c' \<and> Mp c' m \<and> dom m = S' \<and> G x k c' h'"
  using assms by blast

lemma instance_failed_scan:
  assumes "\<exists>c' h' m. E c' h' \<and> Q c' \<and> R c' \<and> Mp c' m \<and> dom m = S \<and>
      (\<forall>ctx' k. G ctx' k c' h') \<and> (\<forall>ctx' order teamID. L ctx' order teamID c' h')"
    and "S = S'"
  shows "\<exists>c' h' m. E c' h' \<and> R c' \<and> Mp c' m \<and> dom m = S' \<and> G x k c' h' \<and> L y ks t c' h'"
  using assms by blast

lemma instance_failed_call:
  assumes "\<exists>c'. E c' \<and> Q c' \<and> R c' \<and> Mp c' \<and> (\<forall>ctx' k. G ctx' k c')"
  shows "\<exists>c'. E c' \<and> R c' \<and> G x k c'"
  using assms by blast

theorem sticky_failure_witness:
  "(\<exists>c' h' m. ensureLabels () (newBulkCache failing_client) heap0 [] =
        Some (c', h', [None, Some ''A'']) \<and>
      labelsErr c' = Some (ClientError ''request failed'') \<and>
      labels c' = Some m \<and> dom m = {''l1'', ''l2''} \<and>
      GetLabel () ''l1'' c' h' [None, Some ''A''] =
        Some ((None, Some (ClientError ''request failed'')), c', h', [None, Some ''A''])) \<and>
   (\<exists>c' h' m. ensureWorkflowStates () (newBulkCache failing_client) heap0 [] =
        Some (c', h', [None, Some ''A'']) \<and>
      workflowStatesErr c' = Some (ClientError ''request failed'') \<and>
      workflowStates c' = Some m \<and> dom m = {''s1'', ''s2''} \<and>
      GetWorkflowState () ''s1'' c' h' [None, Some ''A''] =
        Some ((None, Some (ClientError ''request failed'')), c', h', [None, Some ''A'']) \<and>
      GetWorkflowStatesByTeamID () [''s1'', ''s2''] ''T1'' c' h' [None, Some ''A''] =
        Some ((None, Some (ClientError ''request failed'')), c', h', [None, Some ''A''])) \<and>
   (\<exists>c'. ensureTemplates () (newBulkCache failing_client) heap0 [] = (c', heap0, [None]) \<and>
      templatesErr c' = Some (ClientError ''request failed'') \<and>
      GetTemplate () ''t1'' c' heap0 [None] =
        ((None, Some (ClientError ''request failed'')), c', heap0, [None])) \<and>
   (\<exists>c' h' m. ensureTeams () (newBulkCache failing_client) heap0 [] =
        Some (c', h', [None, Some ''A'']) \<and>
      teamsErr c' = Some (ClientError ''request failed'') \<and>
      teamsByKey c' = Some m \<and> dom m = {''ENG''} \<and>
      GetTeamByKey () ''ENG'' c' h' [None, Some ''A''] =
        Some ((None, Some (ClientError ''request failed'')), c', h', [None, Some ''A'']))"
proof -
  note inst = sticky_failure[where c = "newBulkCache failing_client" and ctx = "()"
      and w = "[]" and h = heap0 and err = "ClientError ''request failed''"
      and lpages = "take 1 demo_labels" and wl = "[None, Some ''A'']"
      and spages = "take 1 demo_workflowStates" and ws = "[None, Some ''A'']"
      and resp = "templates_resp []" and wt = "[None]"
      and tpages = "take 1 demo_teams" and wm = "[None, Some ''A'']",
      unfolded newBulkCache_fresh(1)]
  have keys: "fst ` set (labels_entries (take 1 demo_labels)) = {''l1'', ''l2''}"
    "fst ` set (workflowStates_entries (take 1 demo_workflowStates)) = {''s1'', ''s2''}"
    "fst ` set (teams_entries (take 1 demo_teams)) = {''ENG''}"
    by (simp_all add: labels_entries_def demo_labels_def labels_page_def
        workflowStates_entries_def demo_workflowStates_def workflowStates_page_def
        teams_entries_def demo_teams_def teams_page_def)
  have L: "\<exists>c' h' m. ensureLabels () (newBulkCache failing_client) heap0 [] =
        Some (c', h', [None, Some ''A'']) \<and>
      labelsErr c' = Some (ClientError ''request failed'') \<and>
      labels c' = Some m \<and> dom m = {''l1'', ''l2''} \<and>
      GetLabel () ''l1'' c' h' [None, Some ''A''] =
        Some ((None, Some (ClientError ''request failed'')), c', h', [None, Some ''A''])"
    by (rule instance_failed[OF inst[THEN conjunct1, rule_format,
          OF newBulkCache_fresh(2) failing_labels_traversal] keys(1)])
  have S: "\<exists>c' h' m. ensureWorkflowStates () (newBulkCache failing_client) heap0 [] =
        Some (c', h', [None, Some ''A'']) \<and>
      workflowStatesErr c' = Some (ClientError ''request failed'') \<and>
      workflowStates c' = Some m \<and> dom m = {''s1'', ''s2''} \<and>
      GetWorkflowState () ''s1'' c' h' [None, Some ''A''] =
        Some ((None, Some (ClientError ''request failed'')), c', h', [None, Some ''A'']) \<and>
      GetWorkflowStatesByTeamID () [''s1'', ''s2''] ''T1'' c' h' [None, Some ''A''] =
        Some ((None, Some (ClientError ''request failed'')), c', h', [None, Some ''A''])"
    by (rule instance_failed_scan[OF inst[THEN conjunct2, THEN conjunct1, rule_format,
          OF newBulkCache_fresh(4) failing_workflowStates_traversal] keys(2)])
  have T: "\<exists>c'. ensureTemplates () (newBulkCache failing_client) heap0 [] = (c', heap0, [None]) \<and>
      templatesErr c' = Some (ClientError ''request failed'') \<and>
      GetTemplate () ''t1'' c' heap0 [None] =
        ((None, Some (ClientError ''request failed'')), c', heap0, [None])"
    by (rule instance_failed_call[OF inst[THEN conjunct2, THEN conjunct2, THEN conjunct1,
          rule_format, OF newBulkCache_fresh(6) failing_templates_call]])
  have M: "\<exists>c' h' m. ensureTeams () (newBulkCache failing_client) heap0 [] =
        Some (c', h', [None, Some ''A'']) \<and>
      teamsErr c' = Some (ClientError ''request failed'') \<and>
      teamsByKey c' = Some m \<and> dom m = {''ENG''} \<and>
      GetTeamByKey () ''ENG'' c' h' [None, Some ''A''] =
        Some ((None, Some (ClientError ''request failed'')), c', h', [None, Some ''A''])"
    by (rule instance_failed[OF inst[THEN conjunct2, THEN conjunct2, THEN conjunct2,
          rule_format, OF newBulkCache_fresh(8) failing_teams_traversal] keys(3)])
  from L S T M show ?thesis by (intro conjI)
qed

section \<open>A category without records\<close>

lemma ensureLabels_empty:
  assumes "\<not> labelsOnce c" and "labelsErr c = None"
    and "listAllLabelsPage (client c) ctx None w = ((resp, None), w')"
    and "Nodes (IssueLabels resp) = []" and "\<not> HasNextPage (PageInfo (IssueLabels resp))"
  shows "ensureLabels ctx c h w = Some (c\<lparr>labels := Some Map.empty, labelsOnce := True\<rparr>, h, w') \<and>
     labelsErr (c\<lparr>labels := Some Map.empty, labelsOnce := True\<rparr>) = None \<and>
     (\<forall>ctx' k. GetLabel ctx' k (c\<lparr>labels := Some Map.empty, labelsOnce := True\<rparr>) h w' =
        Some ((None, Some (Errorf (''label not found in bulk cache: '' @ k))),
              c\<lparr>labels := Some Map.empty, labelsOnce := True\<rparr>, h, w'))"
proof -
  have "labels_traversal (client c) ctx None w [resp] = Some (None, w')"
    using assms(3,5) by simp
  from ensureLabels_traversal[OF assms(1) this, of h] assms(4)
  have "ensureLabels ctx c h w = Some (c\<lparr>labels := Some Map.empty, labelsOnce := True\<rparr>, h, w')"
    by (simp add: labels_entries_def)
  then show ?thesis
    using assms(2) by (simp add: GetLabel_done map_index_def)
qed

lemma ensureWorkflowStates_empty:
  assumes "\<not> workflowStatesOnce c" and "workflowStatesErr c = None"
    and "listAllWorkflowStatesPage (client c) ctx None w = ((resp, None), w')"
    and "Nodes (WorkflowStates resp) = []" and "\<not> HasNextPage (PageInfo (WorkflowStates resp))"
  shows "ensureWorkflowStates ctx c h w = Some (c\<lparr>workflowStates := Some Map.empty, workflowStatesOnce := True\<rparr>, h, w') \<and>
     workflowStatesErr (c\<lparr>workflowStates := Some Map.empty, workflowStatesOnce := True\<rparr>) = None \<and>
     (\<forall>ctx' k. GetWorkflowState ctx' k (c\<lparr>workflowStates := Some Map.empty, workflowStatesOnce := True\<rparr>) h w' =
        Some ((None, Some (Errorf (''workflow state not found in bulk cache: '' @ k))),
              c\<lparr>workflowStates := Some Map.empty, workflowStatesOnce := True\<rparr>, h, w'))"
proof -
  have "workflowStates_traversal (client c) ctx None w [resp] = Some (None, w')"
    using assms(3,5) by simp
  from ensureWorkflowStates_traversal[OF assms(1) this, of h] assms(4)
  have "ensureWorkflowStates ctx c h w = Some (c\<lparr>workflowStates := Some Map.empty, workflowStatesOnce := True\<rparr>, h, w')"
    by (simp add: workflowStates_entries_def)
  then show ?thesis
    using assms(2) by (simp add: GetWorkflowState_done map_index_def)
qed

lemma ensureTeams_empty:
  assumes "\<not> teamsOnce c" and "teamsErr c = None"
    and "listAllTeamsPage (client c) ctx None w = ((resp, None), w')"
    and "Nodes (Teams resp) = []" and "\<not> HasNextPage (PageInfo (Teams resp))"
  shows "ensureTeams ctx c h w = Some (c\<lparr>teamsByKey := Some Map.empty, teamsOnce := True\<rparr>, h, w') \<and>
     teamsErr (c\<lparr>teamsByKey := Some Map.empty, teamsOnce := True\<rparr>) = None \<and>
     (\<forall>ctx' k. GetTeamByKey ctx' k (c\<lparr>teamsByKey := Some Map.empty, teamsOnce := True\<rparr>) h w' =
        Some ((None, Some (Errorf (''team not found in bulk cache: '' @ k))),
              c\<lparr>teamsByKey := Some Map.empty, teamsOnce := True\<rparr>, h, w'))"
proof -
  have "teams_traversal (client c) ctx None w [resp] = Some (None, w')"
    using assms(3,5) by simp
  from ensureTeams_traversal[OF assms(1) this, of h] assms(4)
  have "ensureTeams ctx c h w = Some (c\<lparr>teamsByKey := Some Map.empty, teamsOnce := True\<rparr>, h, w')"
    by (simp add: teams_entries_def)
  then show ?thesis
    using assms(2) by (simp add: GetTeamByKey_done map_index_def)
qed

lemma ensureTemplates_empty:
  assumes "\<not> templatesOnce c" and "templatesErr c = None"
    and "listAllTemplates (client c) ctx w = ((resp, None), w')"
    and "Templates resp = []"
  shows "ensureTemplates ctx c h w = (c\<lparr>templates := Some Map.empty, templatesOnce := True\<rparr>, h, w') \<and>
     templatesErr (c\<lparr>templates := Some Map.empty, templatesOnce := True\<rparr>) = None \<and>
     (\<forall>ctx' k. GetTemplate ctx' k (c\<lparr>templates := Some Map.empty, templatesOnce := True\<rparr>) h w' =
        ((None, Some (Errorf (''template not found in bulk cache: '' @ k))),
         c\<lparr>templates := Some Map.empty, templatesOnce := True\<rparr>, h, w'))"
proof -
  from ensureTemplates_fetched[OF assms(1,3), of h] assms(4)
  have "ensureTemplates ctx c h w =
      (c\<lparr>templates := Some Map.empty, templatesOnce := True\<rparr>, h, w')"
    by (simp add: templates_entries_def)
  then show ?thesis
    using assms(2) by (simp add: GetTemplate_done map_index_def)
qed

text \<open>
  Claim C6. When the list operation of an unpopulated category answers the first request
  with a page of no items that announces no next page (for the templates: with no items),
  the populate routine returns with the category populated: the once flag is set, the map
  is the empty map and not the \<^verbatim>\<open>nil\<close> map, the error slot is \<^verbatim>\<open>nil\<close>, and nothing was
  allocated. Every lookup by identifier or key then returns the not-found error, which is
  built by \<^verbatim>\<open>fmt.Errorf\<close> and is no error of the client.
\<close>

theorem empty_category:
  "(\<not> labelsOnce c \<longrightarrow> labelsErr c = None \<longrightarrow>
    listAllLabelsPage (client c) ctx None w = ((lresp, None), wl) \<longrightarrow>
    Nodes (IssueLabels lresp) = [] \<longrightarrow> \<not> HasNextPage (PageInfo (IssueLabels lresp)) \<longrightarrow>
    ensureLabels ctx c h w = Some (c\<lparr>labels := Some Map.empty, labelsOnce := True\<rparr>, h, wl) \<and>
    labelsErr (c\<lparr>labels := Some Map.empty, labelsOnce := True\<rparr>) = None \<and>
    (\<forall>ctx' k. GetLabel ctx' k (c\<lparr>labels := Some Map.empty, labelsOnce := True\<rparr>) h wl =
       Some ((None, Some (Errorf (''label not found in bulk cache: '' @ k))),
             c\<lparr>labels := Some Map.empty, labelsOnce := True\<rparr>, h, wl))) \<and>
   (\<not> workflowStatesOnce c \<longrightarrow> workflowStatesErr c = None \<longrightarrow>
    listAllWorkflowStatesPage (client c) ctx None w = ((sresp, None), ws) \<longrightarrow>
    Nodes (WorkflowStates sresp) = [] \<longrightarrow> \<not> HasNextPage (PageInfo (WorkflowStates sresp)) \<longrightarrow>
    ensureWorkflowStates ctx c h w =
      Some (c\<lparr>workflowStates := Some Map.empty, workflowStatesOnce := True\<rparr>, h, ws) \<and>
    workflowStatesErr (c\<lparr>workflowStates := Some Map.empty, workflowStatesOnce := True\<rparr>) = None \<and>
    (\<forall>ctx' k. GetWorkflowState ctx' k
         (c\<lparr>workflowStates := Some Map.empty, workflowStatesOnce := True\<rparr>) h ws =
       Some ((None, Some (Errorf (''workflow state not found in bulk cache: '' @ k))),
             c\<lparr>workflowStates := Some Map.empty, workflowStatesOnce := True\<rparr>, h, ws))) \<and>
   (\<not> templatesOnce c \<longrightarrow> templatesErr c = None \<longrightarrow>
    listAllTemplates (client c) ctx w = ((tresp, None), wt) \<longrightarrow>
    Templates tresp = [] \<longrightarrow>
    ensureTemplates ctx c h w = (c\<lparr>templates := Some Map.empty, templatesOnce := True\<rparr>, h, wt) \<and>
    templatesErr (c\<lparr>templates := Some Map.empty, templatesOnce := True\<rparr>) = None \<and>
    (\<forall>ctx' k. GetTemplate ctx' k (c\<lparr>templates := Some Map.empty, templatesOnce := True\<rparr>) h wt =
       ((None, Some (Errorf (''template not found in bulk cache: '' @ k))),
        c\<lparr>templates := Some Map.empty, templatesOnce := True\<rparr>, h, wt))) \<and>
   (\<not> teamsOnce c \<longrightarrow> teamsErr c = None \<longrightarrow>
    listAllTeamsPage (client c) ctx None w = ((mresp, None), wm) \<longrightarrow>
    Nodes (Teams mresp) = [] \<longrightarrow> \<not> HasNextPage (PageInfo (Teams mresp)) \<longrightarrow>
    ensureTeams ctx c h w = Some (c\<lparr>teamsByKey := Some Map.empty, teamsOnce := True\<rparr>, h, wm) \<and>
    teamsErr (c\<lparr>teamsByKey := Some Map.empty, teamsOnce := True\<rparr>) = None \<and>
    (\<forall>ctx' k. GetTeamByKey ctx' k (c\<lparr>teamsByKey := Some Map.empty, teamsOnce := True\<rparr>) h wm =
       Some ((None, Some (Errorf (''team not found in bulk cache: '' @ k))),
             c\<lparr>teamsByKey := Some Map.empty, teamsOnce := True\<rparr>, h, wm)))"
proof -
  have "\<not> labelsOnce c \<longrightarrow> labelsErr c = None \<longrightarrow>
    listAllLabelsPage (client c) ctx None w = ((lresp, None), wl) \<longrightarrow>
    Nodes (IssueLabels lresp) = [] \<longrightarrow> \<not> HasNextPage (PageInfo (IssueLabels lresp)) \<longrightarrow>
    ensureLabels ctx c h w = Some (c\<lparr>labels := Some Map.empty, labelsOnce := True\<rparr>, h, wl) \<and>
    labelsErr (c\<lparr>labels := Some Map.empty, labelsOnce := True\<rparr>) = None \<and>
    (\<forall>ctx' k. GetLabel ctx' k (c\<lparr>labels := Some Map.empty, labelsOnce := True\<rparr>) h wl =
       Some ((None, Some (Errorf (''label not found in bulk cache: '' @ k))),
             c\<lparr>labels := Some Map.empty, labelsOnce := True\<rparr>, h, wl))"
    by (intro impI) (rule ensureLabels_empty)
  moreover have "\<not> workflowStatesOnce c \<longrightarrow> workflowStatesErr c = None \<longrightarrow>
    listAllWorkflowStatesPage (client c) ctx None w = ((sresp, None), ws) \<longrightarrow>
    Nodes (WorkflowStates sresp) = [] \<longrightarrow> \<not> HasNextPage (PageInfo (WorkflowStates sresp)) \<longrightarrow>
    ensureWorkflowStates ctx c h w =
      Some (c\<lparr>workflowStates := Some Map.empty, workflowStatesOnce := True\<rparr>, h, ws) \<and>
    workflowStatesErr (c\<lparr>workflowStates := Some Map.empty, workflowStatesOnce := True\<rparr>) = None \<and>
    (\<forall>ctx' k. GetWorkflowState ctx' k
         (c\<lparr>workflowStates := Some Map.empty, workflowStatesOnce := True\<rparr>) h ws =
       Some ((None, Some (Errorf (''workflow state not found in bulk cache: '' @ k))),
             c\<lparr>workflowStates := Some Map.empty, workflowStatesOnce := True\<rparr>, h, ws))"
    by (intro impI) (rule ensureWorkflowStates_empty)
  moreover have "\<not> templatesOnce c \<longrightarrow> templatesErr c = None \<longrightarrow>
    listAllTemplates (client c) ctx w = ((tresp, None), wt) \<longrightarrow>
    Templates tresp = [] \<longrightarrow>
    ensureTemplates ctx c h w = (c\<lparr>templates := Some Map.empty, templatesOnce := True\<rparr>, h, wt) \<and>
    templatesErr (c\<lparr>templates := Some Map.empty, templatesOnce := True\<rparr>) = None \<and>
    (\<forall>ctx' k. GetTemplate ctx' k (c\<lparr>templates := Some Map.empty, templatesOnce := True\<rparr>) h wt =
       ((None, Some (Errorf (''template not found in bulk cache: '' @ k))),
        c\<lparr>templates := Some Map.empty, templatesOnce := True\<rparr>, h, wt))"
    by (intro impI) (rule ensureTemplates_empty)
  moreover have "\<not> teamsOnce c \<longrightarrow> teamsErr c = None \<longrightarrow>
    listAllTeamsPage (client c) ctx None w = ((mresp, None), wm) \<longrightarrow>
    Nodes (Teams mresp) = [] \<longrightarrow> \<not> HasNextPage (PageInfo (Teams mresp)) \<longrightarrow>
    ensureTeams ctx c h w = Some (c\<lparr>teamsByKey := Some Map.empty, teamsOnce := True\<rparr>, h, wm) \<and>
    teamsErr (c\<lparr>teamsByKey := Some Map.empty, teamsOnce := True\<rparr>) = None \<and>
    (\<forall>ctx' k. GetTeamByKey ctx' k (c\<lparr>teamsByKey := Some Map.empty, teamsOnce := True\<rparr>) h wm =
       Some ((None, Some (Errorf (''team not found in bulk cache: '' @ k))),
             c\<lparr>teamsByKey := Some Map.empty, teamsOnce := True\<rparr>, h, wm))"
    by (intro impI) (rule ensureTeams_empty)
  ultimately show ?thesis by (intro conjI)
qed

lemma empty_client_calls:
  "listAllLabelsPage empty_client () None [] = ((labels_page [] False [], None), [None])"
  "listAllWorkflowStatesPage empty_client () None [] =
     ((workflowStates_page [] False [], None), [None])"
  "listAllTemplates empty_client () [] = ((templates_resp [], None), [None])"
  "listAllTeamsPage empty_client () None [] = ((teams_page [] False [], None), [None])"
  by (simp_all add: empty_client_def remote_def serve_def)

lemma empty_pages:
  "Nodes (IssueLabels (labels_page [] False [])) = []"
  "\<not> HasNextPage (PageInfo (IssueLabels (labels_page [] False [])))"
  "Nodes (WorkflowStates (workflowStates_page [] False [])) = []"
  "\<not> HasNextPage (PageInfo (WorkflowStates (workflowStates_page [] False [])))"
  "Templates (templates_resp []) = []"
  "Nodes (Teams (teams_page [] False [])) = []"
  "\<not> HasNextPage (PageInfo (Teams (teams_page [] False [])))"
  by (simp_all add: labels_page_def workflowStates_page_def templates_resp_def teams_page_def)

theorem empty_category_witness:
  "(ensureLabels () (newBulkCache empty_client) heap0 [] =
      Some ((newBulkCache empty_client)\<lparr>labels := Some Map.empty, labelsOnce := True\<rparr>,
            heap0, [None]) \<and>
    GetLabel () ''l1''
        ((newBulkCache empty_client)\<lparr>labels := Some Map.empty, labelsOnce := True\<rparr>)
        heap0 [None] =
      Some ((None, Some (Errorf ''label not found in bulk cache: l1'')),
            (newBulkCache empty_client)\<lparr>labels := Some Map.empty, labelsOnce := True\<rparr>,
            heap0, [None])) \<and>
   (ensureWorkflowStates () (newBulkCache empty_client) heap0 [] =
      Some ((newBulkCache empty_client)
              \<lparr>workflowStates := Some Map.empty, workflowStatesOnce := True\<rparr>,
            heap0, [None]) \<and>
    GetWorkflowState () ''s1''
        ((newBulkCache empty_client)
           \<lparr>workflowStates := Some Map.empty, workflowStatesOnce := True\<rparr>)
        heap0 [None] =
      Some ((None, Some (Errorf ''workflow state not found in bulk cache: s1'')),
            (newBulkCache empty_client)
              \<lparr>workflowStates := Some Map.empty, workflowStatesOnce := True\<rparr>,
            heap0, [None])) \<and>
   (ensureTemplates () (newBulkCache empty_client) heap0 [] =
      ((newBulkCache empty_client)\<lparr>templates := Some Map.empty, templatesOnce := True\<rparr>,
       heap0, [None]) \<and>
    GetTemplate () ''t1''
        ((newBulkCache empty_client)\<lparr>templates := Some Map.empty, templatesOnce := True\<rparr>)
        heap0 [None] =
      ((None, Some (Errorf ''template not found in bulk cache: t1'')),
       (newBulkCache empty_client)\<lparr>templates := Some Map.empty, templatesOnce := True\<rparr>,
       heap0, [None])) \<and>
   (ensureTeams () (newBulkCache empty_client) heap0 [] =
      Some ((newBulkCache empty_client)\<lparr>teamsByKey := Some Map.empty, teamsOnce := True\<rparr>,
            heap0, [None]) \<and>
    GetTeamByKey () ''ENG''
        ((newBulkCache empty_client)\<lparr>teamsByKey := Some Map.empty, teamsOnce := True\<rparr>)
        heap0 [None] =
      Some ((None, Some (Errorf ''team not found in bulk cache: ENG'')),
            (newBulkCache empty_client)\<lparr>teamsByKey := Some Map.empty, teamsOnce := True\<rparr>,
            heap0, [None]))"
proof -
  note inst = empty_category[where c = "newBulkCache empty_client" and ctx = "()"
      and w = "[]" and h = heap0
      and lresp = "labels_page [] False []" and wl = "[None]"
      and sresp = "workflowStates_page [] False []" and ws = "[None]"
      and tresp = "templates_resp []" and wt = "[None]"
      and mresp = "teams_page [] False []" and wm = "[None]",
      unfolded newBulkCache_fresh(1)]
  note L = inst[THEN conjunct1, rule_format,
      OF newBulkCache_fresh(2,3) empty_client_calls(1) empty_pages(1,2)]
  note S = inst[THEN conjunct2, THEN conjunct1, rule_format,
      OF newBulkCache_fresh(4,5) empty_client_calls(2) empty_pages(3,4)]
  note T = inst[THEN conjunct2, THEN conjunct2, THEN conjunct1, rule_format,
      OF newBulkCache_fresh(6,7) empty_client_calls(3) empty_pages(5)]
  note M = inst[THEN conjunct2, THEN conjunct2, THEN conjunct2, rule_format,
      OF newBulkCache_fresh(8,9) empty_client_calls(4) empty_pages(6,7)]
  show ?thesis
    using L[THEN conjunct1] L[THEN conjunct2, THEN conjunct2, rule_format, of "()" "''l1''"]
      S[THEN conjunct1] S[THEN conjunct2, THEN conjunct2, rule_format, of "()" "''s1''"]
      T[THEN conjunct1] T[THEN conjunct2, THEN conjunct2, rule_format, of "()" "''t1''"]
      M[THEN conjunct1] M[THEN conjunct2, THEN conjunct2, rule_format, of "()" "''ENG''"]
    by simp
qed

section \<open>The result pair of a lookup\<close>

lemma GetLabel_one_of:
  "GetLabel ctx k c h w = Some ((item, err), s) \<Longrightarrow> (item = None) \<noteq> (err = None)"
  by (auto simp: GetLabel_def split: option.splits prod.splits) metis+

lemma GetLabel_terminal:
  "labelsOnce c \<Longrightarrow>
   \<exists>item err. GetLabel ctx k c h w = Some ((item, err), c, h, w) \<and> (item = None) \<noteq> (err = None)"
  by (auto simp: GetLabel_done split: option.splits)

lemma GetWorkflowState_one_of:
  "GetWorkflowState ctx k c h w = Some ((item, err), s) \<Longrightarrow> (item = None) \<noteq> (err = None)"
  by (auto simp: GetWorkflowState_def split: option.splits prod.splits) metis+

lemma GetWorkflowState_terminal:
  "workflowStatesOnce c \<Longrightarrow>
   \<exists>item err. GetWorkflowState ctx k c h w = Some ((item, err), c, h, w) \<and> (item = None) \<noteq> (err = None)"
  by (auto simp: GetWorkflowState_done split: option.splits)

lemma GetTeamByKey_one_of:
  "GetTeamByKey ctx k c h w = Some ((item, err), s) \<Longrightarrow> (item = None) \<noteq> (err = None)"
  by (auto simp: GetTeamByKey_def split: option.splits prod.splits) metis+

lemma GetTeamByKey_terminal:
  "teamsOnce c \<Longrightarrow>
   \<exists>item err. GetTeamByKey ctx k c h w = Some ((item, err), c, h, w) \<and> (item = None) \<noteq> (err = None)"
  by (auto simp: GetTeamByKey_done split: option.splits)

lemma GetTemplate_one_of:
  "GetTemplate ctx k c h w = ((item, err), s) \<Longrightarrow> (item = None) \<noteq> (err = None)"
  by (auto simp: GetTemplate_def split: option.splits prod.splits) metis+

lemma GetTemplate_terminal:
  "templatesOnce c \<Longrightarrow>
   \<exists>item err. GetTemplate ctx k c h w = ((item, err), c, h, w) \<and> (item = None) \<noteq> (err = None)"
  by (auto simp: GetTemplate_done split: option.splits)

text \<open>
  Claim C9. Whenever \<^verbatim>\<open>GetLabel\<close>, \<^verbatim>\<open>GetWorkflowState\<close>, \<^verbatim>\<open>GetTemplate\<close> or
  \<^verbatim>\<open>GetTeamByKey\<close> returns, for whichever identifier or key and from whichever state of the
  cache, exactly one of the item and the error is not \<^verbatim>\<open>nil\<close>. In a terminal state of the
  category, populated or failed, the lookup does return, and leaves the cache, the heap and
  the world as they are.
\<close>

theorem lookup_item_or_error:
  "(\<forall>item err s. GetLabel ctx k c h w = Some ((item, err), s) \<longrightarrow>
      (item = None) \<noteq> (err = None)) \<and>
   (labelsOnce c \<longrightarrow>
      (\<exists>item err. GetLabel ctx k c h w = Some ((item, err), c, h, w) \<and>
         (item = None) \<noteq> (err = None))) \<and>
   (\<forall>item err s. GetWorkflowState ctx k c h w = Some ((item, err), s) \<longrightarrow>
      (item = None) \<noteq> (err = None)) \<and>
   (workflowStatesOnce c \<longrightarrow>
      (\<exists>item err. GetWorkflowState ctx k c h w = Some ((item, err), c, h, w) \<and>
         (item = None) \<noteq> (err = None))) \<and>
   (\<forall>item err s. GetTemplate ctx k c h w = ((item, err), s) \<longrightarrow>
      (item = None) \<noteq> (err = None)) \<and>
   (templatesOnce c \<longrightarrow>
      (\<exists>item err. GetTemplate ctx k c h w = ((item, err), c, h, w) \<and>
         (item = None) \<noteq> (err = None))) \<and>
   (\<forall>item err s. GetTeamByKey ctx k c h w = Some ((item, err), s) \<longrightarrow>
      (item = None) \<noteq> (err = None)) \<and>
   (teamsOnce c \<longrightarrow>
      (\<exists>item err. GetTeamByKey ctx k c h w = Some ((item, err), c, h, w) \<and>
         (item = None) \<noteq> (err = None)))"
  by (intro conjI allI impI GetLabel_one_of GetLabel_terminal GetWorkflowState_one_of
        GetWorkflowState_terminal GetTemplate_one_of GetTemplate_terminal
        GetTeamByKey_one_of GetTeamByKey_terminal)

theorem lookup_item_or_error_witness:
  "(\<exists>item err. GetLabel () ''l1'' settled_cache heap0 [] =
        Some ((item, err), settled_cache, heap0, []) \<and> (item = None) \<noteq> (err = None)) \<and>
   (\<exists>item err. GetWorkflowState () ''l1'' settled_cache heap0 [] =
        Some ((item, err), settled_cache, heap0, []) \<and> (item = None) \<noteq> (err = None)) \<and>
   (\<exists>item err. GetTemplate () ''l1'' settled_cache heap0 [] =
        ((item, err), settled_cache, heap0, []) \<and> (item = None) \<noteq> (err = None)) \<and>
   (\<exists>item err. GetTeamByKey () ''l1'' settled_cache heap0 [] =
        Some ((item, err), settled_cache, heap0, []) \<and> (item = None) \<noteq> (err = None))"
proof -
  note inst = lookup_item_or_error[of "()" "''l1''" settled_cache heap0 "[]"]
  have once: "labelsOnce settled_cache" "workflowStatesOnce settled_cache"
    "templatesOnce settled_cache" "teamsOnce settled_cache"
    by (simp_all add: settled_cache_def)
  from inst once show ?thesis by blast
qed

section \<open>The same key on two pages\<close>

lemma labels_entries_append: "labels_entries (xs @ ys) = labels_entries xs @ labels_entries ys"
  by (simp add: labels_entries_def)

lemma GetLabel_later_page:
  assumes "\<not> labelsOnce c" and "labelsErr c = None"
    and "labels_traversal (client c) ctx None w (before @ earlier # between @ later # after) =
      Some (None, w')"
    and "k \<in> fst ` set (labels_entries [earlier])"
    and "matching (labels_entries [later]) k = Some r"
    and "k \<notin> fst ` set (labels_entries after)"
  shows "\<exists>c' h' p. ensureLabels ctx c h w = Some (c', h', w') \<and>
     GetLabel ctx' k c' h' w' = Some ((Some p, None), c', h', w') \<and> IssueLabel_cells h' ! p = r"
proof -
  have "matching (labels_entries after) k = None"
    using assms(6) by (simp add: matching_None)
  then have "matching (labels_entries (later # after)) k = Some r"
    using assms(5) labels_entries_append[of "[later]" after]
    by (simp add: matching_append[of "labels_entries [later]"])
  then have "matching (labels_entries (before @ earlier # between @ later # after)) k = Some r"
    using labels_entries_append[of "before @ earlier # between" "later # after"]
    by (simp add: matching_append[of "labels_entries (before @ earlier # between)"])
  with GetLabel_populated[OF assms(1,2,3), of h ctx'] show ?thesis
    by blast
qed

lemma workflowStates_entries_append:
  "workflowStates_entries (xs @ ys) = workflowStates_entries xs @ workflowStates_entries ys"
  by (simp add: workflowStates_entries_def)

lemma GetWorkflowState_later_page:
  assumes "\<not> workflowStatesOnce c" and "workflowStatesErr c = None"
    and "workflowStates_traversal (client c) ctx None w (before @ earlier # between @ later # after) =
      Some (None, w')"
    and "k \<in> fst ` set (workflowStates_entries [earlier])"
    and "matching (workflowStates_entries [later]) k = Some r"
    and "k \<notin> fst ` set (workflowStates_entries after)"
  shows "\<exists>c' h' p. ensureWorkflowStates ctx c h w = Some (c', h', w') \<and>
     GetWorkflowState ctx' k c' h' w' = Some ((Some p, None), c', h', w') \<and> WorkflowState_cells h' ! p = r"
proof -
  have "matching (workflowStates_entries after) k = None"
    using assms(6) by (simp add: matching_None)
  then have "matching (workflowStates_entries (later # after)) k = Some r"
    using assms(5) workflowStates_entries_append[of "[later]" after]
    by (simp add: matching_append[of "workflowStates_entries [later]"])
  then have "matching (workflowStates_entries (before @ earlier # between @ later # after)) k = Some r"
    using workflowStates_entries_append[of "before @ earlier # between" "later # after"]
    by (simp add: matching_append[of "workflowStates_entries (before @ earlier # between)"])
  with GetWorkflowState_populated[OF assms(1,2,3), of h ctx'] show ?thesis
    by blast
qed

lemma teams_entries_append: "teams_entries (xs @ ys) = teams_entries xs @ teams_entries ys"
  by (simp add: teams_entries_def)

lemma GetTeamByKey_later_page:
  assumes "\<not> teamsOnce c" and "teamsErr c = None"
    and "teams_traversal (client c) ctx None w (before @ earlier # between @ later # after) =
      Some (None, w')"
    and "k \<in> fst ` set (teams_entries [earlier])"
    and "matching (teams_entries [later]) k = Some r"
    and "k \<notin> fst ` set (teams_entries after)"
  shows "\<exists>c' h' p. ensureTeams ctx c h w = Some (c', h', w') \<and>
     GetTeamByKey ctx' k c' h' w' = Some ((Some p, None), c', h', w') \<and> Team_cells h' ! p = r"
proof -
  have "matching (teams_entries after) k = None"
    using assms(6) by (simp add: matching_None)
  then have "matching (teams_entries (later # after)) k = Some r"
    using assms(5) teams_entries_append[of "[later]" after]
    by (simp add: matching_append[of "teams_entries [later]"])
  then have "matching (teams_entries (before @ earlier # between @ later # after)) k = Some r"
    using teams_entries_append[of "before @ earlier # between" "later # after"]
    by (simp add: matching_append[of "teams_entries (before @ earlier # between)"])
  with GetTeamByKey_populated[OF assms(1,2,3), of h ctx'] show ?thesis
    by blast
qed

text \<open>
  Claim C8. When an identifier of a label or of a workflow state, or the key of a team,
  is on two pages of a traversal that completes, the populated map holds for it the record
  of the later page (the last one of that page that carries it, and provided no page after
  it carries it again): the lookup returns a pointer to a cell with that record, without
  any error, whatever the earlier page held.
\<close>

theorem later_page_overwrites:
  "(\<not> labelsOnce c \<longrightarrow> labelsErr c = None \<longrightarrow>
    labels_traversal (client c) ctx None w (lbefore @ learlier # lbetween @ llater # lafter) =
      Some (None, wl) \<longrightarrow>
    k \<in> fst ` set (labels_entries [learlier]) \<longrightarrow>
    matching (labels_entries [llater]) k = Some label \<longrightarrow>
    k \<notin> fst ` set (labels_entries lafter) \<longrightarrow>
    (\<exists>c' h' p. ensureLabels ctx c h w = Some (c', h', wl) \<and>
       GetLabel ctx' k c' h' wl = Some ((Some p, None), c', h', wl) \<and>
       IssueLabel_cells h' ! p = label)) \<and>
   (\<not> workflowStatesOnce c \<longrightarrow> workflowStatesErr c = None \<longrightarrow>
    workflowStates_traversal (client c) ctx None w
        (sbefore @ searlier # sbetween @ slater # safter) = Some (None, ws) \<longrightarrow>
    k \<in> fst ` set (workflowStates_entries [searlier]) \<longrightarrow>
    matching (workflowStates_entries [slater]) k = Some state \<longrightarrow>
    k \<notin> fst ` set (workflowStates_entries safter) \<longrightarrow>
    (\<exists>c' h' p. ensureWorkflowStates ctx c h w = Some (c', h', ws) \<and>
       GetWorkflowState ctx' k c' h' ws = Some ((Some p, None), c', h', ws) \<and>
       WorkflowState_cells h' ! p = state)) \<and>
   (\<not> teamsOnce c \<longrightarrow> teamsErr c = None \<longrightarrow>
    teams_traversal (client c) ctx None w (tbefore @ tearlier # tbetween @ tlater # tafter) =
      Some (None, wm) \<longrightarrow>
    key \<in> fst ` set (teams_entries [tearlier]) \<longrightarrow>
    matching (teams_entries [tlater]) key = Some team \<longrightarrow>
    key \<notin> fst ` set (teams_entries tafter) \<longrightarrow>
    (\<exists>c' h' p. ensureTeams ctx c h w = Some (c', h', wm) \<and>
       GetTeamByKey ctx' key c' h' wm = Some ((Some p, None), c', h', wm) \<and>
       Team_cells h' ! p = team))"
  by (intro conjI impI GetLabel_later_page GetWorkflowState_later_page GetTeamByKey_later_page)

lemma twice_traversals:
  "labels_traversal twice_client () None []
     ([] @ labels_page [(''a'', ''first'')] True ''A'' # []
        @ labels_page [(''a'', ''second'')] False [] # []) = Some (None, [None, Some ''A''])"
  "workflowStates_traversal twice_client () None []
     ([] @ workflowStates_page [(''a'', ''T1'', ''first'')] True ''A'' # []
        @ workflowStates_page [(''a'', ''T2'', ''second'')] False [] # []) =
     Some (None, [None, Some ''A''])"
  "teams_traversal twice_client () None []
     ([] @ teams_page [(''id1'', ''ENG'', ''first'')] True ''A'' # []
        @ teams_page [(''id2'', ''ENG'', ''second'')] False [] # []) =
     Some (None, [None, Some ''A''])"
  by (simp_all add: twice_client_def remote_def serve_def twice_labels_def
      twice_workflowStates_def twice_teams_def labels_page_def workflowStates_page_def
      teams_page_def)

lemma twice_entries:
  "''a'' \<in> fst ` set (labels_entries [labels_page [(''a'', ''first'')] True ''A''])"
  "matching (labels_entries [labels_page [(''a'', ''second'')] False []]) ''a'' =
     Some \<lparr>IssueLabel_Id = ''a'', IssueLabel_fields = ''second''\<rparr>"
  "''a'' \<notin> fst ` set (labels_entries ([] :: string listAllLabelsPageResponse list))"
  "''a'' \<in> fst ` set (workflowStates_entries
     [workflowStates_page [(''a'', ''T1'', ''first'')] True ''A''])"
  "matching (workflowStates_entries
     [workflowStates_page [(''a'', ''T2'', ''second'')] False []]) ''a'' =
     Some \<lparr>WorkflowState_Id = ''a'', WorkflowState_Team = \<lparr>WorkflowStateTeam_Id = ''T2''\<rparr>,
           WorkflowState_fields = ''second''\<rparr>"
  "''a'' \<notin> fst ` set
     (workflowStates_entries ([] :: string listAllWorkflowStatesPageResponse list))"
  "''ENG'' \<in> fst ` set (teams_entries [teams_page [(''id1'', ''ENG'', ''first'')] True ''A''])"
  "matching (teams_entries [teams_page [(''id2'', ''ENG'', ''second'')] False []]) ''ENG'' =
     Some \<lparr>Team_Id = ''id2'', Team_Key = ''ENG'', Team_fields = ''second''\<rparr>"
  "''ENG'' \<notin> fst ` set (teams_entries ([] :: string listAllTeamsPageResponse list))"
  by (simp_all add: labels_entries_def workflowStates_entries_def teams_entries_def
      labels_page_def workflowStates_page_def teams_page_def matching_def)

theorem later_page_overwrites_witness:
  "(\<exists>c' h' p. ensureLabels () (newBulkCache twice_client) heap0 [] =
        Some (c', h', [None, Some ''A'']) \<and>
      GetLabel () ''a'' c' h' [None, Some ''A''] =
        Some ((Some p, None), c', h', [None, Some ''A'']) \<and>
      IssueLabel_cells h' ! p = \<lparr>IssueLabel_Id = ''a'', IssueLabel_fields = ''second''\<rparr>) \<and>
   (\<exists>c' h' p. ensureWorkflowStates () (newBulkCache twice_client) heap0 [] =
        Some (c', h', [None, Some ''A'']) \<and>
      GetWorkflowState () ''a'' c' h' [None, Some ''A''] =
        Some ((Some p, None), c', h', [None, Some ''A'']) \<and>
      WorkflowState_cells h' ! p =
        \<lparr>WorkflowState_Id = ''a'', WorkflowState_Team = \<lparr>WorkflowStateTeam_Id = ''T2''\<rparr>,
         WorkflowState_fields = ''second''\<rparr>) \<and>
   (\<exists>c' h' p. ensureTeams () (newBulkCache twice_client) heap0 [] =
        Some (c', h', [None, Some ''A'']) \<and>
      GetTeamByKey () ''ENG'' c' h' [None, Some ''A''] =
        Some ((Some p, None), c', h', [None, Some ''A'']) \<and>
      Team_cells h' ! p = \<lparr>Team_Id = ''id2'', Team_Key = ''ENG'', Team_fields = ''second''\<rparr>)"
proof -
  note inst = later_page_overwrites[where c = "newBulkCache twice_client" and ctx = "()"
      and w = "[]" and h = heap0 and ctx' = "()" and k = "''a''" and key = "''ENG''"
      and wl = "[None, Some ''A'']" and ws = "[None, Some ''A'']" and wm = "[None, Some ''A'']",
      unfolded newBulkCache_fresh(1)]
  note L = inst[THEN conjunct1, rule_format,
      OF newBulkCache_fresh(2,3) twice_traversals(1) twice_entries(1,2,3)]
  note S = inst[THEN conjunct2, THEN conjunct1, rule_format,
      OF newBulkCache_fresh(4,5) twice_traversals(2) twice_entries(4,5,6)]
  note M = inst[THEN conjunct2, THEN conjunct2, rule_format,
      OF newBulkCache_fresh(8,9) twice_traversals(3) twice_entries(7,8,9)]
  from L S M show ?thesis by (intro conjI)
qed

section \<open>Teams by key\<close>

lemma teams_entries_key: "(key, team) \<in> set (teams_entries pages) \<Longrightarrow> key = Team_Key team"
  by (auto simp: teams_entries_def)

lemma twice_teams_traversal:
  "teams_traversal twice_client () None [] twice_teams = Some (None, [None, Some ''A''])"
  by (simp add: twice_client_def remote_def serve_def twice_teams_def teams_page_def)

lemma twice_teams_entries:
  "teams_entries twice_teams =
     [(''ENG'', \<lparr>Team_Id = ''id1'', Team_Key = ''ENG'', Team_fields = ''first''\<rparr>),
      (''ENG'', \<lparr>Team_Id = ''id2'', Team_Key = ''ENG'', Team_fields = ''second''\<rparr>)]"
  by (simp add: teams_entries_def twice_teams_def teams_page_def)

lemma twice_teams_populated:
  "ensureTeams () (newBulkCache twice_client) heap0 [] =
     Some (twice_teams_cache, twice_teams_heap, [None, Some ''A''])"
proof -
  have "fst (store_all (teams_entries twice_teams) Map.empty (Team_cells heap0)) =
      [''ENG'' \<mapsto> 1]"
    by (simp add: twice_teams_entries heap0_def)
  then show ?thesis
    using ensureTeams_traversal[of "newBulkCache twice_client" "()" "[]" twice_teams None
        "[None, Some ''A'']" heap0]
    by (simp add: newBulkCache_fresh twice_teams_traversal twice_teams_cache_def
        twice_teams_heap_def twice_teams_entries heap0_def)
qed

text \<open>
  Claim C7, as it is stated, fails: the remote hands out two teams with the key
  \<^verbatim>\<open>ENG\<close>, the population completes without error, and \<^verbatim>\<open>GetTeamByKey\<close> of the key of the
  first team returns the second team.
\<close>

theorem team_by_key_counterexample:
  "ensureTeams () (newBulkCache twice_client) heap0 [] =
     Some (twice_teams_cache, twice_teams_heap, [None, Some ''A'']) \<and>
   teamsErr twice_teams_cache = None \<and>
   \<lparr>Team_Id = ''id1'', Team_Key = ''ENG'', Team_fields = ''first''\<rparr>
     \<in> Team ` set (concat (map (\<lambda>page. Nodes (Teams page)) twice_teams)) \<and>
   GetTeamByKey ()
       (Team_Key \<lparr>Team_Id = ''id1'', Team_Key = ''ENG'', Team_fields = ''first''\<rparr>)
       twice_teams_cache twice_teams_heap [None, Some ''A''] =
     Some ((Some 1, None), twice_teams_cache, twice_teams_heap, [None, Some ''A'']) \<and>
   Team_cells twice_teams_heap ! 1 =
     \<lparr>Team_Id = ''id2'', Team_Key = ''ENG'', Team_fields = ''second''\<rparr> \<and>
   Team_cells twice_teams_heap ! 1 \<noteq>
     \<lparr>Team_Id = ''id1'', Team_Key = ''ENG'', Team_fields = ''first''\<rparr>"
proof -
  have "teamsOnce twice_teams_cache" "teamsErr twice_teams_cache = None"
    "map_index (teamsByKey twice_teams_cache) ''ENG'' = Some 1"
    by (simp_all add: twice_teams_cache_def newBulkCache_def map_index_def)
  then show ?thesis
    by (simp add: twice_teams_populated GetTeamByKey_done twice_teams_def teams_page_def
        twice_teams_heap_def)
qed

text \<open>
  Claim C7, amended. The map of the teams is keyed by the key of each team and not by its
  identifier: after a population that completes without error its keys are the keys of the
  teams fetched, and for every team fetched whose key no team fetched after it carries,
  which is every team when the keys differ, \<^verbatim>\<open>GetTeamByKey\<close> of its key returns a
  pointer to a cell that holds this team.
\<close>

theorem team_by_key:
  "\<not> teamsOnce c \<longrightarrow> teamsErr c = None \<longrightarrow>
   teams_traversal (client c) ctx None w pages = Some (None, w') \<longrightarrow>
   teams_entries pages = before @ (key, team) # after \<longrightarrow>
   key \<notin> fst ` set after \<longrightarrow>
   (\<exists>c' h' m p. ensureTeams ctx c h w = Some (c', h', w') \<and>
      teamsByKey c' = Some m \<and>
      dom m = (\<lambda>node. Team_Key (Team node)) ` set (concat (map (\<lambda>page. Nodes (Teams page)) pages)) \<and>
      key = Team_Key team \<and>
      GetTeamByKey ctx' (Team_Key team) c' h' w' = Some ((Some p, None), c', h', w') \<and>
      Team_cells h' ! p = team)"
proof (intro impI)
  assume a: "\<not> teamsOnce c" "teamsErr c = None"
    "teams_traversal (client c) ctx None w pages = Some (None, w')"
    and split: "teams_entries pages = before @ (key, team) # after"
    and last: "key \<notin> fst ` set after"
  let ?m = "fst (store_all (teams_entries pages) Map.empty (Team_cells h))"
  let ?c = "c\<lparr>teamsByKey := Some ?m, teamsErr := None, teamsOnce := True\<rparr>"
  let ?h = "h\<lparr>Team_cells := Team_cells h @ map snd (teams_entries pages)\<rparr>"
  have ens: "ensureTeams ctx c h w = Some (?c, ?h, w')"
    using ensureTeams_traversal[OF a(1,3), of h] a(2) by simp
  have key: "key = Team_Key team"
    by (rule teams_entries_key[of _ _ pages]) (simp add: split)
  have "matching (teams_entries pages) key = Some team"
    unfolding split using last by (rule matching_last)
  from populated_lookup[OF this, of "Team_cells h"] obtain p where
    p: "?m key = Some p" "(Team_cells h @ map snd (teams_entries pages)) ! p = team"
    by blast
  have dom: "dom ?m =
      (\<lambda>node. Team_Key (Team node)) ` set (concat (map (\<lambda>page. Nodes (Teams page)) pages))"
    by (simp add: store_all_empty_dom teams_entries_def image_image)
  have "GetTeamByKey ctx' (Team_Key team) ?c ?h w' = Some ((Some p, None), ?c, ?h, w')"
    using p(1) key by (simp add: GetTeamByKey_done map_index_def)
  with ens dom key p(2) show "\<exists>c' h' m p. ensureTeams ctx c h w = Some (c', h', w') \<and>
      teamsByKey c' = Some m \<and>
      dom m = (\<lambda>node. Team_Key (Team node)) ` set (concat (map (\<lambda>page. Nodes (Teams page)) pages)) \<and>
      key = Team_Key team \<and>
      GetTeamByKey ctx' (Team_Key team) c' h' w' = Some ((Some p, None), c', h', w') \<and>
      Team_cells h' ! p = team"
    by (intro exI[of _ ?c] exI[of _ ?h] exI[of _ ?m] exI[of _ p]) simp
qed

lemma demo_teams_split:
  "teams_entries demo_teams =
     [] @ (''ENG'', \<lparr>Team_Id = ''id1'', Team_Key = ''ENG'', Team_fields = ''engineering''\<rparr>)
        # [(''OPS'', \<lparr>Team_Id = ''id2'', Team_Key = ''OPS'', Team_fields = ''operations''\<rparr>)]"
  "''ENG'' \<notin> fst ` set
     [(''OPS'', \<lparr>Team_Id = ''id2'', Team_Key = ''OPS'', Team_fields = ''operations''\<rparr>)]"
  by (simp_all add: demo_teams_entries)

theorem team_by_key_witness:
  "\<exists>c' h' m p. ensureTeams () (newBulkCache demo_client) heap0 [] =
       Some (c', h', [None, Some ''A'']) \<and>
     teamsByKey c' = Some m \<and>
     dom m = (\<lambda>node. Team_Key (Team node)) `
       set (concat (map (\<lambda>page. Nodes (Teams page)) demo_teams)) \<and>
     ''ENG'' = Team_Key \<lparr>Team_Id = ''id1'', Team_Key = ''ENG'', Team_fields = ''engineering''\<rparr> \<and>
     GetTeamByKey ()
         (Team_Key \<lparr>Team_Id = ''id1'', Team_Key = ''ENG'', Team_fields = ''engineering''\<rparr>)
         c' h' [None, Some ''A''] =
       Some ((Some p, None), c', h', [None, Some ''A'']) \<and>
     Team_cells h' ! p = \<lparr>Team_Id = ''id1'', Team_Key = ''ENG'', Team_fields = ''engineering''\<rparr>"
  by (rule team_by_key[where c = "newBulkCache demo_client" and ctx' = "()",
        unfolded newBulkCache_fresh(1), rule_format,
        OF newBulkCache_fresh(8,9) demo_teams_traversal demo_teams_split])

section \<open>The populated map\<close>

lemma ensureLabels_union:
  assumes "\<not> labelsOnce c"
    and "labels_traversal (client c) ctx None w pages = Some (None, w')"
  shows "\<exists>c' h' m. ensureLabels ctx c h w = Some (c', h', w') \<and> labelsOnce c' \<and> labelsErr c' = labelsErr c \<and>
     labels c' = Some m \<and> dom m = fst ` set (labels_entries pages) \<and>
     (\<forall>k r. matching (labels_entries pages) k = Some r \<longrightarrow>
        (\<exists>p. m k = Some p \<and> p < length (IssueLabel_cells h') \<and> IssueLabel_cells h' ! p = r)) \<and>
     (distinct (map fst (labels_entries pages)) \<longrightarrow>
        map_len (labels c') = length (labels_entries pages))"
proof -
  let ?kvs = "labels_entries pages"
  let ?m = "fst (store_all ?kvs Map.empty (IssueLabel_cells h))"
  let ?c = "c\<lparr>labels := Some ?m, labelsErr := labelsErr c, labelsOnce := True\<rparr>"
  let ?h = "h\<lparr>IssueLabel_cells := IssueLabel_cells h @ map snd ?kvs\<rparr>"
  have ens: "ensureLabels ctx c h w = Some (?c, ?h, w')"
    using ensureLabels_traversal[OF assms, of h] by simp
  have dom: "dom ?m = fst ` set ?kvs"
    by (rule store_all_empty_dom)
  have found: "\<exists>p. ?m k = Some p \<and> p < length (IssueLabel_cells ?h) \<and> IssueLabel_cells ?h ! p = r"
    if "matching ?kvs k = Some r" for k r
    using populated_lookup[OF that, of "IssueLabel_cells h"] by simp
  have size: "map_len (labels ?c) = length ?kvs" if "distinct (map fst ?kvs)"
  proof -
    have "card (fst ` set ?kvs) = length (map fst ?kvs)"
      using distinct_card[OF that] by simp
    then show ?thesis by (simp add: map_len_def dom)
  qed
  from ens dom found size show ?thesis
    by (intro exI[of _ ?c] exI[of _ ?h] exI[of _ ?m]) simp
qed

lemma ensureWorkflowStates_union:
  assumes "\<not> workflowStatesOnce c"
    and "workflowStates_traversal (client c) ctx None w pages = Some (None, w')"
  shows "\<exists>c' h' m. ensureWorkflowStates ctx c h w = Some (c', h', w') \<and> workflowStatesOnce c' \<and> workflowStatesErr c' = workflowStatesErr c \<and>
     workflowStates c' = Some m \<and> dom m = fst ` set (workflowStates_entries pages) \<and>
     (\<forall>k r. matching (workflowStates_entries pages) k = Some r \<longrightarrow>
        (\<exists>p. m k = Some p \<and> p < length (WorkflowState_cells h') \<and> WorkflowState_cells h' ! p = r)) \<and>
     (distinct (map fst (workflowStates_entries pages)) \<longrightarrow>
        map_len (workflowStates c') = length (workflowStates_entries pages))"
proof -
  let ?kvs = "workflowStates_entries pages"
  let ?m = "fst (store_all ?kvs Map.empty (WorkflowState_cells h))"
  let ?c = "c\<lparr>workflowStates := Some ?m, workflowStatesErr := workflowStatesErr c, workflowStatesOnce := True\<rparr>"
  let ?h = "h\<lparr>WorkflowState_cells := WorkflowState_cells h @ map snd ?kvs\<rparr>"
  have ens: "ensureWorkflowStates ctx c h w = Some (?c, ?h, w')"
    using ensureWorkflowStates_traversal[OF assms, of h] by simp
  have dom: "dom ?m = fst ` set ?kvs"
    by (rule store_all_empty_dom)
  have found: "\<exists>p. ?m k = Some p \<and> p < length (WorkflowState_cells ?h) \<and> WorkflowState_cells ?h ! p = r"
    if "matching ?kvs k = Some r" for k r
    using populated_lookup[OF that, of "WorkflowState_cells h"] by simp
  have size: "map_len (workflowStates ?c) = length ?kvs" if "distinct (map fst ?kvs)"
  proof -
    have "card (fst ` set ?kvs) = length (map fst ?kvs)"
      using distinct_card[OF that] by simp
    then show ?thesis by (simp add: map_len_def dom)
  qed
  from ens dom found size show ?thesis
    by (intro exI[of _ ?c] exI[of _ ?h] exI[of _ ?m]) simp
qed

lemma ensureTeams_union:
  assumes "\<not> teamsOnce c"
    and "teams_traversal (client c) ctx None w pages = Some (None, w')"
  shows "\<exists>c' h' m. ensureTeams ctx c h w = Some (c', h', w') \<and> teamsOnce c' \<and> teamsErr c' = teamsErr c \<and>
     teamsByKey c' = Some m \<and> dom m = fst ` set (teams_entries pages) \<and>
     (\<forall>k r. matching (teams_entries pages) k = Some r \<longrightarrow>
        (\<exists>p. m k = Some p \<and> p < length (Team_cells h') \<and> Team_cells h' ! p = r)) \<and>
     (distinct (map fst (teams_entries pages)) \<longrightarrow>
        map_len (teamsByKey c') = length (teams_entries pages))"
proof -
  let ?kvs = "teams_entries pages"
  let ?m = "fst (store_all ?kvs Map.empty (Team_cells h))"
  let ?c = "c\<lparr>teamsByKey := Some ?m, teamsErr := teamsErr c, teamsOnce := True\<rparr>"
  let ?h = "h\<lparr>Team_cells := Team_cells h @ map snd ?kvs\<rparr>"
  have ens: "ensureTeams ctx c h w = Some (?c, ?h, w')"
    using ensureTeams_traversal[OF assms, of h] by simp
  have dom: "dom ?m = fst ` set ?kvs"
    by (rule store_all_empty_dom)
  have found: "\<exists>p. ?m k = Some p \<and> p < length (Team_cells ?h) \<and> Team_cells ?h ! p = r"
    if "matching ?kvs k = Some r" for k r
    using populated_lookup[OF that, of "Team_cells h"] by simp
  have size: "map_len (teamsByKey ?c) = length ?kvs" if "distinct (map fst ?kvs)"
  proof -
    have "card (fst ` set ?kvs) = length (map fst ?kvs)"
      using distinct_card[OF that] by simp
    then show ?thesis by (simp add: map_len_def dom)
  qed
  from ens dom found size show ?thesis
    by (intro exI[of _ ?c] exI[of _ ?h] exI[of _ ?m]) simp
qed

lemma dup_labels_traversal:
  "labels_traversal dup_client () None [] dup_labels = Some (None, [None, Some ''A''])"
  by (simp add: dup_client_def remote_def serve_def dup_labels_def labels_page_def)

lemma dup_labels_entries:
  "labels_entries dup_labels =
     [(''a'', \<lparr>IssueLabel_Id = ''a'', IssueLabel_fields = ''first''\<rparr>),
      (''a'', \<lparr>IssueLabel_Id = ''a'', IssueLabel_fields = ''second''\<rparr>),
      (''b'', \<lparr>IssueLabel_Id = ''b'', IssueLabel_fields = ''third''\<rparr>)]"
  by (simp add: labels_entries_def dup_labels_def labels_page_def)

lemma dup_labels_populated:
  "ensureLabels () (newBulkCache dup_client) heap0 [] =
     Some (dup_labels_cache, dup_labels_heap, [None, Some ''A''])"
proof -
  have "fst (store_all (labels_entries dup_labels) Map.empty (IssueLabel_cells heap0)) =
      [''a'' \<mapsto> 1, ''b'' \<mapsto> 2]"
    by (simp add: dup_labels_entries heap0_def numeral_2_eq_2)
  then show ?thesis
    using ensureLabels_traversal[of "newBulkCache dup_client" "()" "[]" dup_labels None
        "[None, Some ''A'']" heap0]
    by (simp add: newBulkCache_fresh dup_labels_traversal dup_labels_cache_def
        dup_labels_heap_def dup_labels_entries heap0_def)
qed

text \<open>
  Claim C3, as it is stated, fails in its last part: the remote hands out two pages of
  labels whose identifiers are disjoint across the pages, the first page holding the
  identifier \<^verbatim>\<open>a\<close> twice. The traversal completes, the dataset has three items and the
  populated map has two entries.
\<close>

theorem populated_size_counterexample:
  "labels_traversal dup_client () None [] dup_labels = Some (None, [None, Some ''A'']) \<and>
   fst ` set (labels_entries [dup_labels ! 0]) \<inter> fst ` set (labels_entries [dup_labels ! 1]) = {} \<and>
   ensureLabels () (newBulkCache dup_client) heap0 [] =
     Some (dup_labels_cache, dup_labels_heap, [None, Some ''A'']) \<and>
   labelsErr dup_labels_cache = None \<and>
   map_len (labels dup_labels_cache) = 2 \<and>
   length (labels_entries dup_labels) = 3 \<and>
   map_len (labels dup_labels_cache) \<noteq> length (labels_entries dup_labels)"
proof -
  have "fst ` set (labels_entries [dup_labels ! 0]) \<inter>
      fst ` set (labels_entries [dup_labels ! 1]) = {}"
    by (simp add: labels_entries_def dup_labels_def labels_page_def)
  moreover have "map_len (labels dup_labels_cache) = 2"
    by (simp add: dup_labels_cache_def map_len_def)
  moreover have "labelsErr dup_labels_cache = None"
    by (simp add: dup_labels_cache_def newBulkCache_def)
  ultimately show ?thesis
    by (simp add: dup_labels_traversal dup_labels_populated dup_labels_entries)
qed

text \<open>
  Claim C3, amended. The populate routine of a paginated category asks the remote first
  with the \<^verbatim>\<open>nil\<close> cursor and then, after every page that announces a next page, with the
  end cursor of that page, and stops at the first page that announces none: whenever the
  remote answers these requests with a list of pages, the routine returns, in the world
  that the last of these requests left. Every item of every page is merged: the keys of
  the map are the keys of all items, and each key points to a cell that holds the matching
  record. The size of the map is the number of items when the keys of all items of the
  dataset differ, within each page as well as across pages.
\<close>

theorem populated_map:
  "(\<not> labelsOnce c \<longrightarrow>
    labels_traversal (client c) ctx None w lpages = Some (None, wl) \<longrightarrow>
    (\<exists>c' h' m. ensureLabels ctx c h w = Some (c', h', wl) \<and>
       labelsOnce c' \<and> labelsErr c' = labelsErr c \<and>
       labels c' = Some m \<and> dom m = fst ` set (labels_entries lpages) \<and>
       (\<forall>k r. matching (labels_entries lpages) k = Some r \<longrightarrow>
          (\<exists>p. m k = Some p \<and> p < length (IssueLabel_cells h') \<and> IssueLabel_cells h' ! p = r)) \<and>
       (distinct (map fst (labels_entries lpages)) \<longrightarrow>
          map_len (labels c') = length (labels_entries lpages)))) \<and>
   (\<not> workflowStatesOnce c \<longrightarrow>
    workflowStates_traversal (client c) ctx None w spages = Some (None, ws) \<longrightarrow>
    (\<exists>c' h' m. ensureWorkflowStates ctx c h w = Some (c', h', ws) \<and>
       workflowStatesOnce c' \<and> workflowStatesErr c' = workflowStatesErr c \<and>
       workflowStates c' = Some m \<and> dom m = fst ` set (workflowStates_entries spages) \<and>
       (\<forall>k r. matching (workflowStates_entries spages) k = Some r \<longrightarrow>
          (\<exists>p. m k = Some p \<and> p < length (WorkflowState_cells h') \<and>
               WorkflowState_cells h' ! p = r)) \<and>
       (distinct (map fst (workflowStates_entries spages)) \<longrightarrow>
          map_len (workflowStates c') = length (workflowStates_entries spages)))) \<and>
   (\<not> teamsOnce c \<longrightarrow>
    teams_traversal (client c) ctx None w tpages = Some (None, wm) \<longrightarrow>
    (\<exists>c' h' m. ensureTeams ctx c h w = Some (c', h', wm) \<and>
       teamsOnce c' \<and> teamsErr c' = teamsErr c \<and>
       teamsByKey c' = Some m \<and> dom m = fst ` set (teams_entries tpages) \<and>
       (\<forall>k r. matching (teams_entries tpages) k = Some r \<longrightarrow>
          (\<exists>p. m k = Some p \<and> p < length (Team_cells h') \<and> Team_cells h' ! p = r)) \<and>
       (distinct (map fst (teams_entries tpages)) \<longrightarrow>
          map_len (teamsByKey c') = length (teams_entries tpages))))"
  by (intro conjI impI ensureLabels_union ensureWorkflowStates_union ensureTeams_union)

lemma instance_union:
  assumes "\<exists>c' h' m. E c' h' \<and> Q c' \<and> R c' \<and> Mp c' m \<and> dom m = S \<and> F c' h' m \<and> (D \<longrightarrow> L c' = n)"
    and "D" and "S = S'" and "n = n'"
  shows "\<exists>c' h' m. E c' h' \<and> Mp c' m \<and> dom m = S' \<and> L c' = n'"
  using assms by blast

lemma demo_distinct:
  "distinct (map fst (labels_entries demo_labels))"
  "fst ` set (labels_entries demo_labels) = {''l1'', ''l2'', ''l3'', ''l4''}"
  "length (labels_entries demo_labels) = 4"
  "distinct (map fst (workflowStates_entries demo_workflowStates))"
  "fst ` set (workflowStates_entries demo_workflowStates) = {''s1'', ''s2'', ''s3''}"
  "length (workflowStates_entries demo_workflowStates) = 3"
  "distinct (map fst (teams_entries demo_teams))"
  "fst ` set (teams_entries demo_teams) = {''ENG'', ''OPS''}"
  "length (teams_entries demo_teams) = 2"
  by (simp_all add: demo_labels_entries demo_workflowStates_entries demo_teams_entries)

theorem populated_map_witness:
  "(\<exists>c' h' m. ensureLabels () (newBulkCache demo_client) heap0 [] =
        Some (c', h', [None, Some ''A'', Some ''B'']) \<and>
      labels c' = Some m \<and> dom m = {''l1'', ''l2'', ''l3'', ''l4''} \<and>
      map_len (labels c') = 4) \<and>
   (\<exists>c' h' m. ensureWorkflowStates () (newBulkCache demo_client) heap0 [] =
        Some (c', h', [None, Some ''A'']) \<and>
      workflowStates c' = Some m \<and> dom m = {''s1'', ''s2'', ''s3''} \<and>
      map_len (workflowStates c') = 3) \<and>
   (\<exists>c' h' m. ensureTeams () (newBulkCache demo_client) heap0 [] =
        Some (c', h', [None, Some ''A'']) \<and>
      teamsByKey c' = Some m \<and> dom m = {''ENG'', ''OPS''} \<and>
      map_len (teamsByKey c') = 2)"
proof -
  note inst = populated_map[where c = "newBulkCache demo_client" and ctx = "()"
      and w = "[]" and h = heap0, unfolded newBulkCache_fresh(1)]
  note L = instance_union[OF inst[THEN conjunct1, rule_format,
        OF newBulkCache_fresh(2) demo_labels_traversal] demo_distinct(1,2,3)]
  note S = instance_union[OF inst[THEN conjunct2, THEN conjunct1, rule_format,
        OF newBulkCache_fresh(4) demo_workflowStates_traversal] demo_distinct(4,5,6)]
  note M = instance_union[OF inst[THEN conjunct2, THEN conjunct2, rule_format,
        OF newBulkCache_fresh(8) demo_teams_traversal] demo_distinct(7,8,9)]
  from L S M show ?thesis by (intro conjI)
qed

section \<open>The scan by team\<close>

lemma workflowStates_scan_in_heap:
  "in_heap cells m \<Longrightarrow>
   workflowStates_scan teamID cells m order result =
     Some (result @ filter (owned_by teamID) (List.map_filter (deref cells m) order))"
proof (induction order arbitrary: result)
  case Nil
  then show ?case by simp
next
  case (Cons k order)
  show ?case
  proof (cases "m k")
    case None
    then have "deref cells m k = None" by (simp add: deref_None)
    with None Cons show ?thesis by simp
  next
    case (Some p)
    with Cons.prems have "p < length cells" by (simp add: in_heap_def)
    moreover from Some have "deref cells m k = Some (cells ! p)" by (simp add: deref_Some)
    ultimately show ?thesis
      using Some Cons by (simp add: owned_by_def)
  qed
qed

lemma workflowStates_scan_Some:
  "workflowStates_scan teamID cells m order result = Some r \<Longrightarrow>
   k \<in> set order \<Longrightarrow> m k = Some p \<Longrightarrow> p < length cells"
proof (induction order arbitrary: result)
  case Nil
  then show ?case by simp
next
  case (Cons k' order)
  show ?case
  proof (cases "k = k'")
    case True
    with Cons.prems show ?thesis by (auto split: if_splits)
  next
    case False
    with Cons.prems have "k \<in> set order" by simp
    with Cons.prems(1,3) Cons.IH show ?thesis
      by (auto split: option.splits if_splits)
  qed
qed

lemma map_filter_mset:
  "set ks \<subseteq> dom f \<Longrightarrow> mset (List.map_filter f ks) = image_mset (\<lambda>k. the (f k)) (mset ks)"
  by (induction ks) auto

lemma distinct_same_set_mset:
  "distinct xs \<Longrightarrow> distinct ys \<Longrightarrow> set xs = set ys \<Longrightarrow> mset xs = mset ys"
  by (simp add: set_eq_iff_mset_eq_distinct)

lemma dom_deref: "dom (deref cells m) = dom m"
  by (auto simp: deref_def dom_def split: option.splits)

lemma scan_order_independent:
  assumes "distinct o1" "set o1 = dom m" "distinct o2" "set o2 = dom m"
  shows "mset (filter P (List.map_filter (deref cells m) o1)) =
         mset (filter P (List.map_filter (deref cells m) o2))"
proof -
  have eq: "mset o1 = mset o2"
    using assms by (intro distinct_same_set_mset) simp_all
  have sub: "set o1 \<subseteq> dom (deref cells m)" "set o2 \<subseteq> dom (deref cells m)"
    using assms by (simp_all add: dom_deref)
  have "mset (List.map_filter (deref cells m) o1) = mset (List.map_filter (deref cells m) o2)"
    unfolding map_filter_mset[OF sub(1)] map_filter_mset[OF sub(2)] eq ..
  then show ?thesis
    by (simp only: mset_filter)
qed

lemma cached_distinct: "distinct (map fst kvs) \<Longrightarrow> cached kvs = map snd kvs"
proof -
  assume d: "distinct (map fst kvs)"
  have "the (matching kvs (fst x)) = snd x" if "x \<in> set kvs" for x
    using matching_distinct[OF d, of "fst x" "snd x"] that by simp
  then have "map (\<lambda>k. the (matching kvs k)) (map fst kvs) = map snd kvs"
    by simp
  then show ?thesis
    unfolding cached_def distinct_remdups_id[OF d] .
qed

lemma scan_dataset:
  assumes "distinct order" "set order = fst ` set kvs"
  shows "mset (List.map_filter (matching kvs) order) = mset (cached kvs)"
proof -
  have eq: "mset order = mset (remdups (map fst kvs))"
    using assms by (intro distinct_same_set_mset) simp_all
  have sub: "set order \<subseteq> dom (matching kvs)"
    using assms(2) matching_None[of kvs] by (auto simp: dom_def)
  show ?thesis
    unfolding map_filter_mset[OF sub] eq cached_def by simp
qed

lemma GetWorkflowStatesByTeamID_done:
  assumes "workflowStatesOnce c" and "workflowStatesErr c = None"
    and "workflowStates c = Some m" and "in_heap (WorkflowState_cells h) m"
  shows "GetWorkflowStatesByTeamID ctx order teamID c h w =
     (let result = filter (owned_by teamID) (List.map_filter (deref (WorkflowState_cells h) m) order)
      in if result = [] then Some ((None, None), c, h, w)
         else Some ((Some (length (WorkflowState_slices h)), None), c,
                    h\<lparr>WorkflowState_slices := WorkflowState_slices h @ [result]\<rparr>, w))"
  using assms
  by (simp add: GetWorkflowStatesByTeamID_def ensureWorkflowStates_done
      workflowStates_scan_in_heap Let_def)

lemma GetWorkflowStatesByTeamID_elems:
  assumes "workflowStatesOnce c" and "workflowStatesErr c = None"
    and "workflowStates c = Some m" and "in_heap (WorkflowState_cells h) m"
  shows "\<exists>s h'. GetWorkflowStatesByTeamID ctx order teamID c h w = Some ((s, None), c, h', w) \<and>
     slice_elems h' s =
       filter (owned_by teamID) (List.map_filter (deref (WorkflowState_cells h) m) order) \<and>
     (slice_elems h' s = [] \<longrightarrow> s = None \<and> h' = h)"
proof (cases "filter (owned_by teamID) (List.map_filter (deref (WorkflowState_cells h) m) order) = []")
  case True
  then show ?thesis
    using GetWorkflowStatesByTeamID_done[OF assms, of ctx order teamID w]
    by (simp add: slice_elems_def)
next
  case False
  then show ?thesis
    using GetWorkflowStatesByTeamID_done[OF assms, of ctx order teamID w]
    by (simp add: slice_elems_def)
qed

lemma GetWorkflowStatesByTeamID_populated:
  assumes "\<not> workflowStatesOnce c" and "workflowStatesErr c = None"
    and "workflowStates_traversal (client c) ctx None w pages = Some (None, w')"
  shows "\<exists>c' h'. ensureWorkflowStates ctx c h w = Some (c', h', w') \<and>
     (\<forall>ctx' ks t. distinct ks \<longrightarrow> set ks = fst ` set (workflowStates_entries pages) \<longrightarrow>
        (\<exists>s h''. GetWorkflowStatesByTeamID ctx' ks t c' h' w' = Some ((s, None), c', h'', w') \<and>
           mset (slice_elems h'' s) =
             filter_mset (owned_by t) (mset (cached (workflowStates_entries pages))) \<and>
           (distinct (map fst (workflowStates_entries pages)) \<longrightarrow>
              mset (slice_elems h'' s) =
                mset (filter (owned_by t) (map snd (workflowStates_entries pages)))) \<and>
           (filter (owned_by t) (cached (workflowStates_entries pages)) = [] \<longrightarrow>
              s = None \<and> h'' = h')))"
proof -
  let ?kvs = "workflowStates_entries pages"
  let ?m = "fst (store_all ?kvs Map.empty (WorkflowState_cells h))"
  let ?cells = "WorkflowState_cells h @ map snd ?kvs"
  let ?c = "c\<lparr>workflowStates := Some ?m, workflowStatesErr := None, workflowStatesOnce := True\<rparr>"
  let ?h = "h\<lparr>WorkflowState_cells := ?cells\<rparr>"
  have ens: "ensureWorkflowStates ctx c h w = Some (?c, ?h, w')"
    using ensureWorkflowStates_traversal[OF assms(1,3), of h] assms(2) by simp
  have st: "workflowStatesOnce ?c" "workflowStatesErr ?c = None" "workflowStates ?c = Some ?m"
    "in_heap (WorkflowState_cells ?h) ?m"
    by (simp_all add: store_all_empty_in_heap)
  have dr: "deref (WorkflowState_cells ?h) ?m = matching ?kvs"
    by (simp add: store_all_empty_deref)
  have scan: "\<exists>s h''. GetWorkflowStatesByTeamID ctx' ks t ?c ?h w' = Some ((s, None), ?c, h'', w') \<and>
           mset (slice_elems h'' s) = filter_mset (owned_by t) (mset (cached ?kvs)) \<and>
           (distinct (map fst ?kvs) \<longrightarrow>
              mset (slice_elems h'' s) = mset (filter (owned_by t) (map snd ?kvs))) \<and>
           (filter (owned_by t) (cached ?kvs) = [] \<longrightarrow> s = None \<and> h'' = ?h)"
    if ks: "distinct ks" "set ks = fst ` set ?kvs" for ctx' ks t
  proof -
    from GetWorkflowStatesByTeamID_elems[OF st, of ctx' ks t w'] obtain s h'' where
      r: "GetWorkflowStatesByTeamID ctx' ks t ?c ?h w' = Some ((s, None), ?c, h'', w')"
        "slice_elems h'' s = filter (owned_by t) (List.map_filter (matching ?kvs) ks)"
        "slice_elems h'' s = [] \<longrightarrow> s = None \<and> h'' = ?h"
      unfolding dr by blast
    have m: "mset (slice_elems h'' s) = filter_mset (owned_by t) (mset (cached ?kvs))"
      unfolding r(2) mset_filter scan_dataset[OF ks] ..
    have d: "mset (slice_elems h'' s) = mset (filter (owned_by t) (map snd ?kvs))"
      if "distinct (map fst ?kvs)"
      using m cached_distinct[OF that] by simp
    have e: "s = None \<and> h'' = ?h" if "filter (owned_by t) (cached ?kvs) = []"
    proof -
      from that have "filter_mset (owned_by t) (mset (cached ?kvs)) = {#}"
        by (simp only: mset_filter[symmetric] mset.simps)
      with m have "slice_elems h'' s = []" by simp
      with r(3) show ?thesis by simp
    qed
    from r(1) m d e show ?thesis by blast
  qed
  from ens scan show ?thesis by blast
qed

text \<open>
  Claim C5. After a population of the workflow states that completed without error,
  \<^verbatim>\<open>GetWorkflowStatesByTeamID\<close> returns, in whichever order the runtime ranges over the map,
  no error and a slice whose elements are, as a multiset, the records of the map that
  belong to the team: the matching record of every identifier of the dataset, which is
  every record of the dataset when the identifiers differ. When no record belongs to the
  team the slice is the \<^verbatim>\<open>nil\<close> slice, of length zero, the error is \<^verbatim>\<open>nil\<close> and nothing is
  allocated. When the error slot of the category is set, the call returns the \<^verbatim>\<open>nil\<close>
  slice and that error.
\<close>

theorem scan_by_team:
  "(\<not> workflowStatesOnce c \<longrightarrow> workflowStatesErr c = None \<longrightarrow>
    workflowStates_traversal (client c) ctx None w pages = Some (None, w') \<longrightarrow>
    (\<exists>c' h'. ensureWorkflowStates ctx c h w = Some (c', h', w') \<and>
       (\<forall>ctx' ks t. distinct ks \<longrightarrow> set ks = fst ` set (workflowStates_entries pages) \<longrightarrow>
          (\<exists>s h''. GetWorkflowStatesByTeamID ctx' ks t c' h' w' = Some ((s, None), c', h'', w') \<and>
             mset (slice_elems h'' s) =
               filter_mset (owned_by t) (mset (cached (workflowStates_entries pages))) \<and>
             (distinct (map fst (workflowStates_entries pages)) \<longrightarrow>
                mset (slice_elems h'' s) =
                  mset (filter (owned_by t) (map snd (workflowStates_entries pages)))) \<and>
             (filter (owned_by t) (cached (workflowStates_entries pages)) = [] \<longrightarrow>
                s = None \<and> h'' = h'))))) \<and>
   (workflowStatesOnce c \<longrightarrow> workflowStatesErr c = Some err \<longrightarrow>
    GetWorkflowStatesByTeamID ctx order teamID c h w = Some ((None, Some err), c, h, w))"
  by (intro conjI impI GetWorkflowStatesByTeamID_populated GetWorkflowStatesByTeamID_failed)

lemma instance_scan:
  assumes "\<exists>c' h'. E c' h' \<and>
      (\<forall>ctx' ks t. distinct ks \<longrightarrow> set ks = S \<longrightarrow>
         (\<exists>s h''. G ctx' ks t c' h' s h'' \<and> M h'' s = X t \<and> (D \<longrightarrow> M h'' s = Y t) \<and>
            (Z t \<longrightarrow> s = None \<and> h'' = h')))"
    and "distinct order" and "set order = S" and "D" and "Y ta = V" and "Z tb"
  shows "\<exists>c' h'. E c' h' \<and> (\<exists>s h''. G x order ta c' h' s h'' \<and> M h'' s = V) \<and>
     G x order tb c' h' None h'"
proof -
  from assms(1) obtain c' h' where e: "E c' h'"
    and a: "\<And>ctx' ks t. distinct ks \<Longrightarrow> set ks = S \<Longrightarrow>
         \<exists>s h''. G ctx' ks t c' h' s h'' \<and> M h'' s = X t \<and> (D \<longrightarrow> M h'' s = Y t) \<and>
            (Z t \<longrightarrow> s = None \<and> h'' = h')"
    by blast
  from a[OF assms(2,3), of x ta] assms(4,5)
  have 1: "\<exists>s h''. G x order ta c' h' s h'' \<and> M h'' s = V" by auto
  from a[OF assms(2,3), of x tb] assms(6)
  have 2: "G x order tb c' h' None h'" by auto
  from e 1 2 show ?thesis by blast
qed

lemma demo_scan_facts:
  "distinct [''s3'', ''s1'', ''s2'']"
  "set [''s3'', ''s1'', ''s2''] = fst ` set (workflowStates_entries demo_workflowStates)"
  "distinct (map fst (workflowStates_entries demo_workflowStates))"
  "mset (filter (owned_by ''T1'') (map snd (workflowStates_entries demo_workflowStates))) =
     {#\<lparr>WorkflowState_Id = ''s1'', WorkflowState_Team = \<lparr>WorkflowStateTeam_Id = ''T1''\<rparr>,
        WorkflowState_fields = ''todo''\<rparr>,
       \<lparr>WorkflowState_Id = ''s2'', WorkflowState_Team = \<lparr>WorkflowStateTeam_Id = ''T1''\<rparr>,
        WorkflowState_fields = ''done''\<rparr>#}"
  "filter (owned_by ''T3'') (cached (workflowStates_entries demo_workflowStates)) = []"
  by (auto simp: demo_workflowStates_entries owned_by_def cached_def matching_def)

theorem scan_by_team_witness:
  "(\<exists>c' h'. ensureWorkflowStates () (newBulkCache demo_client) heap0 [] =
        Some (c', h', [None, Some ''A'']) \<and>
      (\<exists>s h''. GetWorkflowStatesByTeamID () [''s3'', ''s1'', ''s2''] ''T1'' c' h' [None, Some ''A''] =
           Some ((s, None), c', h'', [None, Some ''A'']) \<and>
         mset (slice_elems h'' s) =
           {#\<lparr>WorkflowState_Id = ''s1'', WorkflowState_Team = \<lparr>WorkflowStateTeam_Id = ''T1''\<rparr>,
              WorkflowState_fields = ''todo''\<rparr>,
             \<lparr>WorkflowState_Id = ''s2'', WorkflowState_Team = \<lparr>WorkflowStateTeam_Id = ''T1''\<rparr>,
              WorkflowState_fields = ''done''\<rparr>#}) \<and>
      GetWorkflowStatesByTeamID () [''s3'', ''s1'', ''s2''] ''T3'' c' h' [None, Some ''A''] =
        Some ((None, None), c', h', [None, Some ''A''])) \<and>
   GetWorkflowStatesByTeamID () [] ''T1'' settled_cache heap0 [] =
     Some ((None, Some (ClientError ''request failed'')), settled_cache, heap0, [])"
proof -
  note inst = scan_by_team[where c = "newBulkCache demo_client" and ctx = "()" and w = "[]"
      and h = heap0 and pages = demo_workflowStates and w' = "[None, Some ''A'']",
      unfolded newBulkCache_fresh(1)]
  note P = instance_scan[where x = "()" and order = "[''s3'', ''s1'', ''s2'']"
      and ta = "''T1''" and tb = "''T3''"
      and S = "fst ` set (workflowStates_entries demo_workflowStates)"
      and D = "distinct (map fst (workflowStates_entries demo_workflowStates))"
      and Y = "\<lambda>t. mset (filter (owned_by t)
          (map snd (workflowStates_entries demo_workflowStates)))"
      and Z = "\<lambda>t. filter (owned_by t)
          (cached (workflowStates_entries demo_workflowStates)) = []",
      OF inst[THEN conjunct1, rule_format,
        OF newBulkCache_fresh(4,5) demo_workflowStates_traversal] demo_scan_facts]
  have s: "workflowStatesOnce settled_cache"
    "workflowStatesErr settled_cache = Some (ClientError ''request failed'')"
    by (simp_all add: settled_cache_def)
  note F = scan_by_team[where c = settled_cache and ctx = "()" and w = "[]" and h = heap0
      and order = "[]" and teamID = "''T1''", THEN conjunct2, rule_format, OF s]
  from P F show ?thesis by (intro conjI)
qed

section \<open>The slice of a scan\<close>

lemma workflowStates_scan_subset:
  "workflowStates_scan teamID cells m order result = Some r \<Longrightarrow>
   set r \<subseteq> set result \<union> set cells"
proof (induction order arbitrary: result)
  case Nil
  then show ?case by auto
next
  case (Cons k order)
  show ?case
  proof (cases "m k")
    case None
    with Cons show ?thesis by simp
  next
    case (Some p)
    with Cons.prems have p: "p < length cells"
      by (auto split: if_splits)
    show ?thesis
    proof (cases "WorkflowStateTeam_Id (WorkflowState_Team (cells ! p)) = teamID")
      case True
      with Some p Cons.prems
      have "workflowStates_scan teamID cells m order (result @ [cells ! p]) = Some r"
        by simp
      from Cons.IH[OF this] p show ?thesis by auto
    next
      case False
      with Some p Cons.prems
      have "workflowStates_scan teamID cells m order result = Some r"
        by simp
      from Cons.IH[OF this] show ?thesis .
    qed
  qed
qed

lemma GetWorkflowStatesByTeamID_frame:
  assumes "workflowStatesOnce c"
    and "GetWorkflowStatesByTeamID ctx order teamID c h w = Some ((s, e), c', h', w')"
  shows "c' = c \<and> w' = w \<and>
     (s = None \<and> h' = h \<or>
      (\<exists>r. s = Some (length (WorkflowState_slices h)) \<and> e = None \<and>
         h' = h\<lparr>WorkflowState_slices := WorkflowState_slices h @ [r]\<rparr>)) \<and>
     set (slice_elems h' s) \<subseteq> set (WorkflowState_cells h)"
proof (cases "workflowStatesErr c")
  case (Some err)
  with assms show ?thesis
    by (simp add: GetWorkflowStatesByTeamID_failed slice_elems_def)
next
  case None
  show ?thesis
  proof (cases "workflowStates c")
    case nil: None
    with None assms show ?thesis
      by (simp add: GetWorkflowStatesByTeamID_def ensureWorkflowStates_done slice_elems_def)
  next
    case (Some m)
    with None assms obtain r where
      r: "workflowStates_scan teamID (WorkflowState_cells h) m order [] = Some r"
      by (auto simp: GetWorkflowStatesByTeamID_def ensureWorkflowStates_done
          split: option.splits)
    from workflowStates_scan_subset[OF r] have sub: "set r \<subseteq> set (WorkflowState_cells h)"
      by simp
    show ?thesis
    proof (cases "r = []")
      case True
      with None Some r assms show ?thesis
        by (simp add: GetWorkflowStatesByTeamID_def ensureWorkflowStates_done slice_elems_def)
    next
      case False
      with None Some r assms sub show ?thesis
        by (auto simp: GetWorkflowStatesByTeamID_def ensureWorkflowStates_done slice_elems_def)
    qed
  qed
qed

lemma slice_store_cells:
  "IssueLabel_cells (slice_store h a i v) = IssueLabel_cells h"
  "WorkflowState_cells (slice_store h a i v) = WorkflowState_cells h"
  "Template_cells (slice_store h a i v) = Template_cells h"
  "Team_cells (slice_store h a i v) = Team_cells h"
  by (simp_all add: slice_store_def)

lemma GetWorkflowStatesByTeamID_copies:
  assumes "workflowStatesOnce c"
    and "GetWorkflowStatesByTeamID ctx order teamID c h w = Some ((s, e), c', h', w')"
  shows "c' = c \<and> w' = w \<and>
     IssueLabel_cells h' = IssueLabel_cells h \<and> WorkflowState_cells h' = WorkflowState_cells h \<and>
     Template_cells h' = Template_cells h \<and> Team_cells h' = Team_cells h \<and>
     take (length (WorkflowState_slices h)) (WorkflowState_slices h') = WorkflowState_slices h \<and>
     set (slice_elems h' s) \<subseteq> set (WorkflowState_cells h) \<and>
     (\<forall>a i v. WorkflowState_cells (slice_store h' a i v) = WorkflowState_cells h)"
proof -
  note f = GetWorkflowStatesByTeamID_frame[OF assms]
  from f have st: "c' = c" "w' = w"
    and sub: "set (slice_elems h' s) \<subseteq> set (WorkflowState_cells h)"
    by simp_all
  from f have "h' = h \<or> (\<exists>r. h' = h\<lparr>WorkflowState_slices := WorkflowState_slices h @ [r]\<rparr>)"
    by blast
  then have cells: "IssueLabel_cells h' = IssueLabel_cells h"
    "WorkflowState_cells h' = WorkflowState_cells h"
    "Template_cells h' = Template_cells h" "Team_cells h' = Team_cells h"
    "take (length (WorkflowState_slices h)) (WorkflowState_slices h') = WorkflowState_slices h"
    by auto
  show ?thesis
    unfolding st using sub cells by (simp add: slice_store_cells)
qed

lemma GetWorkflowStatesByTeamID_repeat:
  assumes once: "workflowStatesOnce c" and m: "workflowStates c = Some m"
    and o1: "distinct o1" "set o1 = dom m" and o2: "distinct o2" "set o2 = dom m"
    and call: "GetWorkflowStatesByTeamID ctx o1 teamID c h w = Some ((s, e), c', h', w')"
    and heap: "WorkflowState_cells h2 = WorkflowState_cells h'"
  shows "\<exists>s2 h3. GetWorkflowStatesByTeamID ctx2 o2 teamID c' h2 w' = Some ((s2, e), c', h3, w') \<and>
     mset (slice_elems h3 s2) = mset (slice_elems h' s)"
proof -
  note f = GetWorkflowStatesByTeamID_copies[OF once call]
  from f have st: "c' = c" "w' = w" and cells: "WorkflowState_cells h' = WorkflowState_cells h"
    by simp_all
  show ?thesis
  proof (cases "workflowStatesErr c")
    case (Some err)
    with once call have "s = None" "e = Some err" "h' = h"
      by (simp_all add: GetWorkflowStatesByTeamID_failed)
    with Some once show ?thesis
      unfolding st by (simp add: GetWorkflowStatesByTeamID_failed slice_elems_def)
  next
    case None
    with once m call obtain r where
      r: "workflowStates_scan teamID (WorkflowState_cells h) m o1 [] = Some r"
      by (auto simp: GetWorkflowStatesByTeamID_def ensureWorkflowStates_done
          split: option.splits)
    have ih: "in_heap (WorkflowState_cells h) m"
      unfolding in_heap_def
    proof (intro allI impI)
      fix k p assume "m k = Some p"
      moreover from this o1(2) have "k \<in> set o1" by auto
      ultimately show "p < length (WorkflowState_cells h)"
        using workflowStates_scan_Some[OF r] by blast
    qed
    from GetWorkflowStatesByTeamID_elems[OF once None m ih, of ctx o1 teamID w]
    obtain s1 h1 where
      x: "GetWorkflowStatesByTeamID ctx o1 teamID c h w = Some ((s1, None), c, h1, w)"
        "slice_elems h1 s1 = filter (owned_by teamID)
          (List.map_filter (deref (WorkflowState_cells h) m) o1)"
      by blast
    from x(1) call have e: "e = None" and same: "s1 = s" "h1 = h'"
      by simp_all
    have first: "slice_elems h' s = filter (owned_by teamID)
          (List.map_filter (deref (WorkflowState_cells h) m) o1)"
      using x(2) unfolding same .
    have ih2: "in_heap (WorkflowState_cells h2) m"
      using ih by (simp add: heap cells)
    from GetWorkflowStatesByTeamID_elems[OF once None m ih2, of ctx2 o2 teamID w]
    obtain s2 h3 where
      second: "GetWorkflowStatesByTeamID ctx2 o2 teamID c h2 w = Some ((s2, None), c, h3, w)"
        "slice_elems h3 s2 = filter (owned_by teamID)
          (List.map_filter (deref (WorkflowState_cells h2) m) o2)"
      by blast
    have "mset (slice_elems h3 s2) = mset (slice_elems h' s)"
      unfolding first second(2) heap cells
      by (rule scan_order_independent[OF o2 o1])
    with second(1) e show ?thesis
      unfolding st by blast
  qed
qed

text \<open>
  Claim C10. In a terminal state of the workflow states, a call of
  \<^verbatim>\<open>GetWorkflowStatesByTeamID\<close> that returns leaves the cache and the world as they are and
  no cell of a record changes: the heap only grows by the backing array of the returned
  slice, whose elements are values that cells of workflow states hold. The backing array
  is no cell of a record, so a store of the caller into a slice leaves the cells of the
  workflow states, and with them the records that the map points to, as they are. A second
  call with the same team, after any such store and in whichever order the runtime ranges
  over the map, returns the same error and a slice with the same elements as a multiset;
  Go does not fix the order of the elements.
\<close>

theorem scan_returns_copies:
  "(workflowStatesOnce c \<longrightarrow>
    GetWorkflowStatesByTeamID ctx o1 teamID c h w = Some ((s, e), c', h', w') \<longrightarrow>
    c' = c \<and> w' = w \<and>
    IssueLabel_cells h' = IssueLabel_cells h \<and> WorkflowState_cells h' = WorkflowState_cells h \<and>
    Template_cells h' = Template_cells h \<and> Team_cells h' = Team_cells h \<and>
    take (length (WorkflowState_slices h)) (WorkflowState_slices h') = WorkflowState_slices h \<and>
    set (slice_elems h' s) \<subseteq> set (WorkflowState_cells h) \<and>
    (\<forall>a i v. WorkflowState_cells (slice_store h' a i v) = WorkflowState_cells h)) \<and>
   (workflowStatesOnce c \<longrightarrow> workflowStates c = Some m \<longrightarrow>
    distinct o1 \<longrightarrow> set o1 = dom m \<longrightarrow> distinct o2 \<longrightarrow> set o2 = dom m \<longrightarrow>
    GetWorkflowStatesByTeamID ctx o1 teamID c h w = Some ((s, e), c', h', w') \<longrightarrow>
    (\<exists>s2 h2. GetWorkflowStatesByTeamID ctx2 o2 teamID c' h' w' = Some ((s2, e), c', h2, w') \<and>
       mset (slice_elems h2 s2) = mset (slice_elems h' s)) \<and>
    (\<forall>a i v. \<exists>s2 h2.
       GetWorkflowStatesByTeamID ctx2 o2 teamID c' (slice_store h' a i v) w' =
         Some ((s2, e), c', h2, w') \<and>
       mset (slice_elems h2 s2) = mset (slice_elems h' s)))"
proof (intro conjI impI allI)
  assume "workflowStatesOnce c"
    "GetWorkflowStatesByTeamID ctx o1 teamID c h w = Some ((s, e), c', h', w')"
  note f = GetWorkflowStatesByTeamID_copies[OF this]
  from f show "c' = c" "w' = w" "IssueLabel_cells h' = IssueLabel_cells h"
    "WorkflowState_cells h' = WorkflowState_cells h" "Template_cells h' = Template_cells h"
    "Team_cells h' = Team_cells h"
    "take (length (WorkflowState_slices h)) (WorkflowState_slices h') = WorkflowState_slices h"
    "set (slice_elems h' s) \<subseteq> set (WorkflowState_cells h)"
    by simp_all
  from f show "WorkflowState_cells (slice_store h' a i v) = WorkflowState_cells h" for a i v
    by simp
next
  assume a: "workflowStatesOnce c" "workflowStates c = Some m" "distinct o1" "set o1 = dom m"
    "distinct o2" "set o2 = dom m"
    "GetWorkflowStatesByTeamID ctx o1 teamID c h w = Some ((s, e), c', h', w')"
  show "\<exists>s2 h2. GetWorkflowStatesByTeamID ctx2 o2 teamID c' h' w' = Some ((s2, e), c', h2, w') \<and>
       mset (slice_elems h2 s2) = mset (slice_elems h' s)"
    by (rule GetWorkflowStatesByTeamID_repeat[OF a refl])
  show "\<exists>s2 h2. GetWorkflowStatesByTeamID ctx2 o2 teamID c' (slice_store h' a i v) w' =
         Some ((s2, e), c', h2, w') \<and>
       mset (slice_elems h2 s2) = mset (slice_elems h' s)" for a i v
    by (rule GetWorkflowStatesByTeamID_repeat[OF a slice_store_cells(2)])
qed

lemma demo_workflowStates_populated:
  "ensureWorkflowStates () (newBulkCache demo_client) heap0 [] =
     Some (demo_workflowStates_cache, demo_workflowStates_heap, [None, Some ''A''])"
proof -
  have "fst (store_all (workflowStates_entries demo_workflowStates) Map.empty
        (WorkflowState_cells heap0)) = [''s1'' \<mapsto> 0, ''s2'' \<mapsto> 1, ''s3'' \<mapsto> 2]"
    by (simp add: demo_workflowStates_entries heap0_def numeral_2_eq_2)
  then show ?thesis
    using ensureWorkflowStates_traversal[of "newBulkCache demo_client" "()" "[]"
        demo_workflowStates None "[None, Some ''A'']" heap0]
    by (simp add: newBulkCache_fresh demo_workflowStates_traversal
        demo_workflowStates_cache_def demo_workflowStates_heap_def
        demo_workflowStates_entries heap0_def)
qed

lemma demo_scan_call:
  "GetWorkflowStatesByTeamID () [''s3'', ''s1'', ''s2''] ''T1''
       demo_workflowStates_cache demo_workflowStates_heap [None, Some ''A''] =
     Some ((Some 0, None), demo_workflowStates_cache, demo_scanned_heap, [None, Some ''A''])"
  by (simp add: GetWorkflowStatesByTeamID_def ensureWorkflowStates_def
      demo_workflowStates_cache_def demo_workflowStates_heap_def demo_scanned_heap_def
      newBulkCache_def heap0_def)

text \<open>The order of the range shows in the slice: the same scan in another order.\<close>

lemma demo_scan_other_order:
  "GetWorkflowStatesByTeamID () [''s2'', ''s1'', ''s3''] ''T1''
       demo_workflowStates_cache demo_workflowStates_heap [None, Some ''A''] =
     Some ((Some 0, None), demo_workflowStates_cache,
       demo_workflowStates_heap\<lparr>WorkflowState_slices :=
         [[\<lparr>WorkflowState_Id = ''s2'', WorkflowState_Team = \<lparr>WorkflowStateTeam_Id = ''T1''\<rparr>,
            WorkflowState_fields = ''done''\<rparr>,
           \<lparr>WorkflowState_Id = ''s1'', WorkflowState_Team = \<lparr>WorkflowStateTeam_Id = ''T1''\<rparr>,
            WorkflowState_fields = ''todo''\<rparr>]]\<rparr>,
       [None, Some ''A''])"
  by (simp add: GetWorkflowStatesByTeamID_def ensureWorkflowStates_def
      demo_workflowStates_cache_def demo_workflowStates_heap_def
      newBulkCache_def heap0_def)

lemma demo_scan_orders:
  "workflowStatesOnce demo_workflowStates_cache"
  "workflowStates demo_workflowStates_cache = Some [''s1'' \<mapsto> 0, ''s2'' \<mapsto> 1, ''s3'' \<mapsto> 2]"
  "distinct [''s3'', ''s1'', ''s2'']"
  "set [''s3'', ''s1'', ''s2''] = dom [''s1'' \<mapsto> 0::nat, ''s2'' \<mapsto> 1, ''s3'' \<mapsto> 2]"
  "distinct [''s2'', ''s1'', ''s3'']"
  "set [''s2'', ''s1'', ''s3''] = dom [''s1'' \<mapsto> 0::nat, ''s2'' \<mapsto> 1, ''s3'' \<mapsto> 2]"
  by (auto simp: demo_workflowStates_cache_def)

theorem scan_returns_copies_witness:
  "ensureWorkflowStates () (newBulkCache demo_client) heap0 [] =
     Some (demo_workflowStates_cache, demo_workflowStates_heap, [None, Some ''A'']) \<and>
   GetWorkflowStatesByTeamID () [''s3'', ''s1'', ''s2''] ''T1''
       demo_workflowStates_cache demo_workflowStates_heap [None, Some ''A''] =
     Some ((Some 0, None), demo_workflowStates_cache, demo_scanned_heap, [None, Some ''A'']) \<and>
   WorkflowState_cells demo_scanned_heap = WorkflowState_cells demo_workflowStates_heap \<and>
   WorkflowState_cells
       (slice_store demo_scanned_heap 0 0
          \<lparr>WorkflowState_Id = ''s9'', WorkflowState_Team = \<lparr>WorkflowStateTeam_Id = ''T9''\<rparr>,
           WorkflowState_fields = ''changed''\<rparr>) =
     WorkflowState_cells demo_workflowStates_heap \<and>
   (\<exists>s2 h2. GetWorkflowStatesByTeamID () [''s2'', ''s1'', ''s3''] ''T1''
         demo_workflowStates_cache
         (slice_store demo_scanned_heap 0 0
            \<lparr>WorkflowState_Id = ''s9'', WorkflowState_Team = \<lparr>WorkflowStateTeam_Id = ''T9''\<rparr>,
             WorkflowState_fields = ''changed''\<rparr>)
         [None, Some ''A''] =
       Some ((s2, None), demo_workflowStates_cache, h2, [None, Some ''A'']) \<and>
     mset (slice_elems h2 s2) = mset (slice_elems demo_scanned_heap (Some 0)))"
proof -
  note inst = scan_returns_copies[where c = demo_workflowStates_cache and ctx = "()"
      and ?o1.0 = "[''s3'', ''s1'', ''s2'']" and teamID = "''T1''"
      and h = demo_workflowStates_heap and w = "[None, Some ''A'']"
      and s = "Some 0" and e = None and c' = demo_workflowStates_cache
      and h' = demo_scanned_heap and w' = "[None, Some ''A'']"
      and m = "[''s1'' \<mapsto> 0, ''s2'' \<mapsto> 1, ''s3'' \<mapsto> 2]"
      and ?o2.0 = "[''s2'', ''s1'', ''s3'']" and ?ctx2.0 = "()"]
  note A = inst[THEN conjunct1, rule_format, OF demo_scan_orders(1) demo_scan_call]
  note B = inst[THEN conjunct2, rule_format, OF demo_scan_orders demo_scan_call]
  from A have 1: "WorkflowState_cells demo_scanned_heap =
      WorkflowState_cells demo_workflowStates_heap"
    by simp
  from A have 2: "WorkflowState_cells
       (slice_store demo_scanned_heap 0 0
          \<lparr>WorkflowState_Id = ''s9'', WorkflowState_Team = \<lparr>WorkflowStateTeam_Id = ''T9''\<rparr>,
           WorkflowState_fields = ''changed''\<rparr>) =
     WorkflowState_cells demo_workflowStates_heap"
    by simp
  note 3 = B[THEN conjunct2, rule_format, of 0 0
      "\<lparr>WorkflowState_Id = ''s9'', WorkflowState_Team = \<lparr>WorkflowStateTeam_Id = ''T9''\<rparr>,
        WorkflowState_fields = ''changed''\<rparr>"]
  from demo_workflowStates_populated demo_scan_call 1 2 3 show ?thesis
    by (intro conjI)
qed

section \<open>The invariant of the cache\<close>

lemma newBulkCache_ok: "cache_ok (newBulkCache cl) h"
  by (simp add: cache_ok_def newBulkCache_def)

lemma labels_loop_returns:
  assumes "labels_loop cl ctx cursor m h w = Some y"
  shows "\<exists>pages. labels_traversal cl ctx cursor w pages = Some (fst (snd y), snd (snd (snd y)))"
  using assms
proof (induction rule: labels_loop.raw_induct[rotated 1, consumes 1])
  case (1 loop cl ctx cursor m h w y)
  obtain resp e w1 where call: "listAllLabelsPage cl ctx cursor w = ((resp, e), w1)"
    by (metis surj_pair)
  show ?case
  proof (cases e)
    case (Some err)
    with 1(2) call have "y = (m, Some err, h, w1)" by simp
    with call Some have "labels_traversal cl ctx cursor w [] = Some (fst (snd y), snd (snd (snd y)))"
      by simp
    then show ?thesis ..
  next
    case None
    obtain m1 cells1 where m1: "labels_merge (Nodes (IssueLabels resp)) m (IssueLabel_cells h) = (m1, cells1)"
      by (metis surj_pair)
    show ?thesis
    proof (cases "HasNextPage (PageInfo (IssueLabels resp))")
      case False
      with 1(2) call None m1 have "y = (m1, None, h\<lparr>IssueLabel_cells := cells1\<rparr>, w1)" by simp
      with call None False
      have "labels_traversal cl ctx cursor w [resp] = Some (fst (snd y), snd (snd (snd y)))"
        by simp
      then show ?thesis ..
    next
      case True
      with 1(2) call None m1
      have "loop cl ctx (Some (EndCursor (PageInfo (IssueLabels resp)))) m1
          (h\<lparr>IssueLabel_cells := cells1\<rparr>) w1 = Some y"
        by simp
      from 1(1)[OF this] obtain pages where
        "labels_traversal cl ctx (Some (EndCursor (PageInfo (IssueLabels resp)))) w1 pages =
           Some (fst (snd y), snd (snd (snd y)))"
        by blast
      with call None True
      have "labels_traversal cl ctx cursor w (resp # pages) = Some (fst (snd y), snd (snd (snd y)))"
        by simp
      then show ?thesis ..
    qed
  qed
qed

text \<open>Every run of \<^verbatim>\<open>ensureLabels\<close> that returns from an unpopulated category is the
  run on a dataset.\<close>

lemma ensureLabels_returns:
  assumes "\<not> labelsOnce c" and "ensureLabels ctx c h w = Some (c', h', w')"
  shows "\<exists>pages err. labels_traversal (client c) ctx None w pages = Some (err, w')"
proof -
  from assms obtain y where y: "labels_loop (client c) ctx None Map.empty h w = Some y"
    and w': "w' = snd (snd (snd y))"
    by (auto simp: ensureLabels_def split: option.splits prod.splits)
  from labels_loop_returns[OF y] w' show ?thesis by blast
qed


lemma ensureLabels_ok:
  assumes "cache_ok c h" and "ensureLabels ctx c h w = Some (c', h', w')"
  shows "cache_ok c' h' \<and> labelsOnce c'"
proof (cases "labelsOnce c")
  case True
  with assms show ?thesis by (simp add: ensureLabels_done)
next
  case False
  from ensureLabels_returns[OF False assms(2)] obtain pages err where
    "labels_traversal (client c) ctx None w pages = Some (err, w')"
    by blast
  from ensureLabels_traversal[OF False this, of h] assms(2)
  have c': "c' = c\<lparr>labels := Some (fst (store_all (labels_entries pages) Map.empty (IssueLabel_cells h))),
              labelsErr := (case err of None \<Rightarrow> labelsErr c | Some e \<Rightarrow> Some e),
              labelsOnce := True\<rparr>"
    and h': "h' = h\<lparr>IssueLabel_cells := IssueLabel_cells h @ map snd (labels_entries pages)\<rparr>"
    by simp_all
  show ?thesis
    using assms(1) False unfolding c' h' cache_ok_def
    by (simp add: store_all_empty_in_heap)
qed

lemma GetLabel_ok:
  assumes "cache_ok c h" and "GetLabel ctx k c h w = Some (r, c', h', w')"
  shows "cache_ok c' h' \<and> labelsOnce c'"
proof -
  from assms(2) have "ensureLabels ctx c h w = Some (c', h', w')"
    by (auto simp: GetLabel_def split: option.splits prod.splits)
  from ensureLabels_ok[OF assms(1) this] show ?thesis .
qed

text \<open>In a state that satisfies the invariant, a pointer that \<^verbatim>\<open>GetLabel\<close> returns is a
  cell of the heap.\<close>

lemma GetLabel_pointer:
  assumes "cache_ok c h" and "GetLabel ctx k c h w = Some ((Some p, e), c', h', w')"
  shows "p < length (IssueLabel_cells h')"
proof -
  from assms(2) have ens: "ensureLabels ctx c h w = Some (c', h', w')"
    and p: "map_index (labels c') k = Some p"
    by (auto simp: GetLabel_def split: option.splits prod.splits)
  from ensureLabels_ok[OF assms(1) ens] have "cache_ok c' h'" ..
  with p show ?thesis
    by (auto simp: cache_ok_def in_heap_def map_index_def split: option.splits)
qed


lemma workflowStates_loop_returns:
  assumes "workflowStates_loop cl ctx cursor m h w = Some y"
  shows "\<exists>pages. workflowStates_traversal cl ctx cursor w pages = Some (fst (snd y), snd (snd (snd y)))"
  using assms
proof (induction rule: workflowStates_loop.raw_induct[rotated 1, consumes 1])
  case (1 loop cl ctx cursor m h w y)
  obtain resp e w1 where call: "listAllWorkflowStatesPage cl ctx cursor w = ((resp, e), w1)"
    by (metis surj_pair)
  show ?case
  proof (cases e)
    case (Some err)
    with 1(2) call have "y = (m, Some err, h, w1)" by simp
    with call Some have "workflowStates_traversal cl ctx cursor w [] = Some (fst (snd y), snd (snd (snd y)))"
      by simp
    then show ?thesis ..
  next
    case None
    obtain m1 cells1 where m1: "workflowStates_merge (Nodes (WorkflowStates resp)) m (WorkflowState_cells h) = (m1, cells1)"
      by (metis surj_pair)
    show ?thesis
    proof (cases "HasNextPage (PageInfo (WorkflowStates resp))")
      case False
      with 1(2) call None m1 have "y = (m1, None, h\<lparr>WorkflowState_cells := cells1\<rparr>, w1)" by simp
      with call None False
      have "workflowStates_traversal cl ctx cursor w [resp] = Some (fst (snd y), snd (snd (snd y)))"
        by simp
      then show ?thesis ..
    next
      case True
      with 1(2) call None m1
      have "loop cl ctx (Some (EndCursor (PageInfo (WorkflowStates resp)))) m1
          (h\<lparr>WorkflowState_cells := cells1\<rparr>) w1 = Some y"
        by simp
      from 1(1)[OF this] obtain pages where
        "workflowStates_traversal cl ctx (Some (EndCursor (PageInfo (WorkflowStates resp)))) w1 pages =
           Some (fst (snd y), snd (snd (snd y)))"
        by blast
      with call None True
      have "workflowStates_traversal cl ctx cursor w (resp # pages) = Some (fst (snd y), snd (snd (snd y)))"
        by simp
      then show ?thesis ..
    qed
  qed
qed

text \<open>Every run of \<^verbatim>\<open>ensureWorkflowStates\<close> that returns from an unpopulated category is the
  run on a dataset.\<close>

lemma ensureWorkflowStates_returns:
  assumes "\<not> workflowStatesOnce c" and "ensureWorkflowStates ctx c h w = Some (c', h', w')"
  shows "\<exists>pages err. workflowStates_traversal (client c) ctx None w pages = Some (err, w')"
proof -
  from assms obtain y where y: "workflowStates_loop (client c) ctx None Map.empty h w = Some y"
    and w': "w' = snd (snd (snd y))"
    by (auto simp: ensureWorkflowStates_def split: option.splits prod.splits)
  from workflowStates_loop_returns[OF y] w' show ?thesis by blast
qed


lemma ensureWorkflowStates_ok:
  assumes "cache_ok c h" and "ensureWorkflowStates ctx c h w = Some (c', h', w')"
  shows "cache_ok c' h' \<and> workflowStatesOnce c'"
proof (cases "workflowStatesOnce c")
  case True
  with assms show ?thesis by (simp add: ensureWorkflowStates_done)
next
  case False
  from ensureWorkflowStates_returns[OF False assms(2)] obtain pages err where
    "workflowStates_traversal (client c) ctx None w pages = Some (err, w')"
    by blast
  from ensureWorkflowStates_traversal[OF False this, of h] assms(2)
  have c': "c' = c\<lparr>workflowStates := Some (fst (store_all (workflowStates_entries pages) Map.empty (WorkflowState_cells h))),
              workflowStatesErr := (case err of None \<Rightarrow> workflowStatesErr c | Some e \<Rightarrow> Some e),
              workflowStatesOnce := True\<rparr>"
    and h': "h' = h\<lparr>WorkflowState_cells := WorkflowState_cells h @ map snd (workflowStates_entries pages)\<rparr>"
    by simp_all
  show ?thesis
    using assms(1) False unfolding c' h' cache_ok_def
    by (simp add: store_all_empty_in_heap)
qed

lemma GetWorkflowState_ok:
  assumes "cache_ok c h" and "GetWorkflowState ctx k c h w = Some (r, c', h', w')"
  shows "cache_ok c' h' \<and> workflowStatesOnce c'"
proof -
  from assms(2) have "ensureWorkflowStates ctx c h w = Some (c', h', w')"
    by (auto simp: GetWorkflowState_def split: option.splits prod.splits)
  from ensureWorkflowStates_ok[OF assms(1) this] show ?thesis .
qed

text \<open>In a state that satisfies the invariant, a pointer that \<^verbatim>\<open>GetWorkflowState\<close> returns is a
  cell of the heap.\<close>

lemma GetWorkflowState_pointer:
  assumes "cache_ok c h" and "GetWorkflowState ctx k c h w = Some ((Some p, e), c', h', w')"
  shows "p < length (WorkflowState_cells h')"
proof -
  from assms(2) have ens: "ensureWorkflowStates ctx c h w = Some (c', h', w')"
    and p: "map_index (workflowStates c') k = Some p"
    by (auto simp: GetWorkflowState_def split: option.splits prod.splits)
  from ensureWorkflowStates_ok[OF assms(1) ens] have "cache_ok c' h'" ..
  with p show ?thesis
    by (auto simp: cache_ok_def in_heap_def map_index_def split: option.splits)
qed


lemma teams_loop_returns:
  assumes "teams_loop cl ctx cursor m h w = Some y"
  shows "\<exists>pages. teams_traversal cl ctx cursor w pages = Some (fst (snd y), snd (snd (snd y)))"
  using assms
proof (induction rule: teams_loop.raw_induct[rotated 1, consumes 1])
  case (1 loop cl ctx cursor m h w y)
  obtain resp e w1 where call: "listAllTeamsPage cl ctx cursor w = ((resp, e), w1)"
    by (metis surj_pair)
  show ?case
  proof (cases e)
    case (Some err)
    with 1(2) call have "y = (m, Some err, h, w1)" by simp
    with call Some have "teams_traversal cl ctx cursor w [] = Some (fst (snd y), snd (snd (snd y)))"
      by simp
    then show ?thesis ..
  next
    case None
    obtain m1 cells1 where m1: "teams_merge (Nodes (Teams resp)) m (Team_cells h) = (m1, cells1)"
      by (metis surj_pair)
    show ?thesis
    proof (cases "HasNextPage (PageInfo (Teams resp))")
      case False
      with 1(2) call None m1 have "y = (m1, None, h\<lparr>Team_cells := cells1\<rparr>, w1)" by simp
      with call None False
      have "teams_traversal cl ctx cursor w [resp] = Some (fst (snd y), snd (snd (snd y)))"
        by simp
      then show ?thesis ..
    next
      case True
      with 1(2) call None m1
      have "loop cl ctx (Some (EndCursor (PageInfo (Teams resp)))) m1
          (h\<lparr>Team_cells := cells1\<rparr>) w1 = Some y"
        by simp
      from 1(1)[OF this] obtain pages where
        "teams_traversal cl ctx (Some (EndCursor (PageInfo (Teams resp)))) w1 pages =
           Some (fst (snd y), snd (snd (snd y)))"
        by blast
      with call None True
      have "teams_traversal cl ctx cursor w (resp # pages) = Some (fst (snd y), snd (snd (snd y)))"
        by simp
      then show ?thesis ..
    qed
  qed
qed

text \<open>Every run of \<^verbatim>\<open>ensureTeams\<close> that returns from an unpopulated category is the
  run on a dataset.\<close>

lemma ensureTeams_returns:
  assumes "\<not> teamsOnce c" and "ensureTeams ctx c h w = Some (c', h', w')"
  shows "\<exists>pages err. teams_traversal (client c) ctx None w pages = Some (err, w')"
proof -
  from assms obtain y where y: "teams_loop (client c) ctx None Map.empty h w = Some y"
    and w': "w' = snd (snd (snd y))"
    by (auto simp: ensureTeams_def split: option.splits prod.splits)
  from teams_loop_returns[OF y] w' show ?thesis by blast
qed


lemma ensureTeams_ok:
  assumes "cache_ok c h" and "ensureTeams ctx c h w = Some (c', h', w')"
  shows "cache_ok c' h' \<and> teamsOnce c'"
proof (cases "teamsOnce c")
  case True
  with assms show ?thesis by (simp add: ensureTeams_done)
next
  case False
  from ensureTeams_returns[OF False assms(2)] obtain pages err where
    "teams_traversal (client c) ctx None w pages = Some (err, w')"
    by blast
  from ensureTeams_traversal[OF False this, of h] assms(2)
  have c': "c' = c\<lparr>teamsByKey := Some (fst (store_all (teams_entries pages) Map.empty (Team_cells h))),
              teamsErr := (case err of None \<Rightarrow> teamsErr c | Some e \<Rightarrow> Some e),
              teamsOnce := True\<rparr>"
    and h': "h' = h\<lparr>Team_cells := Team_cells h @ map snd (teams_entries pages)\<rparr>"
    by simp_all
  show ?thesis
    using assms(1) False unfolding c' h' cache_ok_def
    by (simp add: store_all_empty_in_heap)
qed

lemma GetTeamByKey_ok:
  assumes "cache_ok c h" and "GetTeamByKey ctx k c h w = Some (r, c', h', w')"
  shows "cache_ok c' h' \<and> teamsOnce c'"
proof -
  from assms(2) have "ensureTeams ctx c h w = Some (c', h', w')"
    by (auto simp: GetTeamByKey_def split: option.splits prod.splits)
  from ensureTeams_ok[OF assms(1) this] show ?thesis .
qed

text \<open>In a state that satisfies the invariant, a pointer that \<^verbatim>\<open>GetTeamByKey\<close> returns is a
  cell of the heap.\<close>

lemma GetTeamByKey_pointer:
  assumes "cache_ok c h" and "GetTeamByKey ctx k c h w = Some ((Some p, e), c', h', w')"
  shows "p < length (Team_cells h')"
proof -
  from assms(2) have ens: "ensureTeams ctx c h w = Some (c', h', w')"
    and p: "map_index (teamsByKey c') k = Some p"
    by (auto simp: GetTeamByKey_def split: option.splits prod.splits)
  from ensureTeams_ok[OF assms(1) ens] have "cache_ok c' h'" ..
  with p show ?thesis
    by (auto simp: cache_ok_def in_heap_def map_index_def split: option.splits)
qed


lemma ensureTemplates_ok:
  assumes "cache_ok c h" and "ensureTemplates ctx c h w = (c', h', w')"
  shows "cache_ok c' h' \<and> templatesOnce c'"
proof (cases "templatesOnce c")
  case True
  with assms show ?thesis by (simp add: ensureTemplates_done)
next
  case False
  obtain resp e w1 where call: "listAllTemplates (client c) ctx w = ((resp, e), w1)"
    by (metis surj_pair)
  show ?thesis
  proof (cases e)
    case None
    from ensureTemplates_fetched[OF False call[unfolded None], of h] assms
    show ?thesis
      by (auto simp: cache_ok_def store_all_empty_in_heap)
  next
    case (Some err)
    from ensureTemplates_failed[OF False call[unfolded Some], of h] assms
    show ?thesis
      by (auto simp: cache_ok_def)
  qed
qed

lemma GetTemplate_ok:
  assumes "cache_ok c h" and "GetTemplate ctx k c h w = (r, c', h', w')"
  shows "cache_ok c' h' \<and> templatesOnce c'"
proof -
  from assms(2) have "ensureTemplates ctx c h w = (c', h', w')"
    by (auto simp: GetTemplate_def split: option.splits prod.splits)
  from ensureTemplates_ok[OF assms(1) this] show ?thesis .
qed

lemma GetWorkflowStatesByTeamID_ok:
  assumes "cache_ok c h"
    and "GetWorkflowStatesByTeamID ctx order teamID c h w = Some (r, c', h', w')"
  shows "cache_ok c' h' \<and> workflowStatesOnce c'"
proof -
  from assms(2) obtain h1 where ens: "ensureWorkflowStates ctx c h w = Some (c', h1, w')"
    and h': "h' = h1 \<or> (\<exists>x. h' = h1\<lparr>WorkflowState_slices := WorkflowState_slices h1 @ [x]\<rparr>)"
    by (auto simp: GetWorkflowStatesByTeamID_def split: option.splits prod.splits if_splits)
  from ensureWorkflowStates_ok[OF assms(1) ens] h' show ?thesis
    by (auto simp: cache_ok_def)
qed

text \<open>
  In a state that satisfies the invariant the scan reads cells only: in a terminal state
  of the workflow states \<^verbatim>\<open>GetWorkflowStatesByTeamID\<close> returns, in whichever order the
  keys come.
\<close>

lemma GetWorkflowStatesByTeamID_returns:
  assumes "cache_ok c h" and "workflowStatesOnce c"
  shows "\<exists>s e h'. GetWorkflowStatesByTeamID ctx order teamID c h w = Some ((s, e), c, h', w)"
proof (cases "workflowStatesErr c")
  case (Some err)
  with assms(2) show ?thesis by (simp add: GetWorkflowStatesByTeamID_failed)
next
  case None
  show ?thesis
  proof (cases "workflowStates c")
    case nil: None
    with None assms(2) show ?thesis
      by (simp add: GetWorkflowStatesByTeamID_def ensureWorkflowStates_done)
  next
    case (Some m)
    with assms(1) have "in_heap (WorkflowState_cells h) m"
      by (simp add: cache_ok_def)
    from GetWorkflowStatesByTeamID_elems[OF assms(2) None Some this, of ctx order teamID w]
    show ?thesis by blast
  qed
qed

text \<open>
  A second call of a populate routine returns the state as it is: the remote is reached
  by the first call only. This is what the done flag gives to callers that come one after
  the other; callers that race on \<^verbatim>\<open>sync.Once\<close>, and their waiting for the first one, are
  not in a sequential embedding.
\<close>

lemma populate_once:
  "ensureLabels ctx c h w = Some (c', h', w') \<Longrightarrow> ensureLabels ctx2 c' h2 w2 = Some (c', h2, w2)"
  "ensureWorkflowStates ctx c h w = Some (c', h', w') \<Longrightarrow>
     ensureWorkflowStates ctx2 c' h2 w2 = Some (c', h2, w2)"
  "ensureTemplates ctx c h w = (c', h', w') \<Longrightarrow> ensureTemplates ctx2 c' h2 w2 = (c', h2, w2)"
  "ensureTeams ctx c h w = Some (c', h', w') \<Longrightarrow> ensureTeams ctx2 c' h2 w2 = Some (c', h2, w2)"
proof -
  show "ensureLabels ctx2 c' h2 w2 = Some (c', h2, w2)"
    if "ensureLabels ctx c h w = Some (c', h', w')"
  proof -
    from that have "labelsOnce c'"
      by (auto simp: ensureLabels_def split: if_splits option.splits prod.splits)
    then show ?thesis by (rule ensureLabels_done)
  qed
  show "ensureWorkflowStates ctx2 c' h2 w2 = Some (c', h2, w2)"
    if "ensureWorkflowStates ctx c h w = Some (c', h', w')"
  proof -
    from that have "workflowStatesOnce c'"
      by (auto simp: ensureWorkflowStates_def split: if_splits option.splits prod.splits)
    then show ?thesis by (rule ensureWorkflowStates_done)
  qed
  show "ensureTemplates ctx2 c' h2 w2 = (c', h2, w2)"
    if "ensureTemplates ctx c h w = (c', h', w')"
  proof -
    from that have "templatesOnce c'"
      by (auto simp: ensureTemplates_def split: if_splits option.splits prod.splits)
    then show ?thesis by (rule ensureTemplates_done)
  qed
  show "ensureTeams ctx2 c' h2 w2 = Some (c', h2, w2)"
    if "ensureTeams ctx c h w = Some (c', h', w')"
  proof -
    from that have "teamsOnce c'"
      by (auto simp: ensureTeams_def split: if_splits option.splits prod.splits)
    then show ?thesis by (rule ensureTeams_done)
  qed
qed

end
